(* ===== verification/Moa_Prelude.thy ===== *)
theory Moa_Prelude
  imports Main "HOL-Library.AList" "HOL-Library.Word" "HOL-Library.Signed_Division"
    "HOL-Library.Char_ord" "HOL-Library.List_Lexorder"
begin

text \<open>
  What every theory of the development shares: the outcome of a Go call that may panic,
  machine integers, Go maps as association lists, and generic lemmas on them.

  \<^item> A Go \<^verbatim>\<open>panic\<close> is the value \<open>Panic msg\<close> of the type \<open>'a go\<close>; a normal return is \<open>Ret a\<close>.
  \<^item> An \<^verbatim>\<open>error\<close> result is \<open>Inl msg\<close> of the sum \<open>string + 'a\<close>.
  \<^item> \<^verbatim>\<open>int\<close>, \<^verbatim>\<open>int64\<close> and \<^verbatim>\<open>time.Duration\<close> are \<open>64 word\<close> where overflow or sign matters.
  \<^item> A Go map is an association list; reading is \<open>map_of\<close>, writing is \<open>AList.update\<close>,
    \<^verbatim>\<open>delete\<close> is \<open>AList.delete\<close>. Go fixes no iteration order: where the code ranges over
    a map the model runs through the list, whose order is arbitrary.
\<close>

datatype 'a go = Ret 'a | Panic string

type_synonym i64 = "64 word"
type_synonym i32 = "32 word"
type_synonym ('k, 'v) gomap = "('k \<times> 'v) list"

named_theorems go_simps \<open>rewriting of Go outcomes, maps and strings\<close>
named_theorems map_simps \<open>reading Go maps after writes\<close>

primrec bind_go :: "'a go \<Rightarrow> ('a \<Rightarrow> 'b go) \<Rightarrow> 'b go" where
  "bind_go (Ret a) f = f a"
| "bind_go (Panic m) f = Panic m"

lemma bind_go_Ret_iff [go_simps]:
  "bind_go x f = Ret b \<longleftrightarrow> (\<exists>a. x = Ret a \<and> f a = Ret b)"
  by (cases x) auto

primrec panics :: "'a go \<Rightarrow> bool" where
  "panics (Ret a) = False"
| "panics (Panic m) = True"

abbreviation nil_deref :: string where
  "nil_deref \<equiv> ''runtime error: invalid memory address or nil pointer dereference''"

abbreviation index_panic :: string where
  "index_panic \<equiv> ''runtime error: index out of range''"

abbreviation nil_map_write :: string where
  "nil_map_write \<equiv> ''assignment to entry in nil map''"

section \<open>Go maps\<close>

text \<open>\<^verbatim>\<open>m[k] = v\<close> and \<^verbatim>\<open>sync.Map.LoadOrStore(k, v)\<close>.\<close>

definition load_or_store :: "'k \<Rightarrow> 'v \<Rightarrow> ('k, 'v) gomap \<Rightarrow> ('v \<times> bool) \<times> ('k, 'v) gomap" where
  "load_or_store k v m =
     (case map_of m k of Some w \<Rightarrow> ((w, True), m) | None \<Rightarrow> ((v, False), AList.update k v m))"

lemma map_of_update [map_simps]:
  "map_of (AList.update k v m) k' = (if k = k' then Some v else map_of m k')"
  by (simp add: update_conv')

lemma map_of_delete [map_simps]:
  "map_of (AList.delete k m) k' = (if k = k' then None else map_of m k')"
  by (simp add: delete_conv')

lemma keys_update [map_simps]:
  "fst ` set (AList.update k v m) = insert k (fst ` set m)"
  by (simp add: dom_update)

lemma keys_delete [map_simps]:
  "fst ` set (AList.delete k m) = fst ` set m - {k}"
  by (metis delete_keys list.set_map set_removeAll)

lemma map_of_load_or_store [map_simps]:
  "map_of (snd (load_or_store k v m)) k' =
     (if k = k' then Some (fst (fst (load_or_store k v m))) else map_of m k')"
  by (auto simp: load_or_store_def map_simps split: option.splits)

lemma load_or_store_value:
  "fst (fst (load_or_store k v m)) = (case map_of m k of Some w \<Rightarrow> w | None \<Rightarrow> v)"
  by (auto simp: load_or_store_def split: option.splits)

lemma map_of_Some_in: "map_of m k = Some v \<Longrightarrow> (k, v) \<in> set m"
  by (rule map_of_SomeD)

lemma map_of_map_snd [map_simps]:
  "map_of (map (\<lambda>(k, v). (k, f k v)) m) k = map_option (f k) (map_of m k)"
  by (induction m) auto

lemma map_of_filter_key [map_simps]:
  "map_of (filter (\<lambda>(k, v). P k) m) k = (if P k then map_of m k else None)"
  by (induction m) auto

section \<open>Machine integers\<close>

text \<open>Go's signed comparisons on \<open>i64\<close> values.\<close>

definition le0 :: "i64 \<Rightarrow> bool" where
  "le0 x \<longleftrightarrow> sint x \<le> 0"

definition i64_ge :: "i64 \<Rightarrow> i64 \<Rightarrow> bool" where
  "i64_ge x y \<longleftrightarrow> sint y \<le> sint x"

text \<open>\<open>time.Second\<close> and \<open>time.Millisecond\<close> in nanoseconds.\<close>

abbreviation time_Second :: i64 where "time_Second \<equiv> 1000000000"
abbreviation time_Millisecond :: i64 where "time_Millisecond \<equiv> 1000000"

end
