(* ===== verification/Moa_Strings.thy ===== *)
theory Moa_Strings
  imports Moa_Prelude
begin

text \<open>
  The parts of Go's \<^verbatim>\<open>strings\<close>, \<^verbatim>\<open>fmt\<close> and \<^verbatim>\<open>sort\<close> packages that the program calls, on
  strings as byte lists: prefix tests, splitting, case mapping of ASCII letters, substring search,
  \<^verbatim>\<open>fmt.Sprintf\<close> for the verbs \<^verbatim>\<open>%s\<close>, \<^verbatim>\<open>%d\<close> and \<^verbatim>\<open>%v\<close>, sorting and the binary search of
  \<^verbatim>\<open>sort.SearchStrings\<close>. \<^verbatim>\<open>sort.Strings\<close> is \<open>sort\<close> for the byte-wise lexicographic order.
\<close>

section \<open>Package strings\<close>

fun HasPrefix :: "string \<Rightarrow> string \<Rightarrow> bool" where
  "HasPrefix s [] = True"
| "HasPrefix [] (p # ps) = False"
| "HasPrefix (x # xs) (p # ps) = (x = p \<and> HasPrefix xs ps)"

definition TrimPrefix :: "string \<Rightarrow> string \<Rightarrow> string" where
  "TrimPrefix s p = (if HasPrefix s p then drop (length p) s else s)"

definition HasSuffix :: "string \<Rightarrow> string \<Rightarrow> bool" where
  "HasSuffix s p = HasPrefix (rev s) (rev p)"

fun Contains :: "string \<Rightarrow> string \<Rightarrow> bool" where
  "Contains [] k = HasPrefix [] k"
| "Contains (x # xs) k = (HasPrefix (x # xs) k \<or> Contains xs k)"

fun after_first :: "string \<Rightarrow> string \<Rightarrow> string option" where
  "after_first lit [] = (if lit = [] then Some [] else None)"
| "after_first lit (x # xs) =
     (if HasPrefix (x # xs) lit then Some (drop (length lit) (x # xs)) else after_first lit xs)"

fun Split :: "char \<Rightarrow> string \<Rightarrow> string list" where
  "Split c [] = [[]]"
| "Split c (x # xs) =
     (if x = c then [] # Split c xs
      else (case Split c xs of [] \<Rightarrow> [[x]] | y # ys \<Rightarrow> (x # y) # ys))"

text \<open>\<^verbatim>\<open>strings.SplitN(s, sep, 2)\<close> for a one-byte separator.\<close>

definition SplitN2 :: "char \<Rightarrow> string \<Rightarrow> string list" where
  "SplitN2 c s =
     (if c \<in> set s then [takeWhile (\<lambda>x. x \<noteq> c) s, tl (dropWhile (\<lambda>x. x \<noteq> c) s)] else [s])"

definition lower_char :: "char \<Rightarrow> char" where
  "lower_char c = (if CHR ''A'' \<le> c \<and> c \<le> CHR ''Z'' then char_of (of_char c + (32 :: nat)) else c)"

definition upper_char :: "char \<Rightarrow> char" where
  "upper_char c = (if CHR ''a'' \<le> c \<and> c \<le> CHR ''z'' then char_of (of_char c - (32 :: nat)) else c)"

definition ToLower :: "string \<Rightarrow> string" where "ToLower s = map lower_char s"
definition ToUpper :: "string \<Rightarrow> string" where "ToUpper s = map upper_char s"

lemma HasPrefix_append [simp]: "HasPrefix (p @ s) p"
  by (induction p) auto

lemma HasPrefix_iff: "HasPrefix s p \<longleftrightarrow> (\<exists>t. s = p @ t)"
  by (induction s p rule: HasPrefix.induct) auto

lemma HasPrefix_append_same [go_simps]: "HasPrefix (p @ s) (p @ q) \<longleftrightarrow> HasPrefix s q"
  by (induction p) auto

lemma TrimPrefix_append [go_simps]: "TrimPrefix (p @ s) p = s"
  by (simp add: TrimPrefix_def)

lemma Contains_iff: "Contains s k \<longleftrightarrow> (\<exists>u v. s = u @ k @ v)"
proof (induction s)
  case Nil
  then show ?case by (auto simp: HasPrefix_iff)
next
  case (Cons x xs)
  show ?case
  proof
    assume "Contains (x # xs) k"
    then consider "HasPrefix (x # xs) k" | "Contains xs k" by auto
    then show "\<exists>u v. x # xs = u @ k @ v"
    proof cases
      case 1
      then show ?thesis by (metis HasPrefix_iff append_Nil)
    next
      case 2
      then show ?thesis using Cons.IH by (metis append_Cons)
    qed
  next
    assume "\<exists>u v. x # xs = u @ k @ v"
    then obtain u v where uv: "x # xs = u @ k @ v" by blast
    show "Contains (x # xs) k"
    proof (cases u)
      case Nil
      with uv have "HasPrefix (x # xs) k" by (auto simp: HasPrefix_iff)
      then show ?thesis by simp
    next
      case (Cons y ys)
      with uv have "xs = ys @ k @ v" by simp
      then show ?thesis using Cons.IH by auto
    qed
  qed
qed

lemma after_first_append: "lit \<noteq> [] \<Longrightarrow> after_first lit (lit @ s) = Some s"
  by (cases lit) (auto simp: HasPrefix_iff)

lemma Split_not_Nil [simp]: "Split c s \<noteq> []"
  by (induction s) (auto split: list.splits)

lemma Split_no_sep: "c \<notin> set s \<Longrightarrow> Split c s = [s]"
  by (induction s) auto

lemma Split_append: "c \<notin> set a \<Longrightarrow> Split c (a @ c # b) = a # Split c b"
  by (induction a) auto

lemma Split_parts_no_sep: "p \<in> set (Split c s) \<Longrightarrow> c \<notin> set p"
  by (induction s arbitrary: p) (auto split: list.splits if_splits)

text \<open>Splitting loses nothing: joining the parts with the separator gives the string back.\<close>

fun join :: "char \<Rightarrow> string list \<Rightarrow> string" where
  "join c [] = []"
| "join c [s] = s"
| "join c (s # t # ts) = s @ c # join c (t # ts)"

lemma join_Cons_char: "join c ((x # y) # ys) = x # join c (y # ys)"
  by (cases ys) auto

lemma join_Nil_Cons: "zs \<noteq> [] \<Longrightarrow> join c ([] # zs) = c # join c zs"
  by (cases zs) auto

lemma join_Split: "join c (Split c s) = s"
proof (induction s)
  case Nil
  then show ?case by simp
next
  case (Cons x xs)
  show ?case
  proof (cases "x = c")
    case True
    then show ?thesis using Cons by (simp add: join_Nil_Cons)
  next
    case False
    obtain y ys where "Split c xs = y # ys" by (meson Split_not_Nil neq_Nil_conv)
    with False Cons show ?thesis by (simp add: join_Cons_char)
  qed
qed

lemma Split_join:
  "ps \<noteq> [] \<Longrightarrow> \<forall>p \<in> set ps. c \<notin> set p \<Longrightarrow> Split c (join c ps) = ps"
  by (induction c ps rule: join.induct) (auto simp: Split_no_sep Split_append)

lemma SplitN2_append: "c \<notin> set a \<Longrightarrow> SplitN2 c (a @ c # b) = [a, b]"
proof -
  assume a: "c \<notin> set a"
  then have "\<And>x. x \<in> set a \<Longrightarrow> x \<noteq> c" by blast
  then show ?thesis by (simp add: SplitN2_def takeWhile_append2 dropWhile_append2)
qed

lemma SplitN2_no_sep: "c \<notin> set s \<Longrightarrow> SplitN2 c s = [s]"
  by (simp add: SplitN2_def)

lemma of_char_less_256: "(of_char c :: nat) < 256"
  by (metis nat_of_char_less_256)

lemma lower_char_idem [simp]: "lower_char (lower_char c) = lower_char c"
proof (cases "CHR ''A'' \<le> c \<and> c \<le> CHR ''Z''")
  case True
  then have b: "65 \<le> (of_char c :: nat)" "(of_char c :: nat) \<le> 90"
    by (auto simp: less_eq_char_def)
  have "(of_char (char_of (of_char c + 32 :: nat)) :: nat) = of_char c + 32"
    using b by (simp add: of_char_of take_bit_eq_mod)
  with b have "\<not> (char_of (of_char c + 32 :: nat) \<le> CHR ''Z'')"
    by (simp add: less_eq_char_def)
  with True show ?thesis by (simp add: lower_char_def)
next
  case False
  then have "lower_char c = c" by (auto simp: lower_char_def)
  then show ?thesis by simp
qed

lemma ToLower_idem [simp]: "ToLower (ToLower s) = ToLower s"
  by (simp add: ToLower_def)

lemma ToLower_append [go_simps]: "ToLower (a @ b) = ToLower a @ ToLower b"
  by (simp add: ToLower_def)

section \<open>Package fmt\<close>

definition digit :: "nat \<Rightarrow> char" where
  "digit d = char_of (48 + d)"

fun dec_nat :: "nat \<Rightarrow> string" where
  "dec_nat n = (if n < 10 then [digit n] else dec_nat (n div 10) @ [digit (n mod 10)])"

declare dec_nat.simps [simp del]

definition dec_int :: "int \<Rightarrow> string" where
  "dec_int i = (if i < 0 then CHR ''-'' # dec_nat (nat (- i)) else dec_nat (nat i))"

datatype fmt_arg = FStr string | FInt int

primrec show_arg :: "fmt_arg \<Rightarrow> string" where
  "show_arg (FStr s) = s"
| "show_arg (FInt i) = dec_int i"

fun Sprintf :: "string \<Rightarrow> fmt_arg list \<Rightarrow> string" where
  "Sprintf [] as = []"
| "Sprintf [c] as = [c]"
| "Sprintf (c # v # fs) as =
     (if c = CHR ''%'' then
        (case as of [] \<Rightarrow> ''%!'' @ [v] @ ''(MISSING)'' @ Sprintf fs []
         | a # as' \<Rightarrow> show_arg a @ Sprintf fs as')
      else c # Sprintf (v # fs) as)"

lemma Sprintf_text: "CHR ''%'' \<notin> set t \<Longrightarrow> Sprintf t as = t"
  by (induction t as rule: Sprintf.induct) auto

lemma Sprintf_verb:
  "CHR ''%'' \<notin> set t \<Longrightarrow>
   Sprintf (t @ CHR ''%'' # v # fs) (a # as) = t @ show_arg a @ Sprintf fs as"
proof (induction t)
  case Nil
  then show ?case by simp
next
  case (Cons x xs)
  then show ?case by (cases xs) auto
qed

section \<open>Package sort\<close>

text \<open>
  \<^verbatim>\<open>sort.SearchStrings(a, x)\<close> is the binary search \<^verbatim>\<open>sort.Search\<close> for the least index \<open>i\<close>
  with \<open>a[i] >= x\<close>.
\<close>

function search_loop :: "string list \<Rightarrow> string \<Rightarrow> nat \<Rightarrow> nat \<Rightarrow> nat" where
  "search_loop a x i j =
     (if i < j then
        (let h = (i + j) div 2 in
         if a ! h < x then search_loop a x (Suc h) j else search_loop a x i h)
      else i)"
  by pat_completeness auto
termination
  by (relation "measure (\<lambda>(a, x, i, j). j - i)") auto

declare search_loop.simps [simp del]

definition SearchStrings :: "string list \<Rightarrow> string \<Rightarrow> nat" where
  "SearchStrings a x = search_loop a x 0 (length a)"

lemma search_loop_spec:
  assumes "sorted a" "i \<le> j" "j \<le> length a"
    and "\<forall>k < i. a ! k < x" and "\<forall>k. j \<le> k \<longrightarrow> k < length a \<longrightarrow> x \<le> a ! k"
  shows "search_loop a x i j \<le> length a
    \<and> (\<forall>k < search_loop a x i j. a ! k < x)
    \<and> (\<forall>k. search_loop a x i j \<le> k \<longrightarrow> k < length a \<longrightarrow> x \<le> a ! k)"
  using assms
proof (induction a x i j rule: search_loop.induct)
  case (1 a x i j)
  show ?case
  proof (cases "i < j")
    case False
    then have "search_loop a x i j = i" by (subst search_loop.simps) simp
    moreover have "i = j" using False "1.prems"(2) by simp
    ultimately show ?thesis using "1.prems" by simp
  next
    case True
    define h where "h = (i + j) div 2"
    have h: "i \<le> h" "h < j" "h < length a" using True "1.prems"(3) by (auto simp: h_def)
    show ?thesis
    proof (cases "a ! h < x")
      case less: True
      have lo: "\<forall>k < Suc h. a ! k < x"
        using less h "1.prems"(1) by (metis less_Suc_eq_le order_le_less_trans sorted_iff_nth_mono)
      have eq: "search_loop a x i j = search_loop a x (Suc h) j"
        using less True by (subst search_loop.simps) (simp add: Let_def h_def)
      show ?thesis
        unfolding eq by (rule "1.IH"(1) [OF True h_def less "1.prems"(1) Suc_leI [OF h(2)] "1.prems"(3) lo "1.prems"(5)])
    next
      case ge: False
      then have hi: "\<forall>k. h \<le> k \<longrightarrow> k < length a \<longrightarrow> x \<le> a ! k"
        using h "1.prems"(1) by (meson linorder_not_less order_trans sorted_iff_nth_mono)
      have eq: "search_loop a x i j = search_loop a x i h"
        using ge True by (subst search_loop.simps) (simp add: Let_def h_def)
      show ?thesis
        unfolding eq
        by (rule "1.IH"(2) [OF True h_def ge "1.prems"(1) h(1) less_imp_le [OF h(3)] "1.prems"(4) hi])
    qed
  qed
qed

text \<open>The lookup idiom of the code: an index inside the slice that holds the key.\<close>

lemma SearchStrings_hit:
  assumes "sorted a"
  shows "(SearchStrings a x \<noteq> length a \<and> a ! SearchStrings a x = x) \<longleftrightarrow> x \<in> set a"
proof -
  have spec: "SearchStrings a x \<le> length a"
    "\<forall>k < SearchStrings a x. a ! k < x"
    "\<forall>k. SearchStrings a x \<le> k \<longrightarrow> k < length a \<longrightarrow> x \<le> a ! k"
    using search_loop_spec [OF assms, of 0 "length a" x] by (auto simp: SearchStrings_def)
  show ?thesis
  proof
    assume "SearchStrings a x \<noteq> length a \<and> a ! SearchStrings a x = x"
    then show "x \<in> set a" using spec(1) by (metis le_neq_implies_less nth_mem)
  next
    assume "x \<in> set a"
    then obtain k where k: "k < length a" "a ! k = x" by (auto simp: in_set_conv_nth)
    have kge: "SearchStrings a x \<le> k" using k spec(2) by (metis not_le order_less_irrefl)
    then have lt: "SearchStrings a x < length a" using k by simp
    then have "x \<le> a ! SearchStrings a x" using spec(3) by blast
    moreover have "a ! SearchStrings a x \<le> x"
      using k kge assms by (metis sorted_iff_nth_mono)
    ultimately show "SearchStrings a x \<noteq> length a \<and> a ! SearchStrings a x = x"
      using lt by auto
  qed
qed

end
