(* ===== verification/Moa_Json_Laws.thy ===== *)
theory Moa_Json_Laws
  imports Moa_Json
begin

text \<open>
  What the JSON model satisfies: string literals and integer literals are read back as they were
  written (\<open>p_string_esc\<close>, \<open>parse_dec_int\<close>), a printed value is parsed to itself whatever stands
  after it (\<open>wf_parses\<close>, \<open>json_parse_print\<close>), every parser consumes input, and the fuel
  \<open>2 * length s + 1\<close> of \<open>json_parse\<close> is enough: more fuel gives the same result
  (\<open>json_parse_fuel\<close>).
\<close>

section \<open>Strings\<close>

lemma of_char_char_of [simp]: "n < 256 \<Longrightarrow> of_char (char_of n :: char) = (n :: nat)"
  by (simp add: of_char_of take_bit_eq_mod)

lemma char_of_of_char [simp]: "char_of (of_char c :: nat) = (c :: char)"
  by simp

lemma hexval_hex [simp]: "d < 16 \<Longrightarrow> hexval (hex d) = Some d"
  by (cases "d < 10") (auto simp: hexval_def hex_def between_def)

lemma hex4_u_escape:
  "r < 65536 \<Longrightarrow>
   hex4 (hex (r div 4096) # hex (r div 256 mod 16) # hex (r div 16 mod 16) # hex (r mod 16) # s)
   = Some (r, s)"
proof -
  assume "r < 65536"
  then have "r div 4096 < 16" by simp
  moreover have "r div 4096 * 4096 + r div 256 mod 16 * 256 + r div 16 mod 16 * 16 + r mod 16 = r"
  proof -
    define a where "a = r div 16"
    define b where "b = a div 16"
    have q: "r div 256 = b" "r div 4096 = b div 16" by (simp_all add: a_def b_def div_mult2_eq [symmetric])
    have "a * 16 + r mod 16 = r" "b * 16 + a mod 16 = a" "b div 16 * 16 + b mod 16 = b"
      by (simp_all add: a_def b_def)
    then show ?thesis unfolding q a_def [symmetric] by linarith
  qed
  ultimately show ?thesis by simp
qed

lemma utf8_size_le: "utf8_size s \<le> length s"
  by (cases s) (auto simp: utf8_size.simps split: list.splits)

lemma utf8_size_Suc0: "utf8_size (c # cs) = Suc 0 \<longleftrightarrow> of_char c < (128 :: nat)"
  by (auto simp: utf8_size.simps between_def split: list.splits)

lemma utf8_size_take:
  assumes "n = utf8_size s" "n \<noteq> 0"
  shows "utf8_size (take n s @ t) = n"
proof (cases s)
  case Nil
  with assms show ?thesis by (simp add: utf8_size.simps)
next
  case (Cons c cs)
  show ?thesis
    using assms unfolding Cons
    by (cases cs; cases "tl cs"; cases "tl (tl cs)")
       (simp_all add: utf8_size.simps split: if_split_asm)
qed

lemma utf8_enc_2028: "utf8_enc 8232 = [CHR 0xE2, CHR 0x80, CHR 0xA8]"
  and utf8_enc_2029: "utf8_enc 8233 = [CHR 0xE2, CHR 0x80, CHR 0xA9]"
  by (simp_all add: utf8_enc_def char_of_def bit_simps)

lemma utf8_size_high:
  "utf8_size (c # cs) = Suc (Suc n) \<Longrightarrow> 128 \<le> (of_char c :: nat)"
  by (auto simp: utf8_size.simps between_def split: list.splits if_splits)

lemma p_string_u_escape:
  assumes "r < 65536" "\<not> surrogate r"
  shows "p_string (Suc n) (u_escape r @ s) = map_option (apfst (\<lambda>t. utf8_enc r @ t)) (p_string n s)"
  using hex4_u_escape [OF assms(1)] assms(2) by (simp add: u_escape_def u_rune_def)

lemma p_string_esc_ascii:
  assumes "of_char c < (128 :: nat)"
  shows "p_string (Suc n) (esc_ascii c @ s) = map_option (apfst (\<lambda>t. c # t)) (p_string n s)"
proof -
  consider "c = quote \<or> c = backslash" | "c = CHR 0x0A" | "c = CHR 0x0D" | "c = CHR 0x09"
    | "c \<noteq> quote" "c \<noteq> backslash" "c \<noteq> CHR 0x0A" "c \<noteq> CHR 0x0D" "c \<noteq> CHR 0x09" by blast
  then show ?thesis
  proof cases
    case 5
    show ?thesis
    proof (cases "of_char c < (32 :: nat) \<or> c = CHR ''<'' \<or> c = CHR ''>'' \<or> c = CHR ''&''")
      case True
      have "\<not> surrogate (of_char c)" using assms by (simp add: surrogate_def)
      moreover have "utf8_enc (of_char c) = [c]" using assms by (simp add: utf8_enc_def)
      ultimately show ?thesis
        using True 5 assms p_string_u_escape [of "of_char c" n s] by (simp add: esc_ascii_def)
    next
      case False
      have "utf8_size (c # s) = Suc 0" using assms by (simp add: utf8_size_Suc0)
      with False 5 show ?thesis by (simp add: esc_ascii_def)
    qed
  qed (auto simp: esc_ascii_def unescape_def)
qed

lemma esc_ascii_nonempty: "esc_ascii c \<noteq> []"
  by (simp add: esc_ascii_def u_escape_def)

lemma p_string_esc:
  "valid_utf8 s \<Longrightarrow> length (esc s) < n \<Longrightarrow> p_string n (esc s @ quote # rest) = Some (s, rest)"
proof (induction s arbitrary: n rule: esc.induct)
  case 1
  then show ?case by (cases n) auto
next
  case (2 c cs)
  let ?k = "utf8_size (c # cs)"
  obtain m where n: "n = Suc m" using "2.prems"(2) by (cases n) auto
  have valid: "?k \<noteq> 0" "valid_utf8 (drop (?k - 1) cs)" using "2.prems"(1) by auto
  consider (one) "?k = 1" | (ls) "?k \<noteq> 1" "take ?k (c # cs) = [CHR 0xE2, CHR 0x80, CHR 0xA8]"
    | (ps) "?k \<noteq> 1" "take ?k (c # cs) = [CHR 0xE2, CHR 0x80, CHR 0xA9]"
    | (raw) "?k \<noteq> 1" "take ?k (c # cs) \<noteq> [CHR 0xE2, CHR 0x80, CHR 0xA8]"
       "take ?k (c # cs) \<noteq> [CHR 0xE2, CHR 0x80, CHR 0xA9]" by blast
  then show ?case
  proof cases
    case one
    have e: "esc (c # cs) = esc_ascii c @ esc cs" using one by simp
    have "length (esc cs) < m"
      using "2.prems"(2) esc_ascii_nonempty [of c] unfolding e n by (cases "esc_ascii c") auto
    then have "p_string m (esc cs @ quote # rest) = Some (cs, rest)"
      using "2.IH"(2) [OF refl valid(1) one] valid one by simp
    moreover have "of_char c < (128 :: nat)" using one by (simp add: utf8_size_Suc0)
    ultimately show ?thesis unfolding e n append_assoc by (simp add: p_string_esc_ascii)
  next
    case ls
    have e: "esc (c # cs) = u_escape 8232 @ esc (drop (?k - 1) cs)" using ls valid by simp
    have "length (esc (drop (?k - 1) cs)) < m"
      using "2.prems"(2) unfolding e n by (simp add: u_escape_def)
    then have "p_string m (esc (drop (?k - 1) cs) @ quote # rest) = Some (drop (?k - 1) cs, rest)"
      using "2.IH"(3) [OF refl valid(1) ls] valid by simp
    moreover have "utf8_enc 8232 @ drop (?k - 1) cs = c # cs"
      using ls(2) append_take_drop_id [of ?k "c # cs"] valid by (simp add: utf8_enc_2028 utf8_enc_2029 drop_Cons')
    ultimately show ?thesis unfolding e n append_assoc
      by (simp add: p_string_u_escape surrogate_def)
  next
    case ps
    have e: "esc (c # cs) = u_escape 8233 @ esc (drop (?k - 1) cs)" using ps valid by simp
    have "length (esc (drop (?k - 1) cs)) < m"
      using "2.prems"(2) unfolding e n by (simp add: u_escape_def)
    then have "p_string m (esc (drop (?k - 1) cs) @ quote # rest) = Some (drop (?k - 1) cs, rest)"
      using "2.IH"(4) [OF refl valid(1) ps(1) _ ps(2)] valid ps by simp
    moreover have "utf8_enc 8233 @ drop (?k - 1) cs = c # cs"
      using ps(2) append_take_drop_id [of ?k "c # cs"] valid by (simp add: utf8_enc_2028 utf8_enc_2029 drop_Cons')
    ultimately show ?thesis unfolding e n append_assoc
      by (simp add: p_string_u_escape surrogate_def)
  next
    case raw
    obtain j where j: "?k = Suc (Suc j)" using raw(1) valid(1) by (metis One_nat_def not0_implies_Suc)
    have e: "esc (c # cs) = take ?k (c # cs) @ esc (drop (?k - 1) cs)" using raw valid by (simp add: Let_def)
    have "length (esc (drop (?k - 1) cs)) < m"
      using "2.prems"(2) unfolding e n using j by simp
    then have ih: "p_string m (esc (drop (?k - 1) cs) @ quote # rest) = Some (drop (?k - 1) cs, rest)"
      using "2.IH"(5) [OF refl valid(1) raw] valid by simp
    have hi: "128 \<le> (of_char c :: nat)" using j by (rule utf8_size_high)
    have "Suc j \<le> length cs" using utf8_size_le [of "c # cs"] j by simp
    then have tl: "length (take (Suc j) cs) = Suc j" by simp
    define t where "t = esc (drop (?k - 1) cs) @ quote # rest"
    have sz: "utf8_size (c # take (Suc j) cs @ t) = Suc (Suc j)"
      using utf8_size_take [of ?k "c # cs" t] j by simp
    have ne: "c \<noteq> quote" "c \<noteq> backslash" "\<not> of_char c < (32 :: nat)" using hi by auto
    have "p_string (Suc m) (c # take (Suc j) cs @ t)
        = map_option (apfst (\<lambda>x. c # take (Suc j) cs @ x)) (p_string m t)"
      using ne sz tl by simp
    then show ?thesis
      unfolding e n append_assoc using ih j by (simp add: t_def)
  qed
qed

section \<open>Round trip\<close>

text \<open>What may follow a value inside a text: the end, a comma or a closing bracket.\<close>

definition stop :: "string \<Rightarrow> bool" where
  "stop r \<longleftrightarrow> (case r of [] \<Rightarrow> True | c # _ \<Rightarrow> c = CHR '','' \<or> c = CHR '']'' \<or> c = CHR ''}'')"

lemma stop_simps [simp]: "stop []" "stop (CHR '','' # r)" "stop (CHR '']'' # r)" "stop (CHR ''}'' # r)"
  by (simp_all add: stop_def)

lemma is_digit_not: "is_digit c \<Longrightarrow>
    c \<noteq> CHR ''-'' \<and> c \<noteq> quote \<and> c \<noteq> CHR ''['' \<and> c \<noteq> CHR ''{'' \<and> c \<noteq> CHR ''n'' \<and> c \<noteq> CHR ''t''
    \<and> c \<noteq> CHR ''f'' \<and> c \<noteq> CHR '']'' \<and> c \<noteq> CHR ''}'' \<and> \<not> is_ws c"
  by (auto simp: is_digit_def between_def is_ws_def)

lemma stop_not: "stop (c # r) \<Longrightarrow> \<not> is_digit c \<and> c \<noteq> CHR ''.'' \<and> c \<noteq> CHR ''e'' \<and> c \<noteq> CHR ''E''"
  by (auto simp: stop_def is_digit_def between_def)

lemma digits_take:
  assumes "list_all is_digit ds" "stop rest"
  shows "takeWhile is_digit (ds @ rest) = ds" "dropWhile is_digit (ds @ rest) = rest"
proof -
  have all: "\<And>x. x \<in> set ds \<Longrightarrow> is_digit x" using assms(1) by (simp add: list_all_iff)
  have r: "takeWhile is_digit rest = []" "dropWhile is_digit rest = rest"
    using assms(2) stop_not by (cases rest; simp)+
  show "takeWhile is_digit (ds @ rest) = ds" "dropWhile is_digit (ds @ rest) = rest"
    using all r by (simp_all add: takeWhile_append2 dropWhile_append2)
qed

lemma p_unsigned_lit:
  assumes "nat_lit n" "stop rest"
  shows "p_unsigned (n @ rest) = Some (n, rest)"
proof -
  have "p_int (n @ rest) = Some (n, rest)"
  proof (cases "n = ''0''")
    case True
    then show ?thesis by (simp add: p_int_def)
  next
    case False
    then obtain c r where n: "n = c # r" "c \<noteq> CHR ''0''" "list_all is_digit n"
      using assms(1) by (auto simp: nat_lit_def neq_Nil_conv)
    then show ?thesis using digits_take [OF n(3) assms(2)]
      by (simp add: p_int_def p_digits1_def)
  qed
  moreover have "p_frac rest = Some ([], rest)" "p_exp rest = Some ([], rest)"
    using assms(2) stop_not by (cases rest; auto simp: p_frac_def p_exp_def)+
  ultimately show ?thesis by (simp add: p_unsigned_def)
qed

lemma nat_lit_head: "nat_lit n \<Longrightarrow> \<exists>c r. n = c # r \<and> is_digit c"
  by (cases n) (auto simp: nat_lit_def is_digit_def between_def)

lemma int_lit_head: "int_lit n \<Longrightarrow> \<exists>c r. n = c # r \<and> (is_digit c \<or> c = CHR ''-'')"
  using nat_lit_head by (fastforce simp: int_lit_def split: list.splits if_splits)

lemma p_number_lit:
  assumes "int_lit n" "stop rest"
  shows "p_number (n @ rest) = Some (n, rest)"
proof -
  obtain c r where n: "n = c # r" using assms(1) by (auto simp: int_lit_def split: list.splits)
  show ?thesis
    using assms p_unsigned_lit [of r rest] p_unsigned_lit [of n rest] n
    by (auto simp: p_number_def int_lit_def split: if_splits)
qed

lemma print_head:
  assumes "wf_json j"
  shows "\<exists>c t. json_print j = c # t \<and> \<not> is_ws c \<and> c \<noteq> CHR '']'' \<and> c \<noteq> CHR ''}''"
proof (cases j)
  case (JNum n)
  then obtain c r where "n = c # r" "is_digit c \<or> c = CHR ''-''"
    using assms int_lit_head by fastforce
  moreover have "\<not> is_ws (CHR ''-'')" by (simp add: is_ws_def)
  ultimately show ?thesis using JNum is_digit_not by fastforce
qed (auto simp: json_string_def is_ws_def)

lemma skip_ws_print: "wf_json j \<Longrightarrow> skip_ws (json_print j @ r) = json_print j @ r"
  using print_head by fastforce

lemma skip_ws_stop: "stop r \<Longrightarrow> skip_ws r = r"
  by (auto simp: stop_def is_ws_def split: list.splits)

text \<open>A value is parsed back from its text, whatever follows it.\<close>

definition parses :: "json \<Rightarrow> bool" where
  "parses v \<longleftrightarrow> (\<forall>n rest. stop rest \<longrightarrow> 2 * length (json_print v) \<le> n \<longrightarrow>
     p_value n (json_print v @ rest) = Some (v, rest))"

lemma p_elems_print:
  assumes "\<forall>v \<in> set vs. wf_json v \<and> parses v" "vs \<noteq> []"
    and "2 * length (commas (map json_print vs)) + 1 \<le> n"
  shows "p_elems n (commas (map json_print vs) @ CHR '']'' # rest) = Some (vs, rest)"
  using assms
proof (induction vs arbitrary: n)
  case Nil
  then show ?case by simp
next
  case (Cons v vs)
  then obtain m where n: "n = Suc m" by (cases n) auto
  show ?case
  proof (cases vs)
    case Nil
    then have "p_value m (json_print v @ CHR '']'' # rest) = Some (v, CHR '']'' # rest)"
      using Cons.prems n by (simp add: parses_def)
    then show ?thesis using Nil n by (simp add: is_ws_def)
  next
    case (Cons w ws)
    let ?tl = "commas (map json_print vs) @ CHR '']'' # rest"
    have len: "2 * length (json_print v) + 2 * length (commas (map json_print vs)) + 2 \<le> m"
      using Cons.prems(3) n Cons by simp
    then have v: "p_value m (json_print v @ CHR '','' # ?tl) = Some (v, CHR '','' # ?tl)"
      using Cons.prems(1) by (simp add: parses_def)
    have "skip_ws ?tl = ?tl"
      using Cons.prems(1) Cons print_head [of w] by (cases ws) (auto simp: is_ws_def)
    moreover have "p_elems m ?tl = Some (vs, rest)"
      using Cons.IH [of m] Cons.prems(1) len Cons by simp
    moreover have "commas (map json_print (v # vs)) @ CHR '']'' # rest = json_print v @ CHR '','' # ?tl"
      using Cons by simp
    ultimately show ?thesis using v n by (simp add: is_ws_def)
  qed
qed

abbreviation member_print :: "string \<times> json \<Rightarrow> string" where
  "member_print \<equiv> \<lambda>(k, v). json_string k @ CHR '':'' # json_print v"

lemma p_members_print:
  assumes "\<forall>(k, v) \<in> set kvs. valid_utf8 k \<and> wf_json v \<and> parses v" "kvs \<noteq> []"
    and "2 * length (commas (map member_print kvs)) + 1 \<le> n"
  shows "p_members n (commas (map member_print kvs) @ CHR ''}'' # rest) = Some (kvs, rest)"
  using assms
proof (induction kvs arbitrary: n)
  case Nil
  then show ?case by simp
next
  case (Cons kv kvs)
  obtain k v where kv: "kv = (k, v)" by (cases kv)
  have k: "valid_utf8 k" and v: "wf_json v" "parses v" using Cons.prems(1) kv by auto
  obtain m where n: "n = Suc m" using Cons.prems(3) by (cases n) auto
  have key: "length (esc k) < q \<Longrightarrow> p_string q (esc k @ quote # r) = Some (k, r)" for q r
    using p_string_esc [OF k] by simp
  have ws: "skip_ws (json_print v @ r) = json_print v @ r" for r
    using v by (simp add: skip_ws_print)
  show ?case
  proof (cases kvs)
    case Nil
    then have "p_value m (json_print v @ CHR ''}'' # rest) = Some (v, CHR ''}'' # rest)"
      using Cons.prems n v kv by (simp add: parses_def)
    then show ?thesis using Nil n kv key ws by (simp add: json_string_def is_ws_def)
  next
    case (Cons w ws')
    let ?tl = "commas (map member_print kvs) @ CHR ''}'' # rest"
    have len: "2 * length (json_print v) + 2 * length (commas (map member_print kvs)) + 2 \<le> m"
      using Cons.prems(3) n Cons kv by simp
    then have val: "p_value m (json_print v @ CHR '','' # ?tl) = Some (v, CHR '','' # ?tl)"
      using v by (simp add: parses_def)
    have "skip_ws ?tl = ?tl"
      using Cons by (cases ws') (auto simp: is_ws_def json_string_def split: prod.splits)
    moreover have "p_members m ?tl = Some (kvs, rest)"
      using Cons.IH [of m] Cons.prems(1) len Cons by simp
    moreover have "commas (map member_print (kv # kvs)) @ CHR ''}'' # rest
        = quote # esc k @ quote # CHR '':'' # json_print v @ CHR '','' # ?tl"
      using Cons kv by (simp add: json_string_def)
    ultimately show ?thesis using val n kv key ws by (simp add: is_ws_def)
  qed
qed

lemma wf_parses: "wf_json j \<Longrightarrow> parses j"
proof (induction j)
  case (JNum x)
  obtain c r where x: "x = c # r" "is_digit c \<or> c = CHR ''-''" using JNum int_lit_head by fastforce
  then have "c \<noteq> quote" "c \<noteq> CHR ''[''" "c \<noteq> CHR ''{''" "c \<noteq> CHR ''n''" "c \<noteq> CHR ''t''" "c \<noteq> CHR ''f''"
    using is_digit_not by auto
  then have eq: "p_value (Suc n) (x @ rest) = map_option (apfst JNum) (p_number (x @ rest))" for n rest
    using x by simp
  show ?case unfolding parses_def
  proof (intro allI impI)
    fix n rest
    assume "stop rest" "2 * length (json_print (JNum x)) \<le> n"
    then show "p_value n (json_print (JNum x) @ rest) = Some (JNum x, rest)"
      using eq [of "n - 1" rest] p_number_lit [of x rest] JNum x by (cases n) auto
  qed
next
  case (JStr x)
  have "p_value (Suc n) (json_string x @ rest) = Some (JStr x, rest)" for n rest
    using p_string_esc [of x _ rest] JStr by (simp add: json_string_def)
  then show ?case by (auto simp: parses_def json_string_def dest!: Suc_le_D)
next
  case (JArr vs)
  then have all: "\<forall>v \<in> set vs. wf_json v \<and> parses v" by (auto simp: list_all_iff)
  show ?case
  proof (cases vs)
    case Nil
    have "p_value n (''[]'' @ rest) = Some (JArr [], rest)" if "4 \<le> n" for n rest
      using that by (cases n) (auto simp: is_ws_def)
    then show ?thesis using Nil by (simp add: parses_def)
  next
    case (Cons w ws)
    obtain c t where ct: "commas (map json_print vs) = c # t" "\<not> is_ws c" "c \<noteq> CHR '']''"
      using print_head [of w] all Cons by (cases ws) auto
    show ?thesis unfolding parses_def
    proof (intro allI impI)
      fix n rest
      assume "2 * length (json_print (JArr vs)) \<le> n"
      then obtain m where m: "n = Suc m" "2 * length (commas (map json_print vs)) + 1 \<le> m"
        by (cases n) auto
      show "p_value n (json_print (JArr vs) @ rest) = Some (JArr vs, rest)"
        using p_elems_print [OF all _ m(2), of rest] Cons ct m(1) by simp
    qed
  qed
next
  case (JObj kvs)
  then have all: "\<forall>(k, v) \<in> set kvs. valid_utf8 k \<and> wf_json v \<and> parses v"
    by (fastforce simp: list_all_iff)
  show ?case
  proof (cases kvs)
    case Nil
    have "p_value n (''{}'' @ rest) = Some (JObj [], rest)" if "4 \<le> n" for n rest
      using that by (cases n) (auto simp: is_ws_def)
    then show ?thesis using Nil by (simp add: parses_def)
  next
    case (Cons w ws)
    obtain t where ct: "commas (map member_print kvs) = quote # t"
      using Cons by (cases w; cases ws) (auto simp: json_string_def)
    show ?thesis unfolding parses_def
    proof (intro allI impI)
      fix n rest
      assume "2 * length (json_print (JObj kvs)) \<le> n"
      then obtain m where m: "n = Suc m" "2 * length (commas (map member_print kvs)) + 1 \<le> m"
        by (cases n) auto
      show "p_value n (json_print (JObj kvs) @ rest) = Some (JObj kvs, rest)"
        using p_members_print [OF all _ m(2), of rest] Cons ct m(1) by (simp add: is_ws_def)
    qed
  qed
next
  case (JBool b)
  have "p_value n ((if b then ''true'' else ''false'') @ rest) = Some (JBool b, rest)" if "4 \<le> n" for n rest
    using that by (cases n) auto
  then show ?case by (cases b) (simp_all add: parses_def)
next
  case JNull
  have "p_value n (''null'' @ rest) = Some (JNull, rest)" if "8 \<le> n" for n rest
    using that by (cases n) auto
  then show ?case by (simp add: parses_def)
qed

lemma json_parse_print: "wf_json j \<Longrightarrow> json_parse (json_print j) = Some j"
proof -
  assume wf: "wf_json j"
  have "p_value (2 * length (json_print j) + 1) (json_print j @ []) = Some (j, [])"
    using wf_parses [OF wf] unfolding parses_def by (metis le_add1 stop_simps(1))
  moreover have "skip_ws (json_print j) = json_print j"
    using skip_ws_print [OF wf, of "[]"] by simp
  ultimately show ?thesis by (simp add: json_parse_def)
qed

section \<open>Integers\<close>

lemma is_digit_digit: "d < 10 \<Longrightarrow> is_digit (digit d)"
  by (simp add: is_digit_def between_def digit_def)

lemma dec_nat_digits: "list_all is_digit (dec_nat n)"
proof (induction n rule: dec_nat.induct)
  case (1 n)
  then show ?case
    by (cases "n < 10") (auto simp: dec_nat.simps [of n] is_digit_digit)
qed

lemma digits_val_dec_nat: "digits_val (dec_nat n) = n"
proof (induction n rule: dec_nat.induct)
  case (1 n)
  then show ?case
    by (cases "n < 10") (auto simp: dec_nat.simps [of n] digits_val_def digit_def)
qed

lemma dec_nat_nonempty: "dec_nat n \<noteq> []"
  by (simp add: dec_nat.simps [of n])

lemma dec_nat_head: "n \<noteq> 0 \<Longrightarrow> hd (dec_nat n) \<noteq> CHR ''0''"
proof (induction n rule: dec_nat.induct)
  case (1 n)
  show ?case
  proof (cases "n < 10")
    case True
    have "of_char (digit n) \<noteq> (48 :: nat)" using True "1.prems" by (simp add: digit_def)
    then have "digit n \<noteq> CHR ''0''" by auto
    then show ?thesis using True by (simp add: dec_nat.simps [of n])
  next
    case False
    then show ?thesis using "1.IH" by (simp add: dec_nat.simps [of n] hd_append dec_nat_nonempty)
  qed
qed

lemma nat_lit_dec_nat: "nat_lit (dec_nat n)"
  using dec_nat_head [of n] dec_nat_nonempty dec_nat_digits
  by (cases "n = 0") (auto simp: nat_lit_def dec_nat.simps [of 0] digit_def char_of_def bit_simps)

lemma dec_nat_no_minus: "\<not> HasPrefix (dec_nat n) ''-''"
proof -
  obtain c r where "dec_nat n = c # r" "is_digit c" using nat_lit_head [OF nat_lit_dec_nat] by blast
  then show ?thesis using is_digit_not by auto
qed

lemma int_lit_dec_int [simp]: "int_lit (dec_int i)"
proof (cases "i < 0")
  case True
  then show ?thesis by (simp add: int_lit_def dec_int_def nat_lit_dec_nat)
next
  case False
  obtain c r where c: "dec_nat (nat i) = c # r" "is_digit c"
    using nat_lit_head [OF nat_lit_dec_nat] by blast
  then have "c \<noteq> CHR ''-''" using is_digit_not by blast
  then show ?thesis using False c nat_lit_dec_nat [of "nat i"] by (simp add: int_lit_def dec_int_def)
qed

lemma parse_dec_int: "in_int64 i \<Longrightarrow> parse_int64 (dec_int i) = Some i"
  using dec_nat_no_minus [of "nat i"]
  by (auto simp: parse_int64_def dec_int_def Let_def dec_nat_digits digits_val_dec_nat dec_nat_nonempty)

section \<open>Enough fuel\<close>

lemma hex4_length: "hex4 s = Some (x, r) \<Longrightarrow> length r < length s"
  by (induction s rule: hex4.induct) (auto split: option.splits)

lemma u_rune_length: "u_rune x s = (y, r) \<Longrightarrow> length r \<le> length s"
  using hex4_length
  by (fastforce simp: u_rune_def u_next_def split: if_splits option.splits list.splits)

lemma p_string_length: "p_string n s = Some (t, r) \<Longrightarrow> length r < length s"
proof (induction n s arbitrary: t rule: p_string.induct)
  case (3 n c cs)
  show ?case
    using "3.prems" hex4_length u_rune_length "3.IH"
    by (fastforce split: if_splits list.splits option.splits prod.splits nat.splits)
qed auto

lemma p_string_fuel: "length s \<le> n \<Longrightarrow> length s \<le> m \<Longrightarrow> p_string n s = p_string m s"
proof (induction n arbitrary: m s)
  case 0
  then show ?case by (cases m) auto
next
  case (Suc n)
  show ?case
  proof (cases s)
    case Nil
    then show ?thesis by (cases m) auto
  next
    case (Cons c cs)
    with Suc.prems obtain m' where m: "m = Suc m'" by (cases m) auto
    have IH: "p_string n t = p_string m' t" if "length t \<le> length cs" for t
      using Suc.IH [of t m'] that Suc.prems m Cons by simp
    show ?thesis
    proof (cases "c = backslash")
      case True
      show ?thesis
      proof (cases cs)
        case Nil
        then show ?thesis using True m \<open>s = c # cs\<close> by simp
      next
        case (Cons e r)
        have r: "p_string n r = p_string m' r" using IH [of r] Cons by simp
        show ?thesis
        proof (cases "hex4 r")
          case None
          then show ?thesis using True m \<open>s = c # cs\<close> Cons r by (simp split: option.split)
        next
          case (Some xr)
          obtain x r1 where x: "xr = (x, r1)" by (cases xr)
          obtain y r2 where y: "u_rune x r1 = (y, r2)" by (cases "u_rune x r1")
          have "length r2 \<le> length cs"
            using hex4_length [of r x r1] u_rune_length [OF y] Some x Cons by simp
          then have "p_string n r2 = p_string m' r2" by (rule IH)
          then show ?thesis
            using True m \<open>s = c # cs\<close> Cons r Some x y by (simp split: option.split)
        qed
      qed
    next
      case False
      then show ?thesis using IH m Cons by (simp split: nat.split)
    qed
  qed
qed

lemma p_digits1_length: "p_digits1 s = Some (t, r) \<Longrightarrow> length r < length s"
proof -
  assume p: "p_digits1 s = Some (t, r)"
  have "length (takeWhile is_digit s) + length (dropWhile is_digit s) = length s"
    by (metis length_append takeWhile_dropWhile_id)
  then show ?thesis using p by (auto simp: p_digits1_def split: list.splits)
qed

lemma p_number_length: "p_number s = Some (t, r) \<Longrightarrow> length r < length s"
proof -
  have i: "p_int s = Some (t, r) \<Longrightarrow> length r < length s" for s t r
    using p_digits1_length by (fastforce simp: p_int_def split: list.splits if_splits)
  have f: "p_frac s = Some (t, r) \<Longrightarrow> length r \<le> length s" for s t r
    using p_digits1_length by (fastforce simp: p_frac_def split: list.splits if_splits)
  have e: "p_exp s = Some (t, r) \<Longrightarrow> length r \<le> length s" for s t r
    using p_digits1_length by (fastforce simp: p_exp_def split: list.splits if_splits)
  have u: "p_unsigned s = Some (t, r) \<Longrightarrow> length r < length s" for s t r
    using i f e by (fastforce simp: p_unsigned_def split: option.splits)
  show "p_number s = Some (t, r) \<Longrightarrow> length r < length s"
    using u by (fastforce simp: p_number_def split: list.splits if_splits)
qed

lemma skip_ws_length: "length (skip_ws s) \<le> length s"
  by (induction s) auto

lemma skip_ws_Cons_length: "skip_ws s = c # r \<Longrightarrow> length r < length s"
  using skip_ws_length [of s] by simp

lemma p_value_length:
  "p_value n s = Some (v, r) \<Longrightarrow> length r < length s"
  "p_elems n s = Some (vs, r) \<Longrightarrow> length r < length s"
  "p_members n s = Some (ms, r) \<Longrightarrow> length r < length s"
proof (induction n s and n s and n s arbitrary: v r and vs r and ms r rule: p_value_p_elems_p_members.induct)
  case (3 n c cs)
  have e: "length r < length (c # cs)"
    if "skip_ws cs = d # r'" "p_elems n (d # r') = Some (vs, r)" "c \<noteq> quote" "c = CHR ''[''" "d \<noteq> CHR '']''" for d r' vs
    using "3.IH"(1) [OF that(3,4,1,5,2)] skip_ws_length [of cs] that(1) by simp
  have m: "length r < length (c # cs)"
    if "skip_ws cs = d # r'" "p_members n (d # r') = Some (ms, r)" "c \<noteq> quote" "c \<noteq> CHR ''[''" "c = CHR ''{''" "d \<noteq> CHR ''}''" for d r' ms
    using "3.IH"(2) [OF that(3,4,5,1,6,2)] skip_ws_length [of cs] that(1) by simp
  have w: "length r' < length (c # cs)" if "skip_ws cs = d # r'" for d r'
    using skip_ws_Cons_length [OF that] by simp
  show ?case
    using "3.prems" e m w p_string_length [of "length cs" cs] p_number_length [of "c # cs"]
    by (fastforce split: if_splits list.splits simp: drop_Cons')
next
  case (5 n s)
  then obtain x r1 where v: "p_value n s = Some (x, r1)" by (fastforce split: option.splits)
  then obtain d r2 where d: "skip_ws r1 = d # r2" using "5.prems" by (auto split: list.splits)
  have l: "length r2 < length s" using "5.IH"(1) [OF v] skip_ws_Cons_length [OF d] by simp
  show ?case
  proof (cases "d = CHR '']''")
    case True
    then show ?thesis using "5.prems" v d l by simp
  next
    case False
    then obtain us where c: "d = CHR '',''" "p_elems n (skip_ws r2) = Some (us, r)"
      using "5.prems" v d by (auto split: if_splits)
    have "length r < length (skip_ws r2)" using "5.IH"(2) [OF v refl d False c(1) c(2)] .
    then show ?thesis using l skip_ws_length [of r2] by simp
  qed
next
  case (7 n s)
  then obtain q t where s: "s = q # t" "q = quote" by (auto split: list.splits if_splits)
  then obtain k r1 where k: "p_string (length t) t = Some (k, r1)"
    using "7.prems" by (auto split: option.splits)
  then obtain e r2 where e: "skip_ws r1 = e # r2" "e = CHR '':''"
    using "7.prems" s by (auto split: list.splits if_splits)
  then obtain x r3 where x: "p_value n (skip_ws r2) = Some (x, r3)"
    using "7.prems" s k by (auto split: option.splits)
  then obtain d r4 where d: "skip_ws r3 = d # r4"
    using "7.prems" s k e by (auto split: list.splits)
  have l3: "length r3 < length (skip_ws r2)"
    using "7.IH"(1) [OF s(1) _ k refl e(1) _ x] s e by simp
  have l: "length r4 < length s"
    using l3 p_string_length [OF k] skip_ws_Cons_length [OF e(1)] skip_ws_Cons_length [OF d]
      skip_ws_length [of r2] s by simp
  show ?case
  proof (cases "d = CHR ''}''")
    case True
    then show ?thesis using "7.prems" s k e x d l by simp
  next
    case False
    then obtain us where c: "d = CHR '',''" "p_members n (skip_ws r4) = Some (us, r)"
      using "7.prems" s k e x d by (auto split: if_splits)
    have "length r < length (skip_ws r4)"
      using "7.IH"(2) [OF s(1) _ k refl e(1) _ x refl d False c(1) c(2)] s e by simp
    then show ?thesis using l skip_ws_length [of r4] by simp
  qed
qed auto

lemma p_value_fuel_all:
  "(\<forall>s m. 2 * length s + 1 \<le> n \<longrightarrow> 2 * length s + 1 \<le> m \<longrightarrow> p_value n s = p_value m s)
   \<and> (\<forall>s m. 2 * length s + 2 \<le> n \<longrightarrow> 2 * length s + 2 \<le> m \<longrightarrow> p_elems n s = p_elems m s)
   \<and> (\<forall>s m. 2 * length s + 2 \<le> n \<longrightarrow> 2 * length s + 2 \<le> m \<longrightarrow> p_members n s = p_members m s)"
proof (induction n)
  case 0
  then show ?case by simp
next
  case (Suc n)
  have IHv: "p_value n s = p_value m s" if "2 * length s + 1 \<le> n" "2 * length s + 1 \<le> m" for s m
    using Suc that by blast
  have IHe: "p_elems n s = p_elems m s" if "2 * length s + 2 \<le> n" "2 * length s + 2 \<le> m" for s m
    using Suc that by blast
  have IHm: "p_members n s = p_members m s" if "2 * length s + 2 \<le> n" "2 * length s + 2 \<le> m" for s m
    using Suc that by blast
  have v: "p_value (Suc n) s = p_value m s" if len: "2 * length s + 1 \<le> Suc n" "2 * length s + 1 \<le> m" for s m
  proof (cases s)
    case Nil
    then show ?thesis by (cases m) auto
  next
    case (Cons c r)
    obtain k where m: "m = Suc k" using len by (cases m) auto
    have "p_elems n (d # t) = p_elems k (d # t) \<and> p_members n (d # t) = p_members k (d # t)"
      if "skip_ws r = d # t" for d t
      using IHe [of "d # t" k] IHm [of "d # t" k] len m Cons skip_ws_length [of r] that by simp
    then show ?thesis unfolding m Cons by (simp split: list.split)
  qed
  have e: "p_elems (Suc n) s = p_elems m s" if len: "2 * length s + 2 \<le> Suc n" "2 * length s + 2 \<le> m" for s m
  proof -
    obtain k where m: "m = Suc k" using len by (cases m) auto
    have p: "p_value n s = p_value k s" by (rule IHv) (use len m in simp_all)
    show ?thesis
    proof (cases "p_value k s")
      case None
      then show ?thesis unfolding m using p by simp
    next
      case (Some xr)
      obtain x r where x: "p_value k s = Some (x, r)" using Some by (cases xr) auto
      show ?thesis
      proof (cases "skip_ws r")
        case Nil
        then show ?thesis unfolding m using p x by simp
      next
        case (Cons d t)
        have "p_elems n (skip_ws t) = p_elems k (skip_ws t)"
          using IHe [of "skip_ws t" k] p_value_length(1) [OF x] skip_ws_Cons_length [OF Cons]
            skip_ws_length [of t] len m by simp
        then show ?thesis unfolding m using p x Cons by simp
      qed
    qed
  qed
  have "p_members (Suc n) s = p_members m s"
    if len: "2 * length s + 2 \<le> Suc n" "2 * length s + 2 \<le> m" for s m
  proof (cases s)
    case Nil
    then show ?thesis by (cases m) auto
  next
    case (Cons q t)
    obtain k where m: "m = Suc k" using len by (cases m) auto
    show ?thesis
    proof (cases "p_string (length t) t")
      case None
      then show ?thesis unfolding m Cons by simp
    next
      case (Some yr)
      obtain y r1 where y: "p_string (length t) t = Some (y, r1)" using Some by (cases yr) auto
      have p: "p_value n (skip_ws r2) = p_value k (skip_ws r2)" if "skip_ws r1 = d # r2" for d r2
        using IHv [of "skip_ws r2" k] p_string_length [OF y] skip_ws_Cons_length [OF that]
          skip_ws_length [of r2] len m Cons by simp
      have "p_members n (skip_ws r4) = p_members k (skip_ws r4)"
        if "skip_ws r1 = d # r2" "p_value k (skip_ws r2) = Some (x, r3)" "skip_ws r3 = e # r4" for d r2 x r3 e r4
        using IHm [of "skip_ws r4" k] p_string_length [OF y] skip_ws_Cons_length [OF that(1)]
          skip_ws_length [of r2] p_value_length(1) [OF that(2)] skip_ws_Cons_length [OF that(3)]
          skip_ws_length [of r4] len m Cons by simp
      then show ?thesis unfolding m Cons using p y by (simp split: option.split list.split)
    qed
  qed
  with v e show ?case by blast
qed

lemma json_parse_fuel:
  "2 * length s + 1 \<le> n \<Longrightarrow>
   json_parse s = (case p_value n (skip_ws s) of
     Some (v, r) \<Rightarrow> if skip_ws r = [] then Some v else None | None \<Rightarrow> None)"
proof -
  assume n: "2 * length s + 1 \<le> n"
  have "p_value n (skip_ws s) = p_value (2 * length s + 1) (skip_ws s)"
    using p_value_fuel_all [of n] skip_ws_length [of s] n by simp
  then show ?thesis by (simp add: json_parse_def)
qed

section \<open>Struct fields\<close>

lemma field_of_name [simp]: "k \<in> set names \<Longrightarrow> field_of names k = Some k"
  by (simp add: field_of_def)

lemma dec_simps [simp]:
  "dec_string (JStr s) old = (s, True)"
  "dec_bool (JBool b) oldb = (b, True)"
  "in_int64 i \<Longrightarrow> dec_int64 (JNum (dec_int i)) oldi = (i, True)"
  by (simp_all add: dec_string_def dec_bool_def dec_int64_def parse_dec_int)

end
