(* ===== verification/Moa_Codes.thy ===== *)
theory Moa_Codes
  imports Moa_Strings
begin

text \<open>
  The error codes and message formats of \<^verbatim>\<open>code_enum.go\<close>, and the constants of
  \<^verbatim>\<open>registry.go\<close> and \<^verbatim>\<open>moa_codec.go\<close>. The collections \<open>code_defs\<close> and \<open>msg_defs\<close> unfold them.
\<close>

section \<open>Error codes\<close>

definition CODE_SERVER_SUCC :: int where "CODE_SERVER_SUCC = 200"
definition CODE_THROWABLE :: int where "CODE_THROWABLE = 300"
definition CODE_INITIALIZETION :: int where "CODE_INITIALIZETION = 301"
definition CODE_SERIALIZATION :: int where "CODE_SERIALIZATION = 302"
definition CODE_REMOTING :: int where "CODE_REMOTING = 303"
definition CODE_TIMEOUT :: int where "CODE_TIMEOUT = 304"
definition CODE_NO_URI_FOUND :: int where "CODE_NO_URI_FOUND = 401"
definition CODE_INVALID_TARGET_URI :: int where "CODE_INVALID_TARGET_URI = 402"
definition CODE_INITIALIZATION_CLIENT :: int where "CODE_INITIALIZATION_CLIENT = 3010"
definition CODE_SERIALIZATION_CLIENT :: int where "CODE_SERIALIZATION_CLIENT = 3020"
definition CODE_REMOTING_CLIENT :: int where "CODE_REMOTING_CLIENT = 3030"
definition CODE_TIMEOUT_CLIENT :: int where "CODE_TIMEOUT_CLIENT = 3040"
definition CODE_USER_CANCELLED :: int where "CODE_USER_CANCELLED = 305"
definition CODE_SERVICE_NOT_FOUND :: int where "CODE_SERVICE_NOT_FOUND = 501"
definition CODE_METHOD_NOT_FOUND :: int where "CODE_METHOD_NOT_FOUND = 502"
definition CODE_INVOCATION_TARGET :: int where "CODE_INVOCATION_TARGET = 503"
definition CODE_THREAD_POOL_IS_FULL :: int where "CODE_THREAD_POOL_IS_FULL = 504"
definition CODE_ASYNC_SUBMIT :: int where "CODE_ASYNC_SUBMIT = 505"
definition CODE_IP_NOT_ALLOWED :: int where "CODE_IP_NOT_ALLOWED = 506"
definition CODE_INITIALIZATION_SERVER :: int where "CODE_INITIALIZATION_SERVER = 3011"
definition CODE_SERIALIZATION_SERVER :: int where "CODE_SERIALIZATION_SERVER = 3021"
definition CODE_REMOTING_SERVER :: int where "CODE_REMOTING_SERVER = 3031"
definition CODE_TIMEOUT_SERVER :: int where "CODE_TIMEOUT_SERVER = 3041"

lemmas code_defs =
  CODE_SERVER_SUCC_def CODE_THROWABLE_def CODE_INITIALIZETION_def CODE_SERIALIZATION_def
  CODE_REMOTING_def CODE_TIMEOUT_def CODE_NO_URI_FOUND_def CODE_INVALID_TARGET_URI_def
  CODE_INITIALIZATION_CLIENT_def CODE_SERIALIZATION_CLIENT_def CODE_REMOTING_CLIENT_def
  CODE_TIMEOUT_CLIENT_def CODE_USER_CANCELLED_def CODE_SERVICE_NOT_FOUND_def
  CODE_METHOD_NOT_FOUND_def CODE_INVOCATION_TARGET_def CODE_THREAD_POOL_IS_FULL_def
  CODE_ASYNC_SUBMIT_def CODE_IP_NOT_ALLOWED_def CODE_INITIALIZATION_SERVER_def
  CODE_SERIALIZATION_SERVER_def CODE_REMOTING_SERVER_def CODE_TIMEOUT_SERVER_def

section \<open>Message formats\<close>

definition MSG_MESSAGE :: string where "MSG_MESSAGE = ''Error code [%d], error message [%s].''"
definition MSG_INITIALIZATION :: string where "MSG_INITIALIZATION = ''Initialization exception: %s''"
definition MSG_REMOTING :: string where "MSG_REMOTING = ''Remoting exception: %s''"
definition MSG_SERIALIZATION :: string where "MSG_SERIALIZATION = ''Serialization exception: %s''"
definition MSG_TIMEOUT :: string where "MSG_TIMEOUT = ''Timeout exception: %s''"
definition MSG_UNKNOWN :: string where "MSG_UNKNOWN = ''Unknown exception.''"
definition MSG_NO_URI_FOUND :: string where "MSG_NO_URI_FOUND = ''No uri found: %s''"
definition MSG_INVALID_TARGET_URI :: string where "MSG_INVALID_TARGET_URI = ''Invalid target uri: %s''"
definition MSG_PARAMS_NOT_MATCHED :: string where "MSG_PARAMS_NOT_MATCHED = ''params number is not matched! %d/%d''"
definition MSG_SERVICE_NOT_FOUND :: string where "MSG_SERVICE_NOT_FOUND = ''Service not found: %s.''"
definition MSG_METHOD_NOT_FOUND :: string where "MSG_METHOD_NOT_FOUND = ''Method not found: %s.''"
definition MSG_INVOCATION_TARGET :: string where "MSG_INVOCATION_TARGET = ''Invocation target exception: (%s)''"
definition MSG_THREAD_POOL_IS_FULL :: string where "MSG_THREAD_POOL_IS_FULL = ''Threadpool is full: %s''"

lemmas msg_defs =
  MSG_MESSAGE_def MSG_INITIALIZATION_def MSG_REMOTING_def MSG_SERIALIZATION_def MSG_TIMEOUT_def
  MSG_UNKNOWN_def MSG_NO_URI_FOUND_def MSG_INVALID_TARGET_URI_def MSG_PARAMS_NOT_MATCHED_def
  MSG_SERVICE_NOT_FOUND_def MSG_METHOD_NOT_FOUND_def MSG_INVOCATION_TARGET_def
  MSG_THREAD_POOL_IS_FULL_def

section \<open>Commands, paths and keys\<close>

definition REQ :: nat where "REQ = 1"
definition RESP :: nat where "RESP = 2"
definition PING :: nat where "PING = 3"
definition PONG :: nat where "PONG = 4"
definition INFO :: nat where "INFO = 5"

lemmas cmd_defs = REQ_def RESP_def PING_def PONG_def INFO_def

definition COMPRESS_SNAPPY :: nat where "COMPRESS_SNAPPY = 1"

definition SCHEME_ZK :: string where "SCHEME_ZK = ''zk://''"
definition SCHEME_FILE :: string where "SCHEME_FILE = ''file://''"

definition ZK_MOA_ROOT_PATH :: string where "ZK_MOA_ROOT_PATH = ''/moa/service''"
definition ZK_ROOT :: string where "ZK_ROOT = ''/''"
definition ZK_PATH_DELIMITER :: string where "ZK_PATH_DELIMITER = ''/''"
definition PROTOCOL :: string where "PROTOCOL = ''v1''"
definition REGISTRY_ZOOKEEPER :: string where "REGISTRY_ZOOKEEPER = ''zookeeper''"
definition ALL_GROUP :: string where "ALL_GROUP = ''*''"

definition KEY_MOA_PROPERTIES :: string where "KEY_MOA_PROPERTIES = ''moa.props''"
definition KEY_MOA_PROPERTY_HASHID :: string where "KEY_MOA_PROPERTY_HASHID = ''hashid''"
definition KEY_MOA_PROPERTY_ENV_PRE :: string where "KEY_MOA_PROPERTY_ENV_PRE = ''moa.env.pre''"

end
