(* ===== verification/Moa_Packets.thy ===== *)
theory Moa_Packets
  imports Moa_Json_Laws Moa_Codes
begin

text \<open>
  The packets of \<^verbatim>\<open>moa_codec.go\<close> and the \<^verbatim>\<open>ServiceMeta\<close> of \<^verbatim>\<open>proxy.go\<close>, with the JSON object each
  struct is written as and the field-by-field decoder of each. Fields tagged \<^verbatim>\<open>json:"-"\<close> are neither
  written nor read. A \<^verbatim>\<open>json.RawMessage\<close> is the JSON value it holds (white space and the choice of
  escapes are not kept); a nil slice or map is \<open>None\<close>.
\<close>

text \<open>
  A Go value held by an interface or returned by a reflected call, as far as the program looks at
  it: the value itself, its kind (which decides whether \<^verbatim>\<open>IsNil\<close> is legal), whether it is nil, its
  text under \<^verbatim>\<open>%v\<close>, and what \<^verbatim>\<open>json.Marshal\<close> makes of it.
\<close>

record 'v rvalue =
  rv_data :: 'v
  rv_kind :: string
  rv_nilable :: bool
  rv_isnil :: bool
  rv_text :: string
  rv_json :: "string + json"

record ServiceMeta =
  sm_ServiceUri :: string
  sm_GroupId :: string
  sm_HostPort :: string
  sm_ProtoVersion :: string
  sm_IsPre :: bool

record PiPo =
  Timestamp :: int

record MoaReqPacket =
  mq_ServiceUri :: string
  mq_Method :: string
  mq_Args :: "(string + json) list option"  \<comment> \<open>json.Marshal of each argument\<close>
  mq_Properties :: "(string, string) gomap option"
  mq_CreateTime :: i64
  mq_Timeout :: i64

record MoaRawReqPacket =
  rq_ServiceUri :: string
  rq_Method :: string
  rq_Args :: "json list option"
  rq_Properties :: "(string, string) gomap option"
  rq_CreateTime :: i64
  rq_Timeout :: i64
  rq_Source :: string

record 'v MoaRespPacket =
  ErrCode :: int
  Message :: string
  rp_CreateTime :: i64
  Result :: "'v rvalue option"

record MoaRawRespPacket =
  rr_ErrCode :: int
  rr_Message :: string
  rr_CreateTime :: i64
  rr_Result :: "json option"

definition zero_resp :: "'v MoaRespPacket" where
  "zero_resp = \<lparr>ErrCode = 0, Message = [], rp_CreateTime = 0, Result = None\<rparr>"

definition zero_raw_resp :: MoaRawRespPacket where
  "zero_raw_resp = \<lparr>rr_ErrCode = 0, rr_Message = [], rr_CreateTime = 0, rr_Result = None\<rparr>"

definition zero_raw_req :: MoaRawReqPacket where
  "zero_raw_req = \<lparr>rq_ServiceUri = [], rq_Method = [], rq_Args = None, rq_Properties = None,
     rq_CreateTime = 0, rq_Timeout = 0, rq_Source = []\<rparr>"

definition zero_ServiceMeta :: ServiceMeta where
  "zero_ServiceMeta = \<lparr>sm_ServiceUri = [], sm_GroupId = [], sm_HostPort = [], sm_ProtoVersion = [], sm_IsPre = False\<rparr>"

abbreviation json_error :: string where
  "json_error \<equiv> ''json: cannot unmarshal''"

section \<open>ServiceMeta\<close>

definition ServiceMeta_json :: "ServiceMeta \<Rightarrow> json" where
  "ServiceMeta_json m = JObj
     [(''service_uri'', JStr (sm_ServiceUri m)), (''gid'', JStr (sm_GroupId m)),
      (''hostport'', JStr (sm_HostPort m)), (''proto_ver'', JStr (sm_ProtoVersion m)),
      (''isPre'', JBool (sm_IsPre m))]"

definition ServiceMeta_fields :: "string list" where
  "ServiceMeta_fields = [''service_uri'', ''gid'', ''hostport'', ''proto_ver'', ''isPre'']"

definition ServiceMeta_field :: "string \<Rightarrow> json \<Rightarrow> ServiceMeta \<Rightarrow> ServiceMeta \<times> bool" where
  "ServiceMeta_field n j m =
     (if n = ''service_uri'' then apfst (\<lambda>x. m\<lparr>sm_ServiceUri := x\<rparr>) (dec_string j (sm_ServiceUri m))
      else if n = ''gid'' then apfst (\<lambda>x. m\<lparr>sm_GroupId := x\<rparr>) (dec_string j (sm_GroupId m))
      else if n = ''hostport'' then apfst (\<lambda>x. m\<lparr>sm_HostPort := x\<rparr>) (dec_string j (sm_HostPort m))
      else if n = ''proto_ver'' then apfst (\<lambda>x. m\<lparr>sm_ProtoVersion := x\<rparr>) (dec_string j (sm_ProtoVersion m))
      else apfst (\<lambda>x. m\<lparr>sm_IsPre := x\<rparr>) (dec_bool j (sm_IsPre m)))"

definition ServiceMeta_dec :: "json \<Rightarrow> ServiceMeta \<Rightarrow> ServiceMeta \<times> bool" where
  "ServiceMeta_dec = dec_struct ServiceMeta_fields ServiceMeta_field"

definition ServiceMeta_marshal :: "ServiceMeta \<Rightarrow> string" where
  "ServiceMeta_marshal m = json_print (ServiceMeta_json m)"

text \<open>\<^verbatim>\<open>json.Unmarshal(raw, &meta)\<close> into a zero value; \<open>None\<close> is any error.\<close>

definition ServiceMeta_unmarshal :: "string \<Rightarrow> ServiceMeta option" where
  "ServiceMeta_unmarshal s =
     (case json_parse s of None \<Rightarrow> None
      | Some j \<Rightarrow> (case ServiceMeta_dec j zero_ServiceMeta of (m, ok) \<Rightarrow> if ok then Some m else None))"

definition meta_ok :: "ServiceMeta \<Rightarrow> bool" where
  "meta_ok m \<longleftrightarrow> valid_utf8 (sm_ServiceUri m) \<and> valid_utf8 (sm_GroupId m) \<and> valid_utf8 (sm_HostPort m)
     \<and> valid_utf8 (sm_ProtoVersion m)"

section \<open>Requests\<close>

definition args_json :: "json list option \<Rightarrow> json" where
  "args_json a = (case a of None \<Rightarrow> JNull | Some vs \<Rightarrow> JArr vs)"

definition props_json :: "(string, string) gomap option \<Rightarrow> (string \<times> json) list" where
  "props_json p =
     (case p of None \<Rightarrow> [] | Some [] \<Rightarrow> []
      | Some m \<Rightarrow> [(''props'', JObj (map (\<lambda>(k, v). (k, JStr v)) (sort_key fst m)))])"

definition MoaRawReqPacket_json :: "MoaRawReqPacket \<Rightarrow> json" where
  "MoaRawReqPacket_json q = JObj
     ([(''action'', JStr (rq_ServiceUri q)),
       (''params'', JObj [(''m'', JStr (rq_Method q)), (''args'', args_json (rq_Args q))])]
      @ props_json (rq_Properties q))"

text \<open>The first argument that cannot be marshalled makes the whole call fail.\<close>

fun all_args :: "(string + json) list \<Rightarrow> string + json list" where
  "all_args [] = Inr []"
| "all_args (Inl e # r) = Inl e"
| "all_args (Inr j # r) = (case all_args r of Inl e \<Rightarrow> Inl e | Inr js \<Rightarrow> Inr (j # js))"

definition MoaReqPacket_json :: "MoaReqPacket \<Rightarrow> string + json" where
  "MoaReqPacket_json q =
     (case (case mq_Args q of None \<Rightarrow> Inr None | Some l \<Rightarrow> map_sum id Some (all_args l)) of
        Inl e \<Rightarrow> Inl e
      | Inr a \<Rightarrow> Inr (JObj
          ([(''action'', JStr (mq_ServiceUri q)),
            (''params'', JObj [(''m'', JStr (mq_Method q)), (''args'', args_json a)])]
           @ props_json (mq_Properties q))))"

definition dec_args :: "json \<Rightarrow> json list option \<Rightarrow> json list option \<times> bool" where
  "dec_args j old = (case j of JNull \<Rightarrow> (None, True) | JArr vs \<Rightarrow> (Some vs, True) | _ \<Rightarrow> (old, False))"

text \<open>A map value of the wrong type is stored as the empty string, and the call fails.\<close>

fun dec_props_entries :: "(string \<times> json) list \<Rightarrow> (string, string) gomap \<Rightarrow> (string, string) gomap \<times> bool" where
  "dec_props_entries [] m = (m, True)"
| "dec_props_entries ((k, v) # r) m =
     (case dec_string v [] of (s, b1) \<Rightarrow>
        (case dec_props_entries r (AList.update k s m) of (m', b2) \<Rightarrow> (m', b1 \<and> b2)))"

definition dec_props :: "json \<Rightarrow> (string, string) gomap option \<Rightarrow> (string, string) gomap option \<times> bool" where
  "dec_props j old =
     (case j of
        JNull \<Rightarrow> (None, True)
      | JObj kvs \<Rightarrow> apfst Some (dec_props_entries kvs (case old of None \<Rightarrow> [] | Some m \<Rightarrow> m))
      | _ \<Rightarrow> (old, False))"

definition params_field :: "string \<Rightarrow> json \<Rightarrow> MoaRawReqPacket \<Rightarrow> MoaRawReqPacket \<times> bool" where
  "params_field n j q =
     (if n = ''m'' then apfst (\<lambda>x. q\<lparr>rq_Method := x\<rparr>) (dec_string j (rq_Method q))
      else apfst (\<lambda>x. q\<lparr>rq_Args := x\<rparr>) (dec_args j (rq_Args q)))"

definition raw_req_field :: "string \<Rightarrow> json \<Rightarrow> MoaRawReqPacket \<Rightarrow> MoaRawReqPacket \<times> bool" where
  "raw_req_field n j q =
     (if n = ''action'' then apfst (\<lambda>x. q\<lparr>rq_ServiceUri := x\<rparr>) (dec_string j (rq_ServiceUri q))
      else if n = ''params'' then dec_struct [''m'', ''args''] params_field j q
      else apfst (\<lambda>x. q\<lparr>rq_Properties := x\<rparr>) (dec_props j (rq_Properties q)))"

definition Wrap2MoaRawRequest :: "string \<Rightarrow> string + MoaRawReqPacket" where
  "Wrap2MoaRawRequest data =
     (case json_parse data of None \<Rightarrow> Inl json_error
      | Some j \<Rightarrow>
          (case dec_struct [''action'', ''params'', ''props''] raw_req_field j zero_raw_req of
             (q, ok) \<Rightarrow> if ok then Inr q else Inl json_error))"

section \<open>Responses\<close>

definition result_json :: "'v rvalue option \<Rightarrow> string + json" where
  "result_json r = (case r of None \<Rightarrow> Inr JNull | Some v \<Rightarrow> rv_json v)"

definition MoaRespPacket_json :: "'v MoaRespPacket \<Rightarrow> string + json" where
  "MoaRespPacket_json r =
     (case result_json (Result r) of Inl e \<Rightarrow> Inl e
      | Inr j \<Rightarrow> Inr (JObj [(''ec'', JNum (dec_int (ErrCode r))), (''em'', JStr (Message r)), (''result'', j)]))"

definition MoaRawRespPacket_json :: "MoaRawRespPacket \<Rightarrow> json" where
  "MoaRawRespPacket_json r =
     JObj [(''ec'', JNum (dec_int (rr_ErrCode r))), (''em'', JStr (rr_Message r)),
           (''result'', case rr_Result r of None \<Rightarrow> JNull | Some j \<Rightarrow> j)]"

definition raw_resp_field :: "string \<Rightarrow> json \<Rightarrow> MoaRawRespPacket \<Rightarrow> MoaRawRespPacket \<times> bool" where
  "raw_resp_field n j r =
     (if n = ''ec'' then apfst (\<lambda>x. r\<lparr>rr_ErrCode := x\<rparr>) (dec_int64 j (rr_ErrCode r))
      else if n = ''em'' then apfst (\<lambda>x. r\<lparr>rr_Message := x\<rparr>) (dec_string j (rr_Message r))
      else (r\<lparr>rr_Result := Some j\<rparr>, True))"

definition Wrap2MoaRawResponse :: "string \<Rightarrow> string + MoaRawRespPacket" where
  "Wrap2MoaRawResponse data =
     (case json_parse data of None \<Rightarrow> Inl json_error
      | Some j \<Rightarrow>
          (case dec_struct [''ec'', ''em'', ''result''] raw_resp_field j zero_raw_resp of
             (r, ok) \<Rightarrow> if ok then Inr r else Inl json_error))"

section \<open>Round trips\<close>

lemma ServiceMeta_dec_json: "ServiceMeta_dec (ServiceMeta_json m) zero_ServiceMeta = (m, True)"
  by (cases m) (simp add: ServiceMeta_dec_def ServiceMeta_json_def dec_struct_def ServiceMeta_fields_def
      ServiceMeta_field_def zero_ServiceMeta_def)

declare valid_utf8.simps [simp del]

lemma valid_utf8_ascii [simp]: "list_all (\<lambda>c. of_char c < (128 :: nat)) s \<Longrightarrow> valid_utf8 s"
proof (induction s)
  case (Cons c cs)
  then have "utf8_size (c # cs) = Suc 0" by (simp add: utf8_size_Suc0)
  with Cons show ?case by (simp add: valid_utf8.simps)
qed (simp add: valid_utf8.simps)

lemma ServiceMeta_unmarshal_marshal: "meta_ok m \<Longrightarrow> ServiceMeta_unmarshal (ServiceMeta_marshal m) = Some m"
proof -
  assume m: "meta_ok m"
  then have "wf_json (ServiceMeta_json m)" by (simp add: meta_ok_def ServiceMeta_json_def)
  then show ?thesis
    by (simp add: ServiceMeta_unmarshal_def ServiceMeta_marshal_def json_parse_print ServiceMeta_dec_json)
qed

lemma wrap_resp_json:
  assumes "MoaRespPacket_json r = Inr j" "wf_json j" "in_int64 (ErrCode r)"
  shows "\<exists>v. result_json (Result r) = Inr v \<and>
    Wrap2MoaRawResponse (json_print j) =
      Inr \<lparr>rr_ErrCode = ErrCode r, rr_Message = Message r, rr_CreateTime = 0, rr_Result = Some v\<rparr>"
proof -
  obtain v where v: "result_json (Result r) = Inr v"
    and j: "j = JObj [(''ec'', JNum (dec_int (ErrCode r))), (''em'', JStr (Message r)), (''result'', v)]"
    using assms(1) by (auto simp: MoaRespPacket_json_def split: sum.splits)
  have "Wrap2MoaRawResponse (json_print j) =
      Inr \<lparr>rr_ErrCode = ErrCode r, rr_Message = Message r, rr_CreateTime = 0, rr_Result = Some v\<rparr>"
    using assms(3) unfolding Wrap2MoaRawResponse_def json_parse_print [OF assms(2)]
    by (simp add: j dec_struct_def raw_resp_field_def zero_raw_resp_def)
  with v show ?thesis by blast
qed

end
