(* ===== verification/Moa_Context.thy ===== *)
theory Moa_Context
  imports Moa_Codes
begin

text \<open>
  The request properties carried by a Go context (\<^verbatim>\<open>moa_codec.go\<close>, from \<^verbatim>\<open>AttachMoaProperty\<close> to
  \<^verbatim>\<open>WithSpanCtx\<close>). The properties are a \<^verbatim>\<open>map[string]string\<close>, a mutable object that several
  contexts and a request can share, so the maps live in an explicit heap and a context holds a
  reference. A context is the chain of its \<^verbatim>\<open>context.WithValue\<close> layers, the innermost first;
  cancellation and deadlines carry no value and are not part of it. The value under the properties
  key is a map (\<open>MapRef None\<close> is the nil map, which can be read but not written) or something else.
\<close>

datatype ctx_val = MapRef "nat option" | OtherVal

type_synonym ctx = "(string \<times> ctx_val) list"

record ctx_heap =
  maps :: "nat \<Rightarrow> (string, string) gomap"
  next_ref :: nat

definition empty_heap :: ctx_heap where
  "empty_heap = \<lparr>maps = (\<lambda>_. []), next_ref = 0\<rparr>"

definition new_map :: "(string, string) gomap \<Rightarrow> ctx_heap \<Rightarrow> nat \<times> ctx_heap" where
  "new_map m h = (next_ref h, h\<lparr>maps := (maps h)(next_ref h := m), next_ref := Suc (next_ref h)\<rparr>)"

definition ctx_Value :: "ctx \<Rightarrow> string \<Rightarrow> ctx_val option" where
  "ctx_Value c k = map_of c k"

definition WithValue :: "ctx \<Rightarrow> string \<Rightarrow> ctx_val \<Rightarrow> ctx" where
  "WithValue c k v = (k, v) # c"

section \<open>Operations\<close>

definition AttachMoaProperty :: "ctx \<Rightarrow> string \<Rightarrow> string \<Rightarrow> ctx_heap \<Rightarrow> ctx go \<times> ctx_heap" where
  "AttachMoaProperty c key val h =
     (case ctx_Value c KEY_MOA_PROPERTIES of
        Some (MapRef (Some r)) \<Rightarrow> (Ret c, h\<lparr>maps := (maps h)(r := AList.update key val (maps h r))\<rparr>)
      | Some (MapRef None) \<Rightarrow> (Panic nil_map_write, h)
      | _ \<Rightarrow> (case new_map (AList.update key val []) h of
                (r, h') \<Rightarrow> (Ret (WithValue c KEY_MOA_PROPERTIES (MapRef (Some r))), h')))"

definition DetachMoaProperty :: "ctx \<Rightarrow> string \<Rightarrow> ctx_heap \<Rightarrow> ctx_heap" where
  "DetachMoaProperty c key h =
     (case ctx_Value c KEY_MOA_PROPERTIES of
        Some (MapRef (Some r)) \<Rightarrow> h\<lparr>maps := (maps h)(r := AList.delete key (maps h r))\<rparr>
      | _ \<Rightarrow> h)"

definition GetMoaProperty :: "ctx \<Rightarrow> string \<Rightarrow> ctx_heap \<Rightarrow> string \<times> bool" where
  "GetMoaProperty c key h =
     (case ctx_Value c KEY_MOA_PROPERTIES of
        Some (MapRef (Some r)) \<Rightarrow> (case map_of (maps h r) key of Some v \<Rightarrow> (v, True) | None \<Rightarrow> ([], False))
      | _ \<Rightarrow> ([], False))"

text \<open>
  The opentracing tracer is not part of the repository: \<open>Extract\<close> is the span context it reads from
  a text map (\<open>None\<close> when it returns an error or nil), \<open>Inject\<close> the key-value pairs it sets in the
  carrier, in order, and \<open>StartSpan\<close> the span context of a child span.
\<close>

record 'sp tracer =
  Extract :: "(string, string) gomap \<Rightarrow> 'sp option"
  Inject :: "'sp \<Rightarrow> (string \<times> string) list"
  StartSpan :: "string \<Rightarrow> 'sp \<Rightarrow> 'sp"

definition GetSpanCtx :: "'sp tracer \<Rightarrow> ctx \<Rightarrow> ctx_heap \<Rightarrow> 'sp option" where
  "GetSpanCtx T c h =
     (case ctx_Value c KEY_MOA_PROPERTIES of
        Some (MapRef r) \<Rightarrow> Extract T (case r of Some a \<Rightarrow> maps h a | None \<Rightarrow> [])
      | _ \<Rightarrow> None)"

text \<open>\<^verbatim>\<open>TextMapCarrier.Set\<close> for each injected pair: an assignment into the carrier's map.\<close>

definition set_all :: "(string \<times> string) list \<Rightarrow> (string, string) gomap \<Rightarrow> (string, string) gomap" where
  "set_all kvs m = fold (\<lambda>(k, v). AList.update k v) kvs m"

definition WithSpanCtx :: "'sp tracer \<Rightarrow> ctx \<Rightarrow> 'sp \<Rightarrow> ctx_heap \<Rightarrow> ctx go \<times> ctx_heap" where
  "WithSpanCtx T c sp h =
     (let (p, h1) =
        (case ctx_Value c KEY_MOA_PROPERTIES of
           Some (MapRef r) \<Rightarrow> (r, h)
         | _ \<Rightarrow> apfst Some (new_map [] h)) in
      case p of
        None \<Rightarrow> if Inject T sp = [] then (Ret (WithValue c KEY_MOA_PROPERTIES (MapRef None)), h1)
                else (Panic nil_map_write, h1)
      | Some r \<Rightarrow>
          (Ret (WithValue c KEY_MOA_PROPERTIES (MapRef (Some r))),
           h1\<lparr>maps := (maps h1)(r := set_all (Inject T sp) (maps h1 r))\<rparr>))"

end
