(* ===== verification/Moa_Stat.thy ===== *)
theory Moa_Stat
  imports Moa_Codes
begin

text \<open>
  The server statistics of \<^verbatim>\<open>stat.go\<close>. A \<^verbatim>\<open>turbo.Flow\<close> and the prometheus collectors are objects of
  packages outside the repository; the model keeps the history of the calls made on them, and the
  values read from a flow are parameters, functions of its history (\<open>changes\<close> for \<^verbatim>\<open>Changes()\<close>,
  \<open>count\<close> for \<^verbatim>\<open>Count()\<close>). The ticker goroutine of \<^verbatim>\<open>StartLog\<close> is \<open>stat_tick\<close>, one round of its
  loop, and \<open>run_ticks\<close>, a sequence of rounds.
\<close>

definition MAX_ROTATE_SIZE :: i32 where "MAX_ROTATE_SIZE = 10"

datatype flow_call = Incr int | Changes

type_synonym flow = "flow_call list"

record Method =
  me_Name :: string
  me_Count :: int

record InvokePerClient =
  ipc_Client :: string
  ipc_ServiceName :: string
  ipc_Methods :: "Method list"

record MoaInfo =
  mi_Recv :: int
  mi_Proc :: int
  mi_Error :: int
  mi_Timeout :: int
  mi_MoaInvokePool :: int
  mi_Connections :: int
  mi_TotalGoroutine :: int

definition zero_MoaInfo :: MoaInfo where
  "zero_MoaInfo = \<lparr>mi_Recv = 0, mi_Proc = 0, mi_Error = 0, mi_Timeout = 0, mi_MoaInvokePool = 0,
     mi_Connections = 0, mi_TotalGoroutine = 0\<rparr>"

record MoaStatistic =
  Recv :: flow
  Proc :: flow
  Error :: flow
  Timeout :: flow

text \<open>
  Counters: the number of \<^verbatim>\<open>Inc()\<close> calls; the summary: its observations; the gauges: the values
  set, the latest first; the collectors by the names they are registered under.
\<close>

record MoaMetrics =
  RpcReceiveTotalCounter :: nat
  RpcProcessTotalCounter :: nat
  RpcErrorTotalCounter :: nat
  RpcTimeoutTotalCounter :: nat
  RpcInvokeDurationSummary :: "(string \<times> i64) list"
  InvokePoolMaxGauge :: "int list"
  InvokePoolInuseGauge :: "int list"
  cllectors :: "string list"

text \<open>
  \<^verbatim>\<open>MoaMetrics\<close> is a pointer that \<^verbatim>\<open>NewMoaStat\<close>, the only constructor, sets and nothing resets; the
  model keeps the value, so the nil test of \<^verbatim>\<open>Destroy\<close> always succeeds.
\<close>

record MoaStat =
  preMoaInfo :: MoaInfo
  currMoaInfo :: MoaStatistic
  RotateSize :: i32
  MoaTicker :: "bool option"  \<comment> \<open>nil, or whether the ticker runs\<close>
  hostname :: string
  serviceUri :: string
  metrics :: MoaMetrics

text \<open>The calls made on prometheus' default registerer.\<close>

datatype prom_call = Register string | Unregister string

definition collector_names :: "string list" where
  "collector_names =
     [''moa_server_rpc_receive_total'', ''moa_server_rpc_process_total'',
      ''moa_server_rpc_error_total'', ''moa_server_rpc_timeout_total'',
      ''moa_server_rpc_invoke_duration_seconds'',
      ''moa_server_invoke_max_pool'', ''moa_server_invoke_inuse_pool'']"

definition NewMoaStat :: "string \<Rightarrow> string \<Rightarrow> MoaStat \<times> prom_call list" where
  "NewMoaStat host uri =
     (\<lparr>preMoaInfo = zero_MoaInfo,
       currMoaInfo = \<lparr>Recv = [], Proc = [], Error = [], Timeout = []\<rparr>,
       RotateSize = 0, MoaTicker = None, hostname = host, serviceUri = uri,
       metrics = \<lparr>RpcReceiveTotalCounter = 0, RpcProcessTotalCounter = 0, RpcErrorTotalCounter = 0,
         RpcTimeoutTotalCounter = 0, RpcInvokeDurationSummary = [], InvokePoolMaxGauge = [],
         InvokePoolInuseGauge = [], cllectors = collector_names\<rparr>\<rparr>,
      map Register collector_names)"

definition upd_metrics :: "(MoaMetrics \<Rightarrow> MoaMetrics) \<Rightarrow> MoaStat \<Rightarrow> MoaStat" where
  "upd_metrics f s = s\<lparr>metrics := f (metrics s)\<rparr>"

definition IncrRecv :: "MoaStat \<Rightarrow> MoaStat" where
  "IncrRecv s = upd_metrics (RpcReceiveTotalCounter_update Suc)
     (s\<lparr>currMoaInfo := (currMoaInfo s)\<lparr>Recv := Recv (currMoaInfo s) @ [Incr 1]\<rparr>\<rparr>)"

definition IncrProc :: "MoaStat \<Rightarrow> MoaStat" where
  "IncrProc s = upd_metrics (RpcProcessTotalCounter_update Suc)
     (s\<lparr>currMoaInfo := (currMoaInfo s)\<lparr>Proc := Proc (currMoaInfo s) @ [Incr 1]\<rparr>\<rparr>)"

definition IncrError :: "MoaStat \<Rightarrow> MoaStat" where
  "IncrError s = upd_metrics (RpcErrorTotalCounter_update Suc)
     (s\<lparr>currMoaInfo := (currMoaInfo s)\<lparr>Error := Error (currMoaInfo s) @ [Incr 1]\<rparr>\<rparr>)"

definition IncrTimeout :: "MoaStat \<Rightarrow> MoaStat" where
  "IncrTimeout s = upd_metrics (RpcTimeoutTotalCounter_update Suc)
     (s\<lparr>currMoaInfo := (currMoaInfo s)\<lparr>Timeout := Timeout (currMoaInfo s) @ [Incr 1]\<rparr>\<rparr>)"

definition ObserveCost :: "string \<Rightarrow> i64 \<Rightarrow> MoaStat \<Rightarrow> MoaStat" where
  "ObserveCost m cost = upd_metrics (RpcInvokeDurationSummary_update (\<lambda>l. l @ [(m, cost)]))"

definition GetMoaInfo :: "MoaStat \<Rightarrow> MoaInfo" where
  "GetMoaInfo s = preMoaInfo s"

definition StatDestroy :: "MoaStat \<Rightarrow> MoaStat \<times> prom_call list" where
  "StatDestroy s =
     (s\<lparr>MoaTicker := map_option (\<lambda>_. False) (MoaTicker s)\<rparr>,
      map Unregister (cllectors (metrics s)))"

section \<open>The ticker\<close>

text \<open>
  What one round meets outside: the network statistics and the monitor callback (both are functions of
  the caller, which may panic), the invoke pool's size and capacity, the number of goroutines.
\<close>

record NetworkStat =
  ns_ReadBytes :: int
  ns_ReadCount :: int
  ns_WriteBytes :: int
  ns_WriteCount :: int
  ns_DisPoolSize :: int
  ns_DisPoolCap :: int
  ns_Connections :: int

record tick_env =
  te_network :: "NetworkStat go"
  te_pool :: "int \<times> int"
  te_goroutines :: int
  te_monitor :: "unit go"

text \<open>What a round puts out: its log lines and the call of the monitor callback.\<close>

record tick_out =
  to_log :: "string list"
  to_monitor :: "(string \<times> string \<times> MoaInfo) option"
  to_prom :: "prom_call list"

definition network_line :: "NetworkStat \<Rightarrow> string" where
  "network_line n = Sprintf ''R:%dKB/%d W:%dKB/%d Go:%d/%d CONN:%d''
     [FInt (ns_ReadBytes n sdiv 1024), FInt (ns_ReadCount n), FInt (ns_WriteBytes n sdiv 1024),
      FInt (ns_WriteCount n), FInt (ns_DisPoolSize n), FInt (ns_DisPoolCap n), FInt (ns_Connections n)]"

definition info_line :: "MoaInfo \<Rightarrow> int \<Rightarrow> int \<Rightarrow> string \<Rightarrow> string" where
  "info_line i inuse cap net = Sprintf ''%d %d %d %d %d/%d %s''
     [FInt (mi_Recv i), FInt (mi_Proc i), FInt (mi_Error i), FInt (mi_Timeout i), FInt inuse, FInt cap, FStr net]"

definition rotate_header :: string where
  "rotate_header = ''REV PROC ERROR TIMEOUT Goroutine NetWork''"

definition StartLog :: "MoaStat \<Rightarrow> MoaStat \<times> string list" where
  "StartLog s = (s\<lparr>MoaTicker := Some True\<rparr>, [''RECV PROC ERROR TIMEOUT Goroutine NetWork''])"

definition take_changes :: "MoaStatistic \<Rightarrow> MoaStatistic" where
  "take_changes c = \<lparr>Recv = Recv c @ [Changes], Proc = Proc c @ [Changes],
     Error = Error c @ [Changes], Timeout = Timeout c @ [Changes]\<rparr>"

text \<open>
  The deferred function of the goroutine: a panic \<open>m\<close> of a round that had logged \<open>logs\<close> and made the
  call \<open>called\<close> of the monitor.
\<close>

definition tick_recover :: "string \<Rightarrow> string list \<Rightarrow> (string \<times> string \<times> MoaInfo) option \<Rightarrow> MoaStat \<Rightarrow> MoaStat \<times> tick_out" where
  "tick_recover m logs called s =
     (case StatDestroy s of (s', calls) \<Rightarrow>
        (s', \<lparr>to_log = logs @ [Sprintf ''time.ticker|Invoke|FAIL|%v'' [FStr m]], to_monitor = called, to_prom = calls\<rparr>))"

definition stat_tick :: "(flow \<Rightarrow> int) \<Rightarrow> tick_env \<Rightarrow> MoaStat \<Rightarrow> MoaStat \<times> tick_out" where
  "stat_tick changes e s =
     (case te_network e of
        Panic m \<Rightarrow> tick_recover m [] None s
      | Ret n \<Rightarrow>
          let (inuse, cap) = te_pool e;
              c = currMoaInfo s;
              s1 = upd_metrics (\<lambda>m. m\<lparr>InvokePoolInuseGauge := inuse # InvokePoolInuseGauge m,
                                     InvokePoolMaxGauge := cap # InvokePoolMaxGauge m\<rparr>) s;
              info = \<lparr>mi_Recv = changes (Recv c), mi_Proc = changes (Proc c), mi_Error = changes (Error c),
                      mi_Timeout = changes (Timeout c), mi_MoaInvokePool = inuse,
                      mi_Connections = ns_Connections n, mi_TotalGoroutine = te_goroutines e\<rparr>;
              s2 = s1\<lparr>preMoaInfo := info, currMoaInfo := take_changes c\<rparr>;
              line = info_line info inuse cap (network_line n);
              (logs, rot) = (if RotateSize s = MAX_ROTATE_SIZE then ([rotate_header, line], 0)
                             else ([line], RotateSize s + 1));
              s3 = s2\<lparr>RotateSize := rot\<rparr>;
              called = Some (serviceUri s, hostname s, info)
          in (case te_monitor e of
                Panic m \<Rightarrow> tick_recover m logs called s3
              | Ret u \<Rightarrow> (s3, \<lparr>to_log = logs, to_monitor = called, to_prom = []\<rparr>)))"

text \<open>The loop: it ends when a round panics, whose recovery destroys the ticker.\<close>

definition tick_panics :: "tick_env \<Rightarrow> bool" where
  "tick_panics e \<longleftrightarrow> panics (te_network e) \<or> panics (te_monitor e)"

fun run_ticks :: "(flow \<Rightarrow> int) \<Rightarrow> tick_env list \<Rightarrow> MoaStat \<Rightarrow> MoaStat \<times> tick_out list" where
  "run_ticks changes [] s = (s, [])"
| "run_ticks changes (e # es) s =
     (case stat_tick changes e s of
        (s1, out) \<Rightarrow>
          if tick_panics e then (s1, [out])
          else (case run_ticks changes es s1 of (s2, outs) \<Rightarrow> (s2, out # outs)))"

end
