(* ===== verification/Moa_Proxy.thy ===== *)
theory Moa_Proxy
  imports Moa_Packets Moa_Context Moa_Stat
begin

text \<open>
  The invocation handler of \<^verbatim>\<open>proxy.go\<close>: services described by reflection, their methods looked up
  case-insensitively, the arguments decoded against the parameter types, the method called, the
  response built, every panic recovered. The services themselves are user code: a parameter type
  brings its JSON decoder (\<^verbatim>\<open>json.Unmarshal\<close> dispatches on it, including user-written
  \<^verbatim>\<open>UnmarshalJSON\<close>, as long as that does not panic) and an instance brings its methods as functions on
  the world, the context heap and whatever state the user's services have. A panic carries the text of
  a value: \<^verbatim>\<open>panic(nil)\<close>, for which \<^verbatim>\<open>recover\<close> returns nil, and \<^verbatim>\<open>runtime.Goexit\<close> are left out. A
  service's interface is described by its methods, so it is a pointer to an interface type and its
  instance is not nil, as the calls of \<^verbatim>\<open>reflect\<close> require.
\<close>

section \<open>Reflection\<close>

record 'v rtype =
  rt_String :: string
  rt_context :: bool                     \<comment> \<open>Implements(typeOfContext)\<close>
  rt_error :: bool                       \<comment> \<open>Implements(errorType)\<close>
  rt_decode :: "json \<Rightarrow> string + 'v"     \<comment> \<open>json.Unmarshal into reflect.New\<close>

record 'w world =
  heap :: ctx_heap
  user :: 'w

datatype 'v arg = ArgCtx ctx | ArgVal 'v

type_synonym ('v, 'w) gofunc = "'v arg list \<Rightarrow> 'w world \<Rightarrow> 'v rvalue list go \<times> 'w world"

record 'v rmethod =
  rm_Name :: string
  rm_In :: "'v rtype list"
  rm_Out :: "'v rtype list"

record ('v, 'w) MethodMeta =
  Name :: string
  Method :: "('v, 'w) gofunc"
  ReturnType :: "'v rtype list"
  ParamTypes :: "'v rtype list"

text \<open>
  \<open>Interface\<close> is the reflected interface type (its name and method set), \<open>Instance\<close> the instance
  (its type's name, whether that implements the interface, \<^verbatim>\<open>MethodByName\<close>). The field
  \<open>InvokesPerClient\<close> is a pointer to a \<^verbatim>\<open>sync.Map\<close> of \<^verbatim>\<open>sync.Map\<close>s; \<open>None\<close> is the nil pointer.
\<close>

record ('v, 'w) instance_val =
  in_String :: string
  in_implements :: bool
  in_MethodByName :: "string \<Rightarrow> ('v, 'w) gofunc"

type_synonym invokes = "(string, (string, flow) gomap) gomap"

record ('v, 'w) Service =
  ServiceUri :: string
  GroupId :: string
  IsPre :: bool
  Interface :: "string \<times> 'v rmethod list"
  Instance :: "('v, 'w) instance_val"
  methods :: "(string, ('v, 'w) MethodMeta) gomap"
  InvokesPerClient :: "invokes option"

record ('v, 'w) InvocationHandler =
  instances :: "(string, ('v, 'w) Service) gomap"
  moaStat :: MoaStat

section \<open>NewInvocationHandler\<close>

definition method_meta :: "('v, 'w) Service \<Rightarrow> 'v rmethod \<Rightarrow> ('v, 'w) MethodMeta go" where
  "method_meta s m =
     (if 1 \<le> length (rm_Out m) \<and> length (rm_Out m) \<le> 2 then
        if \<not> rt_error (last (rm_Out m)) then
          Panic (Sprintf ''%s Method  %s Last Return Type Must Be An Error! [%s]''
            [FStr (ServiceUri s), FStr (rm_Name m), FStr (rt_String (last (rm_Out m)))])
        else Ret \<lparr>Name = rm_Name m, Method = in_MethodByName (Instance s) (rm_Name m),
                  ReturnType = rm_Out m, ParamTypes = rm_In m\<rparr>
      else
        Panic (Sprintf ''%s Method  %s Last Return Count (1<=n<=2) Type Must Be More Than An Error! ''
          [FStr (ServiceUri s), FStr (rm_Name m)]))"

fun method_loop :: "'v rmethod list \<Rightarrow> ('v, 'w) Service \<Rightarrow> ('v, 'w) Service go" where
  "method_loop [] s = Ret s"
| "method_loop (m # ms) s =
     bind_go (method_meta s m) (\<lambda>mm.
       method_loop ms (s\<lparr>methods := AList.update (ToLower (rm_Name m)) mm (methods s),
                         InvokesPerClient := Some []\<rparr>))"

definition reflect_service :: "('v, 'w) Service \<Rightarrow> ('v, 'w) Service go" where
  "reflect_service s =
     (if \<not> in_implements (Instance s) then
        Panic (Sprintf ''InvocationHandler|Not Implements|%s|%s''
          [FStr (in_String (Instance s)), FStr (fst (Interface s))])
      else method_loop (snd (Interface s)) (s\<lparr>methods := []\<rparr>))"

fun service_loop :: "('v, 'w) Service list \<Rightarrow> (string, ('v, 'w) Service) gomap
    \<Rightarrow> (string, ('v, 'w) Service) gomap go" where
  "service_loop [] inst = Ret inst"
| "service_loop (s # ss) inst =
     bind_go (reflect_service s) (\<lambda>s'. service_loop ss (AList.update (ServiceUri s') s' inst))"

definition NewInvocationHandler :: "('v, 'w) Service list \<Rightarrow> MoaStat \<Rightarrow> ('v, 'w) InvocationHandler go" where
  "NewInvocationHandler services st =
     bind_go (service_loop services []) (\<lambda>inst. Ret \<lparr>instances = inst, moaStat = st\<rparr>)"

section \<open>ListInvokes\<close>

definition list_client :: "(flow \<Rightarrow> int) \<Rightarrow> ('v, 'w) Service \<Rightarrow> string \<times> (string, flow) gomap \<Rightarrow> InvokePerClient" where
  "list_client count s = (\<lambda>(client, flows).
     \<lparr>ipc_Client = client, ipc_ServiceName = ServiceUri s,
      ipc_Methods = map (\<lambda>(name, f). \<lparr>me_Name = name, me_Count = count f\<rparr>) flows\<rparr>)"

definition ListInvokes :: "(flow \<Rightarrow> int) \<Rightarrow> ('v, 'w) InvocationHandler \<Rightarrow> string \<Rightarrow> InvokePerClient list go" where
  "ListInvokes count h servicename =
     (case map_of (instances h) servicename of
        None \<Rightarrow> Ret []
      | Some s \<Rightarrow>
          (case InvokesPerClient s of
             None \<Rightarrow> Panic nil_deref
           | Some m \<Rightarrow> Ret (map (list_client count s) m)))"

section \<open>invoke\<close>

record 'v invokeResult =
  ir_err :: "'v rvalue option"
  ir_values :: "'v rvalue list"

definition isnil_panic :: "'v rvalue \<Rightarrow> string" where
  "isnil_panic r = ''reflect: call of reflect.Value.IsNil on '' @ rv_kind r @ '' Value''"

definition IsNil :: "'v rvalue \<Rightarrow> bool go" where
  "IsNil r = (if rv_nilable r then Ret (rv_isnil r) else Panic (isnil_panic r))"

definition invoke :: "('v, 'w) MethodMeta \<Rightarrow> 'v arg list \<Rightarrow> 'w world \<Rightarrow> 'v invokeResult go \<times> 'w world" where
  "invoke m params w =
     (case Method m params w of
        (Panic c, w') \<Rightarrow> (Panic c, w')
      | (Ret vs, w') \<Rightarrow>
          (if length (ReturnType m) \<le> 1 then
             (case vs of
                [] \<Rightarrow> Panic index_panic
              | v # _ \<Rightarrow> bind_go (IsNil v) (\<lambda>b. Ret \<lparr>ir_err = (if b then None else Some v), ir_values = vs\<rparr>))
           else Ret \<lparr>ir_err = None, ir_values = vs\<rparr>, w'))"

section \<open>Invoke\<close>

text \<open>
  The state the body of \<^verbatim>\<open>Invoke\<close> changes: the handler's services and statistics, the response it is
  building, the world. A crash is the message of a panic that leaves the body.
\<close>

record ('v, 'w) inv_state =
  is_instances :: "(string, ('v, 'w) Service) gomap"
  is_stat :: MoaStat
  is_resp :: "'v MoaRespPacket"
  is_world :: "'w world"

definition fail_with :: "int \<Rightarrow> string \<Rightarrow> ('v, 'w) inv_state \<Rightarrow> ('v, 'w) inv_state" where
  "fail_with code msg st =
     st\<lparr>is_stat := IncrError (is_stat st), is_resp := (is_resp st)\<lparr>ErrCode := code, Message := msg\<rparr>\<rparr>"

text \<open>The per-client, per-method counter: two \<^verbatim>\<open>Load\<close>/\<^verbatim>\<open>LoadOrStore\<close> pairs and an \<^verbatim>\<open>Incr(1)\<close>.\<close>

definition load_default :: "'k \<Rightarrow> 'v \<Rightarrow> ('k, 'v) gomap \<Rightarrow> 'v \<times> ('k, 'v) gomap" where
  "load_default k v m =
     (case map_of m k of
        Some x \<Rightarrow> (x, m)
      | None \<Rightarrow> (case load_or_store k v m of ((exist, loaded), m') \<Rightarrow> (if \<not> loaded then v else exist, m')))"

definition count_invoke :: "string \<Rightarrow> string \<Rightarrow> invokes \<Rightarrow> invokes" where
  "count_invoke source name m =
     (case load_default source [] m of (flow, m1) \<Rightarrow>
        (case load_default name [] flow of (counter, flow1) \<Rightarrow>
           AList.update source (AList.update name (counter @ [Incr 1]) flow1) m1))"

definition set_invokes :: "string \<Rightarrow> invokes \<Rightarrow> (string, ('v, 'w) Service) gomap \<Rightarrow> (string, ('v, 'w) Service) gomap" where
  "set_invokes uri m inst =
     (case map_of inst uri of
        None \<Rightarrow> inst
      | Some s \<Rightarrow> AList.update uri (s\<lparr>InvokesPerClient := Some m\<rparr>) inst)"

fun decode_args :: "json list \<Rightarrow> 'v rtype list \<Rightarrow> string + 'v arg list" where
  "decode_args (a # as) (t # ts) =
     (case rt_decode t a of
        Inl uerr \<Rightarrow> Inl uerr
      | Inr v \<Rightarrow> (case decode_args as ts of Inl e \<Rightarrow> Inl e | Inr vs \<Rightarrow> Inr (ArgVal v # vs)))"
| "decode_args _ _ = Inr []"

text \<open>The call and its result, from \<^verbatim>\<open>work := invoke(m, params...)\<close> on.\<close>

definition call_method :: "('v, 'w) MethodMeta \<Rightarrow> 'v arg list \<Rightarrow> ('v, 'w) inv_state
    \<Rightarrow> ('v, 'w) inv_state \<times> string option" where
  "call_method m params st =
     (case invoke m params (is_world st) of
        (Panic c, w) \<Rightarrow> (st\<lparr>is_world := w\<rparr>, Some c)
      | (Ret work, w) \<Rightarrow>
          let st = st\<lparr>is_world := w\<rparr> in
          (case ir_err work of
             Some e \<Rightarrow> (fail_with CODE_INVOCATION_TARGET (Sprintf MSG_INVOCATION_TARGET [FStr (rv_text e)]) st, None)
           | None \<Rightarrow>
               (case ir_values work of
                  [] \<Rightarrow> (fail_with CODE_INVOCATION_TARGET ''NO Result ...'' st, None)
                | r0 # rs \<Rightarrow>
                    let st = st\<lparr>is_stat := IncrProc (is_stat st),
                                is_resp := (is_resp st)\<lparr>ErrCode := CODE_SERVER_SUCC, Result := Some r0\<rparr>\<rparr> in
                    (case rs of
                       [] \<Rightarrow> (st, None)
                     | r1 # _ \<Rightarrow>
                         (case IsNil r1 of
                            Panic c \<Rightarrow> (st, Some c)
                          | Ret True \<Rightarrow> (st, None)
                          | Ret False \<Rightarrow>
                              (st\<lparr>is_resp := (is_resp st)\<lparr>Message := Sprintf ''Method Invoke Error %v'' [FStr (rv_text r1)]\<rparr>\<rparr>,
                               None))))))"

definition args_of :: "MoaRawReqPacket \<Rightarrow> json list" where
  "args_of req = (case rq_Args req of None \<Rightarrow> [] | Some l \<Rightarrow> l)"

text \<open>A method that was found: count the call, match and decode the arguments, call it.\<close>

definition found_method :: "ctx \<Rightarrow> MoaRawReqPacket \<Rightarrow> ('v, 'w) Service \<Rightarrow> ('v, 'w) MethodMeta
    \<Rightarrow> ('v, 'w) inv_state \<Rightarrow> ('v, 'w) inv_state \<times> string option" where
  "found_method c req s m st =
     (case InvokesPerClient s of
        None \<Rightarrow> (st, Some nil_deref)
      | Some calls \<Rightarrow>
          let st = st\<lparr>is_instances := set_invokes (rq_ServiceUri req) (count_invoke (rq_Source req) (Name m) calls) (is_instances st)\<rparr>;
              (params, paramTypes) =
                (case ParamTypes m of
                   [] \<Rightarrow> ([], [])
                 | t # ts \<Rightarrow> if rt_context t then ([ArgCtx c], ts) else ([], t # ts))
          in
          if length (args_of req) \<noteq> length paramTypes then
            (fail_with CODE_SERIALIZATION
               (Sprintf MSG_PARAMS_NOT_MATCHED [FInt (int (length (args_of req))), FInt (int (length (ParamTypes m)))]) st, None)
          else
            (case decode_args (args_of req) paramTypes of
               Inl uerr \<Rightarrow> (fail_with CODE_SERIALIZATION_SERVER (Sprintf MSG_SERIALIZATION [FStr uerr]) st, None)
             | Inr vs \<Rightarrow> call_method m (params @ vs) st))"

definition Invoke_body :: "ctx \<Rightarrow> MoaRawReqPacket \<Rightarrow> ('v, 'w) inv_state \<Rightarrow> ('v, 'w) inv_state \<times> string option" where
  "Invoke_body c req st =
     (case map_of (is_instances st) (rq_ServiceUri req) of
        None \<Rightarrow> (fail_with CODE_SERVICE_NOT_FOUND (Sprintf MSG_NO_URI_FOUND [FStr (rq_ServiceUri req)]) st, None)
      | Some s \<Rightarrow>
          (case map_of (methods s) (ToLower (rq_Method req)) of
             None \<Rightarrow> (fail_with CODE_METHOD_NOT_FOUND (Sprintf MSG_METHOD_NOT_FOUND [FStr (rq_Method req)]) st, None)
           | Some m \<Rightarrow> found_method c req s m st))"

text \<open>The tracing calls made on the child span, and the deferred function's part of them.\<close>

datatype span_event = Start string | LogKV string string | SetTag string string | Finish

definition arg_logs :: "MoaRawReqPacket \<Rightarrow> span_event list" where
  "arg_logs req = map (\<lambda>(i, a). LogKV (Sprintf ''param.%d'' [FInt (int i)]) (json_print a))
     (enumerate 0 (args_of req))"

definition prop_tags :: "ctx \<Rightarrow> ctx_heap \<Rightarrow> span_event list" where
  "prop_tags c h =
     (case ctx_Value c KEY_MOA_PROPERTIES of
        Some (MapRef (Some r)) \<Rightarrow> map (\<lambda>(k, v). SetTag (''moa.'' @ k) v) (maps h r)
      | _ \<Rightarrow> [])"

definition resp_tags :: "'v MoaRespPacket \<Rightarrow> span_event list" where
  "resp_tags resp =
     [SetTag ''resp.ec'' (dec_int (ErrCode resp)), SetTag ''resp.em'' (Message resp)]
     @ (case result_json (Result resp) of Inl _ \<Rightarrow> [] | Inr j \<Rightarrow> [LogKV ''resp.result'' (json_print j)])
     @ (if ErrCode resp \<noteq> CODE_SERVER_SUCC then [SetTag ''error'' ''true''] else [])"

definition recover_crash :: "string option \<Rightarrow> ('v, 'w) inv_state \<Rightarrow> ('v, 'w) inv_state" where
  "recover_crash crash st =
     (case crash of None \<Rightarrow> st
      | Some c \<Rightarrow> fail_with CODE_INVOCATION_TARGET (Sprintf MSG_INVOCATION_TARGET [FStr c]) st)"

text \<open>
  What an invocation leaves: the handler, the response passed to \<^verbatim>\<open>onCallback\<close> (\<open>None\<close> when the result
  is dropped because it came too late), the tracing calls. \<open>start_span\<close> is the tracing prologue; a
  panic in it (writing into a nil map) is outside the deferred recovery and leaves \<^verbatim>\<open>Invoke\<close>.
\<close>

record ('v, 'w) inv_out =
  io_handler :: "('v, 'w) InvocationHandler"
  io_callback :: "'v MoaRespPacket option"
  io_spans :: "span_event list"

definition start_span :: "'sp tracer \<Rightarrow> ctx \<Rightarrow> MoaRawReqPacket \<Rightarrow> ctx_heap
    \<Rightarrow> (bool \<times> ctx \<times> span_event list) go \<times> ctx_heap" where
  "start_span T c req h =
     (case GetSpanCtx T c h of
        None \<Rightarrow> (Ret (False, c, []), h)
      | Some parent \<Rightarrow>
          (case WithSpanCtx T c (StartSpan T (rq_Method req) parent) h of
             (Panic e, h') \<Rightarrow> (Panic e, h')
           | (Ret c', h') \<Rightarrow>
               (Ret (True, c', Start (rq_Method req) # arg_logs req @ prop_tags c' h'), h')))"

definition Invoke :: "'sp tracer \<Rightarrow> i64 \<Rightarrow> ('v, 'w) InvocationHandler \<Rightarrow> ctx \<Rightarrow> MoaRawReqPacket \<Rightarrow> 'w world
    \<Rightarrow> ('v, 'w) inv_out go \<times> 'w world" where
  "Invoke T cost hdl c req w =
     (case start_span T c req (heap w) of
        (Panic e, h) \<Rightarrow> (Panic e, w\<lparr>heap := h\<rparr>)
      | (Ret (tracing, c', spans), h) \<Rightarrow>
          let st0 = \<lparr>is_instances = instances hdl, is_stat = IncrRecv (moaStat hdl), is_resp = zero_resp,
                     is_world = w\<lparr>heap := h\<rparr>\<rparr>;
              (st1, crash) = Invoke_body c' req st0;
              st2 = recover_crash crash st1;
              hdl' = \<lparr>instances = is_instances st2, moaStat = ObserveCost (rq_Method req) cost (is_stat st2)\<rparr>;
              late = i64_ge cost (rq_Timeout req);
              fin = (if tracing then [Finish] else [])
          in (Ret \<lparr>io_handler = hdl',
                   io_callback = (if late then None else Some (is_resp st2)),
                   io_spans = spans @ (if \<not> late \<and> tracing then resp_tags (is_resp st2) else []) @ fin\<rparr>,
              is_world st2))"

end
