(* ===== verification/Moa_Registry.thy ===== *)
theory Moa_Registry
  imports Moa_Packets
begin

text \<open>
  Service URIs and the registry interface of \<^verbatim>\<open>registry.go\<close> and \<^verbatim>\<open>registry_zk.go\<close>. The interface
  \<^verbatim>\<open>IRegistry\<close> is the locale \<open>registry\<close>: what a client of it may rely on, whichever registry it
  holds. The two registries are in the theories \<open>Moa_File_Registry\<close> and \<open>Moa_Zk_Registry\<close>, the
  client is the \<^verbatim>\<open>ConfigCenter\<close> of \<open>Moa_Config_Center\<close>.
\<close>

section \<open>Service URIs\<close>

definition concat_go :: "string list \<Rightarrow> string" where
  "concat_go args = fold (\<lambda>arg buffer. buffer @ arg) args []"

definition BuildServiceUri :: "string \<Rightarrow> string \<Rightarrow> string" where
  "BuildServiceUri serviceUri groupId =
     (if 0 < length groupId \<and> ''*'' \<noteq> groupId then concat_go [serviceUri, ''#'', groupId] else serviceUri)"

definition UnwrapServiceUri :: "string \<Rightarrow> string \<times> string" where
  "UnwrapServiceUri serviceUri =
     (if CHR ''#'' \<in> set serviceUri then
        (let split = SplitN2 CHR ''#'' serviceUri in (split ! 0, split ! 1))
      else (serviceUri, ''*''))"

lemma concat_go_simps [simp]: "concat_go [] = []" "concat_go [a] = a" "concat_go [a, b] = a @ b"
  "concat_go [a, b, c] = a @ b @ c" "concat_go [a, b, c, d] = a @ b @ c @ d"
  by (simp_all add: concat_go_def)

text \<open>The group a service without one is in.\<close>

definition group_of :: "string \<Rightarrow> string" where
  "group_of g = (if g = [] then ALL_GROUP else g)"

lemma Unwrap_Build: "CHR ''#'' \<notin> set u \<Longrightarrow> UnwrapServiceUri (BuildServiceUri u g) = (u, group_of g)"
  by (auto simp: UnwrapServiceUri_def BuildServiceUri_def group_of_def ALL_GROUP_def SplitN2_append)

lemma Build_eq_iff:
  "CHR ''#'' \<notin> set u \<Longrightarrow> CHR ''#'' \<notin> set u' \<Longrightarrow>
   BuildServiceUri u g = BuildServiceUri u' g' \<longleftrightarrow> u = u' \<and> group_of g = group_of g'"
  using Unwrap_Build [of u g] Unwrap_Build [of u' g']
  by (auto simp: BuildServiceUri_def group_of_def ALL_GROUP_def split: if_splits)

text \<open>
  A service URI and a group are recovered from the combined URI, the missing group as \<^verbatim>\<open>*\<close>, and two
  combined URIs are equal only when the URIs are equal and the groups are (\<^verbatim>\<open>*\<close> and the empty group
  being the same), for URIs without a \<^verbatim>\<open>#\<close>.
\<close>

theorem service_uri_round_trip:
  assumes "CHR ''#'' \<notin> set u" and "CHR ''#'' \<notin> set u'"
  shows "UnwrapServiceUri (BuildServiceUri u g) = (u, if g = [] then ''*'' else g)
    \<and> (BuildServiceUri u g = BuildServiceUri u' g' \<longleftrightarrow>
         u = u' \<and> (if g = [] then ''*'' else g) = (if g' = [] then ''*'' else g'))"
  using Unwrap_Build [OF assms(1), of g] Build_eq_iff [OF assms, of g g']
  by (simp add: group_of_def ALL_GROUP_def)

theorem service_uri_round_trip_witness:
  "CHR ''#'' \<notin> set ''/service/a'' \<and> UnwrapServiceUri (BuildServiceUri ''/service/a'' ''g1'') = (''/service/a'', ''g1'')"
  using service_uri_round_trip [of "''/service/a''" "''/service/a''" "''g1''" "''g1''"] by simp

section \<open>The interface\<close>

text \<open>
  What holds of every registry: registering answers true or panics, so a false answer never occurs;
  registering and unregistering do not change what \<^verbatim>\<open>GetService\<close> answers, which comes from the
  registry's own cache.
\<close>

locale registry =
  fixes registe :: "string \<Rightarrow> string \<Rightarrow> string \<Rightarrow> string \<Rightarrow> ServiceMeta \<Rightarrow> 's \<Rightarrow> bool go \<times> 's"
    and unregiste :: "string \<Rightarrow> string \<Rightarrow> string \<Rightarrow> string \<Rightarrow> 's \<Rightarrow> bool go \<times> 's"
    and getserv :: "string \<Rightarrow> string \<Rightarrow> string \<Rightarrow> 's \<Rightarrow> (string + ServiceMeta list) go"
  assumes registe_true: "fst (registe u hp p g m s) \<noteq> Ret False"
    and registe_frame: "getserv u' p' g' (snd (registe u hp p g m s)) = getserv u' p' g' s"
    and unregiste_frame: "getserv u' p' g' (snd (unregiste u hp p g s)) = getserv u' p' g' s"
begin

lemma registe_cases:
  obtains s' where "registe u hp p g m s = (Ret True, s')"
  | e s' where "registe u hp p g m s = (Panic e, s')"
proof (cases "registe u hp p g m s")
  case (Pair r s')
  then show ?thesis using that registe_true [of u hp p g m s] by (cases r) auto
qed

end

end
