(* ===== verification/Moa_File_Registry.thy ===== *)
theory Moa_File_Registry
  imports Moa_Registry
begin

text \<open>
  The registry that reads its services from a local YAML file, \<^verbatim>\<open>registry_file.go\<close>. Reading the file
  and parsing YAML are not part of the repository: \<open>read_file\<close> and \<open>yaml\<close> are parameters, each an
  error text or a result.
\<close>

record LocalService =
  ls_ServiceUri :: string
  ls_GroupId :: string
  ls_ProtoVersion :: string
  ls_IsPre :: bool
  ls_HostPorts :: "string list"

record FileRegistry =
  fr_service :: "string list"
  fr_uri2Services :: "(string, ServiceMeta list) gomap"
  fr_serverModel :: bool

section \<open>Operations\<close>

text \<open>The loop over a service's addresses; the protocol version is defaulted in the loop variable \<^verbatim>\<open>s\<close>.\<close>

fun load_hosts :: "LocalService \<Rightarrow> string list \<Rightarrow> (string, ServiceMeta list) gomap \<Rightarrow> (string, ServiceMeta list) gomap" where
  "load_hosts s [] m = m"
| "load_hosts s (hp # hps) m =
     (let uri = BuildServiceUri (ls_ServiceUri s) (ls_GroupId s);
          ss = (case map_of m uri of Some x \<Rightarrow> x | None \<Rightarrow> []);
          s' = (if length (ls_ProtoVersion s) \<le> 0 then s\<lparr>ls_ProtoVersion := PROTOCOL\<rparr> else s)
      in load_hosts s' hps
           (AList.update uri
              (ss @ [\<lparr>sm_ServiceUri = ls_ServiceUri s', sm_GroupId = ls_GroupId s', sm_HostPort = hp,
                      sm_ProtoVersion = ls_ProtoVersion s', sm_IsPre = ls_IsPre s'\<rparr>]) m))"

definition load_services :: "LocalService list \<Rightarrow> (string, ServiceMeta list) gomap \<Rightarrow> (string, ServiceMeta list) gomap" where
  "load_services ss m = fold (\<lambda>s. load_hosts s (ls_HostPorts s)) ss m"

definition NewFileRegistry :: "(string \<Rightarrow> string + string) \<Rightarrow> (string \<Rightarrow> string + LocalService list)
    \<Rightarrow> string \<Rightarrow> string list \<Rightarrow> bool \<Rightarrow> FileRegistry go" where
  "NewFileRegistry read_file yaml yamlPath service serverModel =
     (let zoo = \<lparr>fr_service = service, fr_uri2Services = [], fr_serverModel = serverModel\<rparr> in
      if \<not> serverModel then
        (case read_file yamlPath of
           Inl err \<Rightarrow> Panic err
         | Inr rawYaml \<Rightarrow>
             (case yaml rawYaml of
                Inl err \<Rightarrow> Panic err
              | Inr clusters \<Rightarrow> Ret (zoo\<lparr>fr_uri2Services := load_services clusters []\<rparr>)))
      else Ret zoo)"

definition file_PullChildrenData :: "string \<Rightarrow> string \<Rightarrow> string list \<Rightarrow> FileRegistry \<Rightarrow> string + ServiceMeta list" where
  "file_PullChildrenData pathPrefix uri hosts r =
     Inr (case map_of (fr_uri2Services r) uri of
            None \<Rightarrow> []
          | Some ss \<Rightarrow> concat (map (\<lambda>s. concat (map (\<lambda>host. if HasPrefix (sm_HostPort s) host then [s] else []) (sort hosts))) ss))"

definition file_RegisteService :: "string \<Rightarrow> string \<Rightarrow> string \<Rightarrow> string \<Rightarrow> ServiceMeta \<Rightarrow> FileRegistry \<Rightarrow> bool go \<times> FileRegistry" where
  "file_RegisteService serviceUri hostport protoType groupId s r = (Ret True, r)"

definition file_UnRegisteService :: "string \<Rightarrow> string \<Rightarrow> string \<Rightarrow> string \<Rightarrow> FileRegistry \<Rightarrow> bool go \<times> FileRegistry" where
  "file_UnRegisteService serviceUri hostport protoType groupId r = (Ret True, r)"

definition no_hosts :: "string \<Rightarrow> string \<Rightarrow> string" where
  "no_hosts protoType serviceUri = Sprintf ''No Hosts! /moa/service/%s%s'' [FStr protoType, FStr serviceUri]"

definition file_GetService :: "string \<Rightarrow> string \<Rightarrow> string \<Rightarrow> FileRegistry \<Rightarrow> (string + ServiceMeta list) go" where
  "file_GetService serviceUri protoType groupId r =
     (let found = map_of (fr_uri2Services r) (BuildServiceUri serviceUri groupId);
          hosts = (case found of Some x \<Rightarrow> x | None \<Rightarrow> [])
      in if found = None \<and> length hosts < 1 then Ret (Inl (no_hosts protoType serviceUri))
         else
           (let validMetas = filter (\<lambda>h. sm_ProtoVersion h = protoType) hosts in
            if length validMetas < 1 then Ret (Inl (no_hosts protoType serviceUri)) else Ret (Inr validMetas)))"

definition file_OnSessionExpired :: "FileRegistry \<Rightarrow> FileRegistry" where "file_OnSessionExpired r = r"

definition file_NodeChange :: "string \<Rightarrow> string list \<Rightarrow> FileRegistry \<Rightarrow> FileRegistry" where
  "file_NodeChange path addrs r = r"

definition file_Destroy :: "FileRegistry \<Rightarrow> FileRegistry" where "file_Destroy r = r"

interpretation file_registry: registry file_RegisteService file_UnRegisteService file_GetService
  by unfold_locales (simp_all add: file_RegisteService_def file_UnRegisteService_def)

section \<open>What the file publishes\<close>

text \<open>The protocol version of an entry, defaulted; the entries of a file under a URI, in file order.\<close>

definition proto_of :: "LocalService \<Rightarrow> string" where
  "proto_of s = (if ls_ProtoVersion s = [] then PROTOCOL else ls_ProtoVersion s)"

definition metas_of :: "LocalService \<Rightarrow> ServiceMeta list" where
  "metas_of s = map (\<lambda>hp. \<lparr>sm_ServiceUri = ls_ServiceUri s, sm_GroupId = ls_GroupId s, sm_HostPort = hp,
     sm_ProtoVersion = proto_of s, sm_IsPre = ls_IsPre s\<rparr>) (ls_HostPorts s)"

definition published :: "LocalService list \<Rightarrow> string \<Rightarrow> ServiceMeta list" where
  "published clusters uri =
     concat (map metas_of (filter (\<lambda>s. BuildServiceUri (ls_ServiceUri s) (ls_GroupId s) = uri) clusters))"

definition entry :: "(string, ServiceMeta list) gomap \<Rightarrow> string \<Rightarrow> ServiceMeta list" where
  "entry m uri = (case map_of m uri of Some x \<Rightarrow> x | None \<Rightarrow> [])"

lemma entry_simps [simp]: "entry [] uri = []" "entry (AList.update u x m) uri = (if u = uri then x else entry m uri)"
  by (simp_all add: entry_def map_simps)

lemma entry_load_hosts:
  "entry (load_hosts s hps m) uri = entry m uri @
     (if BuildServiceUri (ls_ServiceUri s) (ls_GroupId s) = uri then metas_of (s\<lparr>ls_HostPorts := hps\<rparr>) else [])"
proof (induction hps arbitrary: s m)
  case (Cons hp hps)
  show ?case by (simp add: Let_def Cons.IH metas_of_def proto_of_def flip: entry_def)
qed (simp add: metas_of_def)

lemma entry_load_services: "entry (load_services ss m) uri = entry m uri @ published ss uri"
  unfolding load_services_def
  by (induction ss arbitrary: m) (simp_all add: entry_load_hosts published_def)

lemma file_GetService_entry:
  "file_GetService u p g r =
     (let l = filter (\<lambda>h. sm_ProtoVersion h = p) (entry (fr_uri2Services r) (BuildServiceUri u g)) in
      Ret (if l = [] then Inl (no_hosts p u) else Inr l))"
  by (auto simp: file_GetService_def entry_def Let_def split: option.split)

text \<open>
  C37: A client that reads its services from a file is answered, for a service, version and group,
  exactly the addresses the file lists under that service and group with that version (\<^verbatim>\<open>v1\<close> where
  the file names none), in the file's order, and an error when there are none; a server's file
  registry publishes nothing.
\<close>

theorem file_registry_answers:
  assumes new: "NewFileRegistry read_file yaml path uris server = Ret r"
  shows "\<exists>l. l = (if server then [] else
          (case read_file path of Inl e \<Rightarrow> [] | Inr raw \<Rightarrow>
             (case yaml raw of Inl e \<Rightarrow> [] | Inr clusters \<Rightarrow>
                filter (\<lambda>h. sm_ProtoVersion h = p) (published clusters (BuildServiceUri u g)))))
    \<and> file_GetService u p g r = Ret (if l = [] then Inl (''No Hosts! /moa/service/'' @ p @ u) else Inr l)"
  using new
  by (auto simp: NewFileRegistry_def file_GetService_entry entry_load_services no_hosts_def Let_def
      split: sum.splits if_splits)

definition demo_cluster :: LocalService where
  "demo_cluster = \<lparr>ls_ServiceUri = ''/service/lookup'', ls_GroupId = ''*'', ls_ProtoVersion = [], ls_IsPre = False,
     ls_HostPorts = [''10.0.0.1:13000'', ''10.0.0.2:13000'']\<rparr>"

theorem file_registry_answers_witness:
  "\<exists>r. NewFileRegistry (\<lambda>_. Inr ''clusters: ...'') (\<lambda>_. Inr [demo_cluster]) ''/conf/a.yaml'' [] False = Ret r
     \<and> (\<exists>l. file_GetService ''/service/lookup'' ''v1'' ''*'' r = Ret (Inr l) \<and> map sm_HostPort l = [''10.0.0.1:13000'', ''10.0.0.2:13000''])"
proof -
  obtain r where r: "NewFileRegistry (\<lambda>_. Inr ''clusters: ...'') (\<lambda>_. Inr [demo_cluster]) ''/conf/a.yaml'' [] False = Ret r"
    by (simp add: NewFileRegistry_def)
  show ?thesis
    using r file_registry_answers [OF r, of "''v1''" "''/service/lookup''" "''*''"]
    by (auto simp: published_def metas_of_def proto_of_def demo_cluster_def BuildServiceUri_def PROTOCOL_def)
qed

end
