(* ===== verification/Moa_Zk.thy ===== *)
theory Moa_Zk
  imports Moa_Registry
begin

text \<open>
  The zookeeper manager of \<^verbatim>\<open>zk.go\<close>. The zookeeper client is a package outside the repository: its
  operations are the fields of \<open>zk_ops\<close>, functions on the state \<open>'z\<close> of the connection and the server
  behind it, each with the results the program looks at. Every node is created with the same access
  list, which is left out.
\<close>

record 'z zk_ops =
  zk_Connect :: "string list \<Rightarrow> 'z \<Rightarrow> string option \<times> 'z"              \<comment> \<open>the error, if any\<close>
  zk_Exists :: "string \<Rightarrow> 'z \<Rightarrow> (string + bool) \<times> 'z"
  zk_ExistsW :: "string \<Rightarrow> 'z \<Rightarrow> 'z"                                     \<comment> \<open>results not used\<close>
  zk_Create :: "string \<Rightarrow> string option \<Rightarrow> bool \<Rightarrow> 'z \<Rightarrow> (string + string) \<times> 'z" \<comment> \<open>path, data, ephemeral\<close>
  zk_Delete :: "string \<Rightarrow> int \<Rightarrow> 'z \<Rightarrow> string option \<times> 'z"
  zk_ChildrenW :: "string \<Rightarrow> 'z \<Rightarrow> (string + string list) \<times> 'z"
  zk_GetW :: "string \<Rightarrow> 'z \<Rightarrow> (string + string) \<times> 'z"
  zk_Close :: "'z \<Rightarrow> 'z"

section \<open>The manager\<close>

text \<open>
  \<open>'w\<close> is the type of the watchers, references to objects that implement \<^verbatim>\<open>IWatcher\<close>. The session is
  the connection state itself; the event channel is the list of events given to \<open>listenEvent\<close>.
\<close>

record 'w ZKManager =
  zkhosts :: string
  wathcers :: "(string, 'w) gomap"
  isClose :: bool

datatype EventType = EventSession | EventNodeCreated | EventNodeDeleted | EventNodeDataChanged
  | EventNodeChildrenChanged | EventNotWatching

datatype zk_state_kind = StateExpired | StateDisconnected | StateOther

record zk_event =
  ev_Type :: EventType
  ev_State :: zk_state_kind
  ev_Path :: string

text \<open>The event types a watcher is told, and the conversion of the client's event types to them.\<close>

definition Created :: int where "Created = 1"
definition Deleted :: int where "Deleted = 2"
definition Changed :: int where "Changed = 3"
definition Child :: int where "Child = 4"

primrec ZkEvent :: "EventType \<Rightarrow> int" where
  "ZkEvent EventNodeCreated = Created"
| "ZkEvent EventNodeDeleted = Deleted"
| "ZkEvent EventNodeDataChanged = Changed"
| "ZkEvent EventNodeChildrenChanged = Child"
| "ZkEvent EventSession = - 1"
| "ZkEvent EventNotWatching = - 2"

text \<open>The message of a failed connection (UTF-8) before the error's text.\<close>

definition connect_failed :: string where
  "connect_failed = [CHR 0xE8, CHR 0xBF, CHR 0x9E, CHR 0xE6, CHR 0x8E, CHR 0xA5] @ ''zk''
     @ [CHR 0xE5, CHR 0xA4, CHR 0xB1, CHR 0xE8, CHR 0xB4, CHR 0xA5] @ ''...''"

text \<open>The loop of \<^verbatim>\<open>CreateNode\<close> over the parts of the path; \<open>absPath\<close> is \<^verbatim>\<open>absolutePath\<close>.\<close>

fun create_loop :: "'z zk_ops \<Rightarrow> string \<Rightarrow> string list \<Rightarrow> string \<Rightarrow> 'z \<Rightarrow> string option go \<times> 'z" where
  "create_loop Z servicePath [] absPath z = (Ret None, z)"
| "create_loop Z servicePath (path # ps) absPath z =
     (if length path < 1 \<or> path = ZK_ROOT then create_loop Z servicePath ps absPath z
      else
        (let absPath = (if \<not> HasSuffix absPath ZK_PATH_DELIMITER then concat_go [absPath, ZK_PATH_DELIMITER] else absPath);
             absPath = concat_go [absPath, path]
         in case zk_Exists Z absPath z of
              (Inl err, z) \<Rightarrow> (Ret (Some err), z)
            | (Inr True, z) \<Rightarrow> create_loop Z servicePath ps absPath z
            | (Inr False, z) \<Rightarrow>
                (case zk_Create Z absPath (Some []) False z of
                   (Inl err, z) \<Rightarrow> (Panic (''NewZKManager|CreateNode|FAIL|'' @ servicePath), zk_Close Z z)
                 | (Inr resp, z) \<Rightarrow> create_loop Z servicePath ps absPath z)))"

definition CreateNode :: "'z zk_ops \<Rightarrow> string \<Rightarrow> 'z \<Rightarrow> string option go \<times> 'z" where
  "CreateNode Z servicePath z = create_loop Z servicePath (Split CHR ''/'' servicePath) ZK_ROOT z"

text \<open>The error of \<^verbatim>\<open>CreateNode\<close> is not looked at here; its panic is not recovered.\<close>

definition ZK_Start :: "'z zk_ops \<Rightarrow> 'w ZKManager \<Rightarrow> 'z \<Rightarrow> 'w ZKManager go \<times> 'z" where
  "ZK_Start Z m z =
     (let m = (if length (zkhosts m) \<le> 0 then m\<lparr>zkhosts := ''localhost:2181''\<rparr> else m) in
      case zk_Connect Z (Split CHR '','' (zkhosts m)) z of
        (Some err, z) \<Rightarrow> (Panic (connect_failed @ err), z)
      | (None, z) \<Rightarrow>
          (case CreateNode Z (ZK_MOA_ROOT_PATH @ ZK_PATH_DELIMITER @ PROTOCOL) z of
             (Panic e, z) \<Rightarrow> (Panic e, z)
           | (Ret err, z) \<Rightarrow> (Ret (m\<lparr>isClose := False\<rparr>), z)))"

definition NewZKManager :: "'z zk_ops \<Rightarrow> string \<Rightarrow> 'z \<Rightarrow> 'w ZKManager go \<times> 'z" where
  "NewZKManager Z hosts z = ZK_Start Z \<lparr>zkhosts = hosts, wathcers = [], isClose = False\<rparr> z"

definition RegisteWatcher :: "string \<Rightarrow> 'w \<Rightarrow> 'w ZKManager \<Rightarrow> bool \<times> 'w ZKManager" where
  "RegisteWatcher rootpath w m =
     (case map_of (wathcers m) rootpath of
        Some _ \<Rightarrow> (False, m)
      | None \<Rightarrow> (True, m\<lparr>wathcers := AList.update rootpath w (wathcers m)\<rparr>))"

definition ZK_Close :: "'z zk_ops \<Rightarrow> 'w ZKManager \<Rightarrow> 'z \<Rightarrow> 'w ZKManager \<times> 'z" where
  "ZK_Close Z m z = (m\<lparr>isClose := True\<rparr>, zk_Close Z z)"

section \<open>Events\<close>

text \<open>
  The watchers' methods work on the whole state \<open>'s\<close> (their registry, the manager, the connection),
  of which \<open>manager\<close> reads the manager and \<open>on_conn\<close> runs a client operation. A panic leaves the
  loop: the goroutine has no recovery.
\<close>

record ('w, 's) IWatcher =
  OnSessionExpired :: "'w \<Rightarrow> 's \<Rightarrow> unit go \<times> 's"
  NodeChange :: "'w \<Rightarrow> string \<Rightarrow> int \<Rightarrow> string list \<Rightarrow> 's \<Rightarrow> unit go \<times> 's"

definition find_watcher :: "string \<Rightarrow> (string, 'w) gomap \<Rightarrow> 'w option" where
  "find_watcher path ws = map_option snd (find (\<lambda>(k, w). Contains path k) ws)"

fun expire_all :: "('w, 's) IWatcher \<Rightarrow> 'w list \<Rightarrow> 's \<Rightarrow> unit go \<times> 's" where
  "expire_all W [] s = (Ret (), s)"
| "expire_all W (w # ws) s =
     (case OnSessionExpired W w s of (Panic e, s) \<Rightarrow> (Panic e, s) | (Ret u, s) \<Rightarrow> expire_all W ws s)"

definition handle_event :: "('w, 's) IWatcher \<Rightarrow> ('s \<Rightarrow> 'w ZKManager)
    \<Rightarrow> (string \<Rightarrow> 's \<Rightarrow> 's) \<Rightarrow> (string \<Rightarrow> 's \<Rightarrow> (string + string list) \<times> 's) \<Rightarrow> zk_event \<Rightarrow> 's \<Rightarrow> unit go \<times> 's" where
  "handle_event W manager existsW childrenW change s =
     (let path = ev_Path change in
      case find_watcher path (wathcers (manager s)) of
        None \<Rightarrow> (Ret (), s)
      | Some watcher \<Rightarrow>
          (case ev_Type change of
             EventSession \<Rightarrow>
               if ev_State change = StateExpired \<or> ev_State change = StateDisconnected
               then expire_all W (map snd (wathcers (manager s))) s
               else (Ret (), s)
           | EventNodeDeleted \<Rightarrow> NodeChange W watcher path (ZkEvent (ev_Type change)) [] (existsW path s)
           | EventNodeCreated \<Rightarrow>
               (case childrenW path s of
                  (Inl err, s) \<Rightarrow> (Ret (), s)
                | (Inr childnodes, s) \<Rightarrow> NodeChange W watcher path (ZkEvent (ev_Type change)) childnodes s)
           | EventNodeChildrenChanged \<Rightarrow>
               (case childrenW path s of
                  (Inl err, s) \<Rightarrow> (Ret (), s)
                | (Inr childnodes, s) \<Rightarrow> NodeChange W watcher path (ZkEvent (ev_Type change)) childnodes s)
           | _ \<Rightarrow> (Ret (), s)))"

text \<open>
  The loop over the events the channel delivers; \<^verbatim>\<open>isClose\<close> is looked at before each event. Between two
  events the rest of the program may change the state: each event comes with the change made since
  the one before (\<open>id\<close> when there is none).
\<close>

fun listenEvent :: "('w, 's) IWatcher \<Rightarrow> ('s \<Rightarrow> 'w ZKManager)
    \<Rightarrow> (string \<Rightarrow> 's \<Rightarrow> 's) \<Rightarrow> (string \<Rightarrow> 's \<Rightarrow> (string + string list) \<times> 's)
    \<Rightarrow> (('s \<Rightarrow> 's) \<times> zk_event) list \<Rightarrow> 's \<Rightarrow> unit go \<times> 's" where
  "listenEvent W manager existsW childrenW [] s = (Ret (), s)"
| "listenEvent W manager existsW childrenW ((others, change) # es) s =
     (if isClose (manager s) then (Ret (), s)
      else (case handle_event W manager existsW childrenW change (others s) of
              (Panic e, s) \<Rightarrow> (Panic e, s)
            | (Ret u, s) \<Rightarrow> listenEvent W manager existsW childrenW es s))"

end
