(* ===== verification/Moa_Zk_Registry.thy ===== *)
theory Moa_Zk_Registry
  imports Moa_Zk
begin

text \<open>
  The zookeeper registry of \<^verbatim>\<open>registry_zk.go\<close>: the server publishes a node per service and address
  whose data is the JSON of its \<^verbatim>\<open>ServiceMeta\<close>; a client caches, per service, what it pulled from the
  children of the service's node, and pulls again when it is told that they changed. Its lock is not
  modelled: every operation is one step.
\<close>

record ZkRegistry =
  zr_service :: "string list"
  zr_uri2Services :: "(string, ServiceMeta list) gomap"
  zr_serverModel :: bool

text \<open>
  The only watcher the program registers is the registry itself. The whole state: the registry, its
  manager, and the connection.
\<close>

datatype watcher = WatchRegistry

record 'z zk_sys =
  zs_registry :: ZkRegistry
  zs_manager :: "watcher ZKManager"
  zs_conn :: 'z

definition on_conn :: "('z \<Rightarrow> 'r \<times> 'z) \<Rightarrow> 'z zk_sys \<Rightarrow> 'r \<times> 'z zk_sys" where
  "on_conn f s = (case f (zs_conn s) of (r, z) \<Rightarrow> (r, s\<lparr>zs_conn := z\<rparr>))"

definition service_path :: "string \<Rightarrow> string" where
  "service_path uri = concat_go [ZK_MOA_ROOT_PATH, ZK_PATH_DELIMITER, PROTOCOL, uri]"

section \<open>Pulling\<close>

definition old_meta :: "string \<Rightarrow> string \<Rightarrow> ServiceMeta" where
  "old_meta uri host =
     (case UnwrapServiceUri uri of (serviceUri, groupid) \<Rightarrow>
        \<lparr>sm_ServiceUri = serviceUri, sm_GroupId = groupid, sm_HostPort = host, sm_ProtoVersion = PROTOCOL, sm_IsPre = False\<rparr>)"

definition node_meta :: "string \<Rightarrow> string \<Rightarrow> string + string \<Rightarrow> ServiceMeta" where
  "node_meta uri host raw =
     (case raw of
        Inl err \<Rightarrow> old_meta uri host
      | Inr rawNode \<Rightarrow>
          if 0 < length rawNode then
            (case ServiceMeta_unmarshal rawNode of Some meta \<Rightarrow> meta | None \<Rightarrow> old_meta uri host)
          else old_meta uri host)"

fun pull_loop :: "'z zk_ops \<Rightarrow> string \<Rightarrow> string \<Rightarrow> string list \<Rightarrow> 'z \<Rightarrow> ServiceMeta list \<times> 'z" where
  "pull_loop Z pathPrefix uri [] z = ([], z)"
| "pull_loop Z pathPrefix uri (host # hosts) z =
     (case zk_GetW Z (Sprintf ''%s%s%s'' [FStr pathPrefix, FStr ZK_PATH_DELIMITER, FStr host]) z of
        (raw, z) \<Rightarrow>
          (case pull_loop Z pathPrefix uri hosts z of (metas, z) \<Rightarrow> (node_meta uri host raw # metas, z)))"

text \<open>The error result of \<^verbatim>\<open>PullChildrenData\<close> is always nil.\<close>

definition PullChildrenData :: "'z zk_ops \<Rightarrow> string \<Rightarrow> string \<Rightarrow> string list \<Rightarrow> 'z \<Rightarrow> (string + ServiceMeta list) \<times> 'z" where
  "PullChildrenData Z pathPrefix uri hosts z = apfst Inr (pull_loop Z pathPrefix uri (sort hosts) z)"

section \<open>NewZkRegistry\<close>

text \<open>
  A client registers itself as the watcher of each service's path, lists its addresses and pulls
  them; a listing that fails leaves the service out of the cache.
\<close>

fun subscribe_loop :: "'z zk_ops \<Rightarrow> string list \<Rightarrow> 'z zk_sys \<Rightarrow> 'z zk_sys" where
  "subscribe_loop Z [] s = s"
| "subscribe_loop Z (uri # uris) s =
     (let servicePath = service_path uri;
          s = s\<lparr>zs_manager := snd (RegisteWatcher servicePath WatchRegistry (zs_manager s))\<rparr>
      in case on_conn (zk_ChildrenW Z servicePath) s of
           (Inl err, s) \<Rightarrow> subscribe_loop Z uris s
         | (Inr hosts, s) \<Rightarrow>
             (case on_conn (PullChildrenData Z servicePath uri hosts) s of
                (Inl err, s) \<Rightarrow> subscribe_loop Z uris s
              | (Inr services, s) \<Rightarrow>
                  subscribe_loop Z uris
                    (s\<lparr>zs_registry := (zs_registry s)\<lparr>zr_uri2Services := AList.update uri services (zr_uri2Services (zs_registry s))\<rparr>\<rparr>)))"

definition NewZkRegistry :: "'z zk_ops \<Rightarrow> string \<Rightarrow> string list \<Rightarrow> bool \<Rightarrow> 'z \<Rightarrow> 'z zk_sys go \<times> 'z" where
  "NewZkRegistry Z regAddr service serverModel z =
     (case NewZKManager Z regAddr z of
        (Panic e, z) \<Rightarrow> (Panic e, z)
      | (Ret m, z) \<Rightarrow>
          (let s = \<lparr>zs_registry = \<lparr>zr_service = service, zr_uri2Services = [], zr_serverModel = serverModel\<rparr>,
                    zs_manager = m, zs_conn = z\<rparr>;
               s = (if \<not> serverModel then subscribe_loop Z service s
                    else s\<lparr>zs_manager := snd (RegisteWatcher ZK_MOA_ROOT_PATH WatchRegistry (zs_manager s))\<rparr>)
           in (Ret s, zs_conn s)))"

section \<open>Publishing\<close>

text \<open>``cannot create'', in UTF-8.\<close>

definition cannot_create :: string where
  "cannot_create = [CHR 0xE6, CHR 0x97, CHR 0xA0, CHR 0xE6, CHR 0xB3, CHR 0x95, CHR 0xE5, CHR 0x88, CHR 0x9B,
     CHR 0xE5, CHR 0xBB, CHR 0xBA]"

definition publish_path :: "string \<Rightarrow> string \<Rightarrow> string \<Rightarrow> string" where
  "publish_path protoType serviceUri groupId =
     concat_go [concat_go [ZK_MOA_ROOT_PATH, ZK_PATH_DELIMITER, protoType], BuildServiceUri serviceUri groupId]"

definition registe_failed :: "string \<Rightarrow> string \<Rightarrow> string" where
  "registe_failed path err = ''NewZkRegistry|RegisteService|FAIL|'' @ path @ ''|'' @ err"

definition publish_node :: "'z zk_ops \<Rightarrow> string \<Rightarrow> ServiceMeta \<Rightarrow> 'z \<Rightarrow> bool go \<times> 'z" where
  "publish_node Z svAddrPath s z =
     (case zk_Delete Z svAddrPath 0 z of (ignored, z) \<Rightarrow>
        (case zk_Create Z svAddrPath (Some (ServiceMeta_marshal s)) True z of
           (Inl err, z) \<Rightarrow> (Panic (registe_failed svAddrPath err), z)
         | (Inr resp, z) \<Rightarrow> (Ret True, z)))"

definition zk_publish :: "'z zk_ops \<Rightarrow> string \<Rightarrow> string \<Rightarrow> string \<Rightarrow> string \<Rightarrow> ServiceMeta \<Rightarrow> 'z \<Rightarrow> bool go \<times> 'z" where
  "zk_publish Z serviceUri hostport protoType groupId s z =
     (let servicePath = publish_path protoType serviceUri groupId;
          svAddrPath = concat_go [servicePath, ZK_PATH_DELIMITER, hostport]
      in case zk_Exists Z servicePath z of
           (Inl err, z) \<Rightarrow> (Panic (cannot_create @ servicePath @ err), zk_Close Z z)
         | (Inr True, z) \<Rightarrow> publish_node Z svAddrPath s z
         | (Inr False, z) \<Rightarrow>
             (case CreateNode Z servicePath z of
                (Panic e, z) \<Rightarrow> (Panic e, z)
              | (Ret (Some err), z) \<Rightarrow> (Panic (registe_failed servicePath err), z)
              | (Ret None, z) \<Rightarrow> publish_node Z svAddrPath s z))"

definition zk_RegisteService :: "'z zk_ops \<Rightarrow> string \<Rightarrow> string \<Rightarrow> string \<Rightarrow> string \<Rightarrow> ServiceMeta
    \<Rightarrow> 'z zk_sys \<Rightarrow> bool go \<times> 'z zk_sys" where
  "zk_RegisteService Z serviceUri hostport protoType groupId m =
     on_conn (zk_publish Z serviceUri hostport protoType groupId m)"

definition zk_unpublish :: "'z zk_ops \<Rightarrow> string \<Rightarrow> string \<Rightarrow> string \<Rightarrow> string \<Rightarrow> 'z \<Rightarrow> bool go \<times> 'z" where
  "zk_unpublish Z serviceUri hostport protoType groupId z =
     (let servicePath = concat_go [concat_go [ZK_MOA_ROOT_PATH, ZK_PATH_DELIMITER, protoType],
            BuildServiceUri serviceUri groupId, ZK_PATH_DELIMITER, hostport]
      in case zk_Exists Z servicePath z of
           (Inl err, z) \<Rightarrow> (Ret False, z)
         | (Inr False, z) \<Rightarrow> (Ret True, z)
         | (Inr True, z) \<Rightarrow>
             (case zk_Delete Z servicePath 0 z of
                (Some err, z) \<Rightarrow> (Ret False, z)
              | (None, z) \<Rightarrow> (Ret True, z)))"

definition zk_UnRegisteService :: "'z zk_ops \<Rightarrow> string \<Rightarrow> string \<Rightarrow> string \<Rightarrow> string \<Rightarrow> 'z zk_sys \<Rightarrow> bool go \<times> 'z zk_sys" where
  "zk_UnRegisteService Z serviceUri hostport protoType groupId =
     on_conn (zk_unpublish Z serviceUri hostport protoType groupId)"

section \<open>Reading and watching\<close>

definition zk_GetService :: "string \<Rightarrow> string \<Rightarrow> string \<Rightarrow> 'z zk_sys \<Rightarrow> (string + ServiceMeta list) go" where
  "zk_GetService serviceUri protoType groupId s =
     (let found = map_of (zr_uri2Services (zs_registry s)) (BuildServiceUri serviceUri groupId);
          hosts = (case found of Some x \<Rightarrow> x | None \<Rightarrow> [])
      in if found = None \<and> length hosts < 1
         then Ret (Inl (Sprintf ''No Hosts! /moa/service/%s%s'' [FStr protoType, FStr serviceUri]))
         else Ret (Inr hosts))"

text \<open>A server publishes what is in its cache again, with no data; a client lists its services' children again.\<close>

fun resub_nodes :: "'z zk_ops \<Rightarrow> string list \<Rightarrow> 'z \<Rightarrow> unit go \<times> 'z" where
  "resub_nodes Z [] z = (Ret (), z)"
| "resub_nodes Z (svAddrPath # ps) z =
     (case zk_Delete Z svAddrPath 0 z of (ignored, z) \<Rightarrow>
        (case zk_Create Z svAddrPath None True z of
           (Inl err, z) \<Rightarrow> (Panic (''ReSubZkServer|FAIL|'' @ svAddrPath @ ''|'' @ err), z)
         | (Inr resp, z) \<Rightarrow> resub_nodes Z ps z))"

definition cached_paths :: "(string, ServiceMeta list) gomap \<Rightarrow> string list" where
  "cached_paths m = concat (map (\<lambda>(uri, metas). map (\<lambda>s. concat_go [service_path uri, ZK_PATH_DELIMITER, sm_HostPort s]) metas) m)"

fun resub_children :: "'z zk_ops \<Rightarrow> string list \<Rightarrow> 'z \<Rightarrow> 'z" where
  "resub_children Z [] z = z"
| "resub_children Z (uri # uris) z = resub_children Z uris (snd (zk_ChildrenW Z (service_path uri) z))"

definition zk_OnSessionExpired :: "'z zk_ops \<Rightarrow> 'z zk_sys \<Rightarrow> unit go \<times> 'z zk_sys" where
  "zk_OnSessionExpired Z s =
     (if zr_serverModel (zs_registry s)
      then on_conn (resub_nodes Z (cached_paths (zr_uri2Services (zs_registry s)))) s
      else on_conn (\<lambda>z. (Ret (), resub_children Z (zr_service (zs_registry s)) z)) s)"

text \<open>
  The regular expression matches the literal \<^verbatim>\<open>/moa/service/v1\<close> anywhere in the path and takes the run
  of characters after it that are not white space; without a match the code indexes an empty slice.
\<close>

definition is_space :: "char \<Rightarrow> bool" where
  "is_space c \<longleftrightarrow> c \<in> {CHR '' '', CHR 0x09, CHR 0x0A, CHR 0x0C, CHR 0x0D}"

definition path_uri :: "string \<Rightarrow> string go" where
  "path_uri path =
     (case after_first ''/moa/service/v1'' path of
        None \<Rightarrow> Panic index_panic
      | Some rest \<Rightarrow> Ret (takeWhile (\<lambda>c. \<not> is_space c) rest))"

text \<open>The loop that compares the cached addresses with the new ones: true when it found no reason to skip the update.\<close>

fun compare_loop :: "ServiceMeta list \<Rightarrow> nat \<Rightarrow> nat \<Rightarrow> string list \<Rightarrow> bool" where
  "compare_loop oldAddrs n j [] = True"
| "compare_loop oldAddrs n j (v # addrs) =
     (if sm_HostPort (oldAddrs ! j) = v \<and> j = n - 1 then False else compare_loop oldAddrs n (Suc j) addrs)"

definition need_change :: "ServiceMeta list option \<Rightarrow> string list \<Rightarrow> bool" where
  "need_change found addrs =
     (case found of
        None \<Rightarrow> True
      | Some oldAddrs \<Rightarrow>
          if 0 < length oldAddrs \<and> length oldAddrs = length addrs
          then compare_loop oldAddrs (length addrs) 0 addrs else True)"

definition zk_NodeChange :: "'z zk_ops \<Rightarrow> string \<Rightarrow> int \<Rightarrow> string list \<Rightarrow> 'z zk_sys \<Rightarrow> unit go \<times> 'z zk_sys" where
  "zk_NodeChange Z path eventType addrs s =
     (case path_uri path of
        Panic e \<Rightarrow> (Panic e, s)
      | Ret uri \<Rightarrow>
          (let addrs = sort addrs in
           if need_change (map_of (zr_uri2Services (zs_registry s)) uri) addrs then
             (case on_conn (PullChildrenData Z path uri addrs) s of
                (Inl err, s) \<Rightarrow> (Ret (), s)
              | (Inr serviceMeta, s) \<Rightarrow>
                  (Ret (), s\<lparr>zs_registry := (zs_registry s)\<lparr>zr_uri2Services := AList.update uri serviceMeta (zr_uri2Services (zs_registry s))\<rparr>\<rparr>))
           else (Ret (), s)))"

definition zk_Destroy :: "'z zk_ops \<Rightarrow> 'z zk_sys \<Rightarrow> 'z zk_sys" where
  "zk_Destroy Z s = (case ZK_Close Z (zs_manager s) (zs_conn s) of (m, z) \<Rightarrow> s\<lparr>zs_manager := m, zs_conn := z\<rparr>)"

text \<open>The registry as the watcher of its manager's events.\<close>

definition registry_watcher :: "'z zk_ops \<Rightarrow> (watcher, 'z zk_sys) IWatcher" where
  "registry_watcher Z = \<lparr>OnSessionExpired = (\<lambda>w. zk_OnSessionExpired Z), NodeChange = (\<lambda>w. zk_NodeChange Z)\<rparr>"

definition zk_listen :: "'z zk_ops \<Rightarrow> (('z zk_sys \<Rightarrow> 'z zk_sys) \<times> zk_event) list \<Rightarrow> 'z zk_sys \<Rightarrow> unit go \<times> 'z zk_sys" where
  "zk_listen Z = listenEvent (registry_watcher Z) zs_manager
     (\<lambda>path s. s\<lparr>zs_conn := zk_ExistsW Z path (zs_conn s)\<rparr>) (\<lambda>path. on_conn (zk_ChildrenW Z path))"

interpretation zk_registry: registry "zk_RegisteService Z" "zk_UnRegisteService Z" zk_GetService for Z :: "'z zk_ops"
proof unfold_locales
  fix u hp p g m and s :: "'z zk_sys"
  show "fst (zk_RegisteService Z u hp p g m s) \<noteq> Ret False"
    by (auto simp: zk_RegisteService_def on_conn_def zk_publish_def publish_node_def Let_def
        split: prod.split sum.split bool.split go.split option.split)
qed (simp_all add: zk_RegisteService_def zk_UnRegisteService_def zk_GetService_def on_conn_def Let_def split: prod.split)

end
