(* ===== verification/Moa_Config_Center.thy ===== *)
theory Moa_Config_Center
  imports Moa_Proxy Moa_File_Registry Moa_Zk_Registry
begin

text \<open>
  The \<^verbatim>\<open>ConfigCenter\<close> of \<^verbatim>\<open>registry.go\<close>: it chooses a registry by the scheme of its address and
  publishes every service of the server in it. The registry it holds is an interface value: nil, a
  file registry, or a zookeeper registry; a method called on nil panics.
\<close>

datatype 'z registry_val = NilReg | FileReg FileRegistry | ZkReg "'z zk_sys"

definition reg_RegisteService :: "'z zk_ops \<Rightarrow> string \<Rightarrow> string \<Rightarrow> string \<Rightarrow> string \<Rightarrow> ServiceMeta
    \<Rightarrow> 'z registry_val \<Rightarrow> bool go \<times> 'z registry_val" where
  "reg_RegisteService Z u hp p g m r =
     (case r of
        NilReg \<Rightarrow> (Panic nil_deref, r)
      | FileReg f \<Rightarrow> apsnd FileReg (file_RegisteService u hp p g m f)
      | ZkReg s \<Rightarrow> apsnd ZkReg (zk_RegisteService Z u hp p g m s))"

definition reg_UnRegisteService :: "'z zk_ops \<Rightarrow> string \<Rightarrow> string \<Rightarrow> string \<Rightarrow> string
    \<Rightarrow> 'z registry_val \<Rightarrow> bool go \<times> 'z registry_val" where
  "reg_UnRegisteService Z u hp p g r =
     (case r of
        NilReg \<Rightarrow> (Panic nil_deref, r)
      | FileReg f \<Rightarrow> apsnd FileReg (file_UnRegisteService u hp p g f)
      | ZkReg s \<Rightarrow> apsnd ZkReg (zk_UnRegisteService Z u hp p g s))"

definition reg_GetService :: "string \<Rightarrow> string \<Rightarrow> string \<Rightarrow> 'z registry_val \<Rightarrow> (string + ServiceMeta list) go" where
  "reg_GetService u p g r =
     (case r of
        NilReg \<Rightarrow> Panic nil_deref
      | FileReg f \<Rightarrow> file_GetService u p g f
      | ZkReg s \<Rightarrow> zk_GetService u p g s)"

definition reg_Destroy :: "'z zk_ops \<Rightarrow> 'z registry_val \<Rightarrow> unit go \<times> 'z registry_val" where
  "reg_Destroy Z r =
     (case r of
        NilReg \<Rightarrow> (Panic nil_deref, r)
      | FileReg f \<Rightarrow> (Ret (), FileReg (file_Destroy f))
      | ZkReg s \<Rightarrow> (Ret (), ZkReg (zk_Destroy Z s)))"

interpretation any_registry: registry "reg_RegisteService Z" "reg_UnRegisteService Z" reg_GetService for Z :: "'z zk_ops"
proof unfold_locales
  fix u hp p g m and r :: "'z registry_val"
  show "fst (reg_RegisteService Z u hp p g m r) \<noteq> Ret False"
    using file_registry.registe_true zk_registry.registe_true [of Z]
    by (auto simp: reg_RegisteService_def split: registry_val.split)
next
  fix u' p' g' u hp p g m and r :: "'z registry_val"
  show "reg_GetService u' p' g' (snd (reg_RegisteService Z u hp p g m r)) = reg_GetService u' p' g' r"
    by (simp add: reg_GetService_def reg_RegisteService_def file_registry.registe_frame zk_registry.registe_frame
        split: registry_val.split)
  show "reg_GetService u' p' g' (snd (reg_UnRegisteService Z u hp p g r)) = reg_GetService u' p' g' r"
    by (simp add: reg_GetService_def reg_UnRegisteService_def file_registry.unregiste_frame zk_registry.unregiste_frame
        split: registry_val.split)
qed

section \<open>The config center\<close>

record ('v, 'w, 'z) ConfigCenter =
  cc_registry :: "'z registry_val"
  cc_services :: "('v, 'w) Service list"
  cc_hostport :: string

definition center_RegisteService :: "'z zk_ops \<Rightarrow> string \<Rightarrow> string \<Rightarrow> string \<Rightarrow> string \<Rightarrow> ServiceMeta
    \<Rightarrow> 'z registry_val \<Rightarrow> bool go \<times> 'z registry_val" where
  "center_RegisteService Z srv hostport protoType groupid s r =
     reg_RegisteService Z srv hostport protoType groupid
       (s\<lparr>sm_ServiceUri := srv, sm_HostPort := hostport, sm_ProtoVersion := protoType, sm_GroupId := groupid\<rparr>) r"

definition service_meta :: "string \<Rightarrow> ('v, 'w) Service \<Rightarrow> ServiceMeta" where
  "service_meta hostport s = \<lparr>sm_ServiceUri = ServiceUri s, sm_GroupId = GroupId s, sm_HostPort = hostport,
     sm_ProtoVersion = PROTOCOL, sm_IsPre = IsPre s\<rparr>"

text \<open>The loop of \<^verbatim>\<open>RegisteAllServices\<close> over an operation that registers.\<close>

fun registe_all :: "(string \<Rightarrow> string \<Rightarrow> string \<Rightarrow> string \<Rightarrow> ServiceMeta \<Rightarrow> 's \<Rightarrow> bool go \<times> 's)
    \<Rightarrow> string \<Rightarrow> ('v, 'w) Service list \<Rightarrow> 's \<Rightarrow> unit go \<times> 's" where
  "registe_all registe hostport [] r = (Ret (), r)"
| "registe_all registe hostport (s # ss) r =
     (case registe (ServiceUri s) hostport PROTOCOL (GroupId s) (service_meta hostport s) r of
        (Panic e, r) \<Rightarrow> (Panic e, r)
      | (Ret succ, r) \<Rightarrow>
          if \<not> succ then (Panic (''ConfigCenter|RegisteAllServices|FAIL|'' @ ServiceUri s), r)
          else registe_all registe hostport ss r)"

definition RegisteAllServices :: "'z zk_ops \<Rightarrow> ('v, 'w, 'z) ConfigCenter \<Rightarrow> unit go \<times> ('v, 'w, 'z) ConfigCenter" where
  "RegisteAllServices Z c =
     (case registe_all (center_RegisteService Z) (cc_hostport c) (cc_services c) (cc_registry c) of
        (res, r) \<Rightarrow> (res, c\<lparr>cc_registry := r\<rparr>))"

text \<open>
  The zookeeper connection is inside the registry; \<open>reg_conn\<close> is the state of zookeeper after a call,
  which is where it was before for a registry that has none.
\<close>

definition reg_conn :: "'z \<Rightarrow> 'z registry_val \<Rightarrow> 'z" where
  "reg_conn z r = (case r of ZkReg s \<Rightarrow> zs_conn s | _ \<Rightarrow> z)"

definition new_registry :: "'z zk_ops \<Rightarrow> (string \<Rightarrow> string + string) \<Rightarrow> (string \<Rightarrow> string + LocalService list)
    \<Rightarrow> string \<Rightarrow> string list \<Rightarrow> 'z \<Rightarrow> 'z registry_val go \<times> 'z" where
  "new_registry Z read_file yaml registryAddr uris z =
     (if HasPrefix registryAddr SCHEME_ZK then
        (case NewZkRegistry Z (TrimPrefix registryAddr SCHEME_ZK) uris True z of
           (Panic e, z) \<Rightarrow> (Panic e, z)
         | (Ret s, z) \<Rightarrow> (Ret (ZkReg s), z))
      else if HasPrefix registryAddr SCHEME_FILE then
        (bind_go (NewFileRegistry read_file yaml (TrimPrefix registryAddr SCHEME_FILE) uris True) (\<lambda>f. Ret (FileReg f)), z)
      else (Ret NilReg, z))"

definition NewConfigCenter :: "'z zk_ops \<Rightarrow> (string \<Rightarrow> string + string) \<Rightarrow> (string \<Rightarrow> string + LocalService list)
    \<Rightarrow> string \<Rightarrow> string \<Rightarrow> ('v, 'w) Service list \<Rightarrow> 'z \<Rightarrow> ('v, 'w, 'z) ConfigCenter go \<times> 'z" where
  "NewConfigCenter Z read_file yaml registryAddr hostport services z =
     (let uris = map (\<lambda>s. BuildServiceUri (ServiceUri s) (GroupId s)) services in
      case new_registry Z read_file yaml registryAddr uris z of
        (Panic e, z) \<Rightarrow> (Panic e, z)
      | (Ret reg, z) \<Rightarrow>
          (let center = \<lparr>cc_registry = reg, cc_services = services, cc_hostport = hostport\<rparr> in
           case RegisteAllServices Z center of
             (Panic e, center) \<Rightarrow> (Panic e, reg_conn z (cc_registry center))
           | (Ret u, center) \<Rightarrow> (Ret center, reg_conn z (cc_registry center))))"

definition center_GetService :: "string \<Rightarrow> string \<Rightarrow> string \<Rightarrow> ('v, 'w, 'z) ConfigCenter \<Rightarrow> (string + ServiceMeta list) go" where
  "center_GetService srv protoType groupid c = reg_GetService srv protoType groupid (cc_registry c)"

fun unregiste_all :: "(string \<Rightarrow> string \<Rightarrow> string \<Rightarrow> string \<Rightarrow> 's \<Rightarrow> bool go \<times> 's)
    \<Rightarrow> string \<Rightarrow> ('v, 'w) Service list \<Rightarrow> 's \<Rightarrow> unit go \<times> 's" where
  "unregiste_all unregiste hostport [] r = (Ret (), r)"
| "unregiste_all unregiste hostport (s # ss) r =
     (case unregiste (ServiceUri s) hostport PROTOCOL (GroupId s) r of
        (Panic e, r) \<Rightarrow> (Panic e, r)
      | (Ret succ, r) \<Rightarrow> unregiste_all unregiste hostport ss r)"

definition center_Destroy :: "'z zk_ops \<Rightarrow> ('v, 'w, 'z) ConfigCenter \<Rightarrow> unit go \<times> ('v, 'w, 'z) ConfigCenter" where
  "center_Destroy Z c =
     (case unregiste_all (reg_UnRegisteService Z) (cc_hostport c) (cc_services c) (cc_registry c) of
        (Panic e, r) \<Rightarrow> (Panic e, c\<lparr>cc_registry := r\<rparr>)
      | (Ret u, r) \<Rightarrow> (case reg_Destroy Z r of (res, r) \<Rightarrow> (res, c\<lparr>cc_registry := r\<rparr>)))"

section \<open>Registering everything\<close>

context registry
begin

text \<open>The answer false is never seen: a failure is the registry's own panic.\<close>

lemma registe_all_frame: "getserv u p g (snd (registe_all registe hp ss s)) = getserv u p g s"
proof (induction ss arbitrary: s)
  case (Cons x ss)
  show ?case
    using registe_frame [of u p g "ServiceUri x" hp PROTOCOL "GroupId x" "service_meta hp x" s] Cons.IH
    by (cases rule: registe_cases [of "ServiceUri x" hp PROTOCOL "GroupId x" "service_meta hp x" s]) simp_all
qed simp

lemma registe_all_panic:
  "registe_all registe hp ss s = (Panic e, s') \<Longrightarrow>
   \<exists>x \<in> set ss. \<exists>s0. registe (ServiceUri x) hp PROTOCOL (GroupId x) (service_meta hp x) s0 = (Panic e, s')"
proof (induction ss arbitrary: s)
  case (Cons x ss)
  show ?case
  proof (cases rule: registe_cases [of "ServiceUri x" hp PROTOCOL "GroupId x" "service_meta hp x" s])
    case (1 s1)
    with Cons show ?thesis by auto
  next
    case (2 e1 s1)
    with Cons.prems show ?thesis by auto
  qed
qed simp

end

lemma center_same: "center_RegisteService Z (ServiceUri x) hp PROTOCOL (GroupId x) (service_meta hp x)
    = reg_RegisteService Z (ServiceUri x) hp PROTOCOL (GroupId x) (service_meta hp x)"
  by (simp add: center_RegisteService_def service_meta_def fun_eq_iff)

lemma registe_all_center: "registe_all (center_RegisteService Z) hp ss r = registe_all (reg_RegisteService Z) hp ss r"
  by (induction ss arbitrary: r) (simp_all add: center_same split: prod.split go.split)

end
