(* ===== verification/Moa_Option.thy ===== *)
theory Moa_Option
  imports Moa_Codes
begin

text \<open>
  The configuration of \<^verbatim>\<open>option.go\<close>: loading it with its defaults, and the client's and the server's
  part of it. Opening and reading the file, the TOML parser, the network interfaces of the machine
  and the regular expression matcher are not part of the repository and are parameters. Sizes and
  durations are 64-bit machine integers.
\<close>

record ServerOption =
  so_RunMode :: string
  so_BindAddress :: string
  so_Compress :: string
  so_IsPre :: bool

record ClientOption =
  co_RunMode :: string
  co_Compress :: string
  co_SelectorStrategy :: string
  co_SlowLog :: "bool option"  \<comment> \<open>a pointer\<close>

record Cluster =
  cl_Registry :: string
  ProcessTimeout :: i64
  IdleTimeout :: i64
  MaxDispatcherSize :: i64
  WorkerPoolSize :: i64
  ReadBufferSize :: i64
  WriteBufferSize :: i64
  WriteChannelSize :: i64
  ReadChannelSize :: i64
  FutureSize :: i64

record Option =
  op_Server :: ServerOption
  op_Client :: ClientOption
  op_Clusters :: "(string, Cluster) gomap"

definition zero_Option :: Option where
  "zero_Option = \<lparr>op_Server = \<lparr>so_RunMode = [], so_BindAddress = [], so_Compress = [], so_IsPre = False\<rparr>,
     op_Client = \<lparr>co_RunMode = [], co_Compress = [], co_SelectorStrategy = [], co_SlowLog = None\<rparr>, op_Clusters = []\<rparr>"

definition STRATEGY_RANDOM :: string where "STRATEGY_RANDOM = ''random''"
definition STRATEGY_KETAMA :: string where "STRATEGY_KETAMA = ''ketama''"
definition STRATEGY_PRIORITY_RANDOM :: string where "STRATEGY_PRIORITY_RANDOM = ''priority_random''"

section \<open>LoadConfiguration\<close>

text \<open>The body of the loop over the clusters.\<close>

definition cluster_defaults :: "Cluster \<Rightarrow> Cluster" where
  "cluster_defaults c =
     (let c = (if le0 (MaxDispatcherSize c) then c\<lparr>MaxDispatcherSize := 8000\<rparr> else c);
          c = (if le0 (ReadBufferSize c) then c\<lparr>ReadBufferSize := 16 * 1024\<rparr> else c);
          c = (if le0 (WriteBufferSize c) then c\<lparr>WriteBufferSize := 16 * 1024\<rparr> else c);
          c = (if le0 (WriteChannelSize c) then c\<lparr>WriteChannelSize := 1000\<rparr> else c);
          c = (if le0 (ReadChannelSize c) then c\<lparr>ReadChannelSize := 1000\<rparr> else c);
          c = (if le0 (IdleTimeout c) then c\<lparr>IdleTimeout := 5 * 60\<rparr> else c);
          c = c\<lparr>IdleTimeout := IdleTimeout c * time_Second\<rparr>;
          c = (if le0 (ProcessTimeout c) then c\<lparr>ProcessTimeout := 5\<rparr> else c);
          c = (if le0 (WorkerPoolSize c) then c\<lparr>WorkerPoolSize := MaxDispatcherSize c\<rparr> else c);
          c = (if sint (FutureSize c) \<le> 100 * 10000 then c\<lparr>FutureSize := 100 * 10000\<rparr> else c);
          c = c\<lparr>ProcessTimeout := ProcessTimeout c * time_Second\<rparr>
      in c)"

text \<open>
  The two results, the option and the error (\<open>None\<close> is nil). A failed read returns \<^verbatim>\<open>err\<close>, the
  error of the open that succeeded, which is nil.
\<close>

definition LoadConfiguration :: "(string \<Rightarrow> string option) \<Rightarrow> (string \<Rightarrow> string + string) \<Rightarrow> (string \<Rightarrow> string + Option)
    \<Rightarrow> string \<Rightarrow> Option \<times> string option" where
  "LoadConfiguration open_file read_all toml path =
     (let err = open_file path in
      case err of
        Some e \<Rightarrow> (zero_Option, err)
      | None \<Rightarrow>
          (case read_all path of
             Inl rerr \<Rightarrow> (zero_Option, err)
           | Inr buff \<Rightarrow>
               (case toml buff of
                  Inl e \<Rightarrow> (zero_Option, Some e)
                | Inr option \<Rightarrow>
                    (let slowlog = (case co_SlowLog (op_Client option) of Some b \<Rightarrow> b | None \<Rightarrow> True)
                     in (option\<lparr>op_Client := (op_Client option)\<lparr>co_SlowLog := Some slowlog\<rparr>,
                                op_Clusters := map (\<lambda>(name, cluster). (name, cluster_defaults cluster)) (op_Clusters option)\<rparr>,
                         None)))))"

section \<open>InitClientOption\<close>

definition pick_strategy :: "string \<Rightarrow> string" where
  "pick_strategy s =
     (let u = ToUpper s in
      if u = ''KETAMA'' then STRATEGY_KETAMA
      else if u = ''PRIORITY_RANDOM'' then STRATEGY_PRIORITY_RANDOM
      else STRATEGY_RANDOM)"

definition InitClientOption :: "Option \<Rightarrow> Option go" where
  "InitClientOption option =
     (case map_of (op_Clusters option) (co_RunMode (op_Client option)) of
        None \<Rightarrow> Panic ''Client RunMode Conf Not Found!''
      | Some cluster \<Rightarrow>
          (let cl = op_Client option;
               cl = (if length (co_Compress cl) \<le> 0 then cl\<lparr>co_Compress := ''snappy''\<rparr> else cl);
               cl = cl\<lparr>co_SelectorStrategy := pick_strategy (co_SelectorStrategy cl)\<rparr>
           in Ret (option\<lparr>op_Client := cl, op_Clusters := AList.update (co_RunMode cl) cluster (op_Clusters option)\<rparr>)))"

section \<open>InitServerOption\<close>

text \<open>
  An address of a network interface: an IP network with whether it is a loopback and the text of its
  IPv4 form, when it has one, or an address of another kind. An interface is the list of its addresses.
\<close>

datatype net_addr = IPNet bool "string option" | OtherAddr

definition usable_ip :: "net_addr \<Rightarrow> string option" where
  "usable_ip a = (case a of IPNet False (Some ip) \<Rightarrow> Some ip | _ \<Rightarrow> None)"

fun first_ip :: "(string \<Rightarrow> bool) \<Rightarrow> net_addr list \<Rightarrow> string option" where
  "first_ip P [] = None"
| "first_ip P (a # as) =
     (case usable_ip a of Some ip \<Rightarrow> if P ip then Some ip else first_ip P as | None \<Rightarrow> first_ip P as)"

definition split_at :: "string list \<Rightarrow> nat \<Rightarrow> string go" where
  "split_at split i = (if i < length split then Ret (split ! i) else Panic index_panic)"

text \<open>
  A loop over the interfaces: the inner loop stops at the first address taken, the outer one goes on
  with the next interface, whose address replaces the one taken before. The state is the bind address
  and \<^verbatim>\<open>hasMatched\<close>.
\<close>

fun bind_loop :: "(net_addr list \<Rightarrow> bool) \<Rightarrow> (string \<Rightarrow> bool) \<Rightarrow> string list \<Rightarrow> net_addr list list
    \<Rightarrow> string \<times> bool \<Rightarrow> (string \<times> bool) go" where
  "bind_loop use P split [] st = Ret st"
| "bind_loop use P split (addrs # inters) st =
     (if use addrs then
        (case first_ip P addrs of
           None \<Rightarrow> bind_loop use P split inters st
         | Some ip \<Rightarrow> bind_go (split_at split 1) (\<lambda>port. bind_loop use P split inters (ip @ '':'' @ port, True)))
      else bind_loop use P split inters st)"

definition has_loopback :: "net_addr list \<Rightarrow> bool" where
  "has_loopback addrs = list_ex (\<lambda>a. case a of IPNet lo ip \<Rightarrow> lo | OtherAddr \<Rightarrow> False) addrs"

definition bind_address :: "(string \<Rightarrow> string \<Rightarrow> bool) \<Rightarrow> net_addr list list \<Rightarrow> string \<Rightarrow> string go" where
  "bind_address matches inters bind =
     (let split = Split CHR '':'' bind; regx = hd split in
      bind_go
        (if length regx \<le> 0 then bind_go (split_at split 1) (\<lambda>port. Ret (''0.0.0.0:'' @ port, True))
         else bind_loop (\<lambda>addrs. True) (matches regx) split inters (bind, False))
        (\<lambda>(bind, hasMatched).
           if hasMatched then Ret bind
           else
             bind_go (bind_loop (\<lambda>addrs. \<not> has_loopback addrs \<and> 0 < length addrs) (\<lambda>ip. True) split inters (bind, False))
               (\<lambda>(bind, hasMatched).
                  if hasMatched then Ret bind
                  else bind_go (split_at split 1) (\<lambda>port. Ret (''0.0.0.0'' @ '':'' @ port)))))"

definition InitServerOption :: "(string + net_addr list list) \<Rightarrow> (string \<Rightarrow> string \<Rightarrow> bool) \<Rightarrow> Option \<Rightarrow> Option go" where
  "InitServerOption interfaces matches option =
     (case interfaces of
        Inl err \<Rightarrow> Panic err
      | Inr inters \<Rightarrow>
          bind_go (bind_address matches inters (so_BindAddress (op_Server option)))
            (\<lambda>bind.
               (let sv = (op_Server option)\<lparr>so_BindAddress := bind\<rparr> in
                case map_of (op_Clusters option) (so_RunMode sv) of
                  None \<Rightarrow> Panic ''Server RunMode Conf Not Found!''
                | Some cluster \<Rightarrow>
                    (let sv = (if length (so_Compress sv) \<le> 0 then sv\<lparr>so_Compress := ''snappy''\<rparr> else sv)
                     in Ret (option\<lparr>op_Server := sv, op_Clusters := AList.update (so_RunMode sv) cluster (op_Clusters option)\<rparr>)))))"

end
