(* ===== verification/Moa_Codec.thy ===== *)
theory Moa_Codec
  imports Moa_Packets
begin

unbundle bit_operations_syntax

text \<open>
  The codec of \<^verbatim>\<open>moa_codec.go\<close>: compression and the payloads of \<^verbatim>\<open>turbo\<close> packets. Snappy and the packet
  framing are packages outside the repository: snappy is the record \<open>snappy\<close>, of a packet the model
  keeps what the codec looks at. Sizes are \<^verbatim>\<open>int\<close>s, divided as Go divides, towards zero.
\<close>

record snappy =
  DecodedLen :: "string \<Rightarrow> string + int"
  MaxEncodedLen :: "int \<Rightarrow> int"
  Encode :: "int \<Rightarrow> string \<Rightarrow> string go"        \<comment> \<open>the length of the buffer it is given\<close>
  Decode :: "int \<Rightarrow> string \<Rightarrow> string + string"

definition round_256 :: "int \<Rightarrow> int" where
  "round_256 l = (if l smod 256 \<noteq> 0 then (l sdiv 256 + 1) * 256 else l)"

definition make_bytes :: "int \<Rightarrow> int go" where
  "make_bytes l = (if l < 0 then Panic ''runtime error: makeslice: len out of range'' else Ret l)"

definition Decompress :: "snappy \<Rightarrow> string \<Rightarrow> (string + string) go" where
  "Decompress S src =
     (case DecodedLen S src of
        Inl err \<Rightarrow> Ret (Inl err)
      | Inr l \<Rightarrow> bind_go (make_bytes (round_256 l)) (\<lambda>dest. Ret (Decode S dest src)))"

definition Compress :: "snappy \<Rightarrow> string \<Rightarrow> string go" where
  "Compress S src =
     bind_go (make_bytes (round_256 (MaxEncodedLen S (int (length src))))) (\<lambda>dest. Encode S dest src)"

section \<open>Packets\<close>

datatype 'v payload = NilPayload | ReqPayload MoaReqPacket | RawReqPayload MoaRawReqPacket | PiPoPayload PiPo
  | RespPayload "'v MoaRespPacket" | RawRespPayload MoaRawRespPacket
  | OtherPayload "string + json"  \<comment> \<open>any other value: what json.Marshal makes of it\<close>

record 'v packet =
  CmdType :: nat
  Extension :: i64
  Opaque :: int
  Data :: string
  PayLoad :: "'v payload"

record BinaryCodec =
  MaxFrameLength :: int
  SnappyCompress :: bool

definition PiPo_json :: "PiPo \<Rightarrow> json" where
  "PiPo_json p = JObj [(''timestamp'', JNum (dec_int (Timestamp p)))]"

definition PiPo_field :: "string \<Rightarrow> json \<Rightarrow> PiPo \<Rightarrow> PiPo \<times> bool" where
  "PiPo_field n j p = apfst (\<lambda>x. p\<lparr>Timestamp := x\<rparr>) (dec_int64 j (Timestamp p))"

text \<open>\<^verbatim>\<open>json.Unmarshal(p.Data, &ping)\<close> with its error dropped: what could be decoded stays.\<close>

definition PiPo_unmarshal :: "string \<Rightarrow> PiPo" where
  "PiPo_unmarshal data =
     (case json_parse data of
        None \<Rightarrow> \<lparr>Timestamp = 0\<rparr>
      | Some j \<Rightarrow> fst (dec_struct [''timestamp''] PiPo_field j \<lparr>Timestamp = 0\<rparr>))"

definition payload_json :: "'v payload \<Rightarrow> string + json" where
  "payload_json p =
     (case p of
        NilPayload \<Rightarrow> Inr JNull
      | ReqPayload q \<Rightarrow> MoaReqPacket_json q
      | RawReqPayload q \<Rightarrow> Inr (MoaRawReqPacket_json q)
      | PiPoPayload x \<Rightarrow> Inr (PiPo_json x)
      | RespPayload r \<Rightarrow> MoaRespPacket_json r
      | RawRespPayload r \<Rightarrow> Inr (MoaRawRespPacket_json r)
      | OtherPayload j \<Rightarrow> j)"

section \<open>UnmarshalPayload\<close>

text \<open>
  \<open>now\<close> is \<^verbatim>\<open>time.Now().UnixNano()\<close>. The results are the payload or the error, and the packet as it is
  left: the data decompressed, the payload set.
\<close>

definition millis :: "i64 \<Rightarrow> i64" where
  "millis nanos = word_of_int (sint nanos sdiv 1000000)"

definition decode_payload :: "i64 \<Rightarrow> 'v packet \<Rightarrow> (string + 'v payload) \<times> 'v packet" where
  "decode_payload now p =
     (if CmdType p = REQ then
        (case Wrap2MoaRawRequest (Data p) of
           Inl err \<Rightarrow> (Inl err, p)
         | Inr req \<Rightarrow>
             (let req = (if le0 (rq_CreateTime req) then req\<lparr>rq_CreateTime := millis now\<rparr> else req);
                  p = p\<lparr>PayLoad := RawReqPayload req\<rparr>
              in (Inr (PayLoad p), p)))
      else if CmdType p = PING \<or> CmdType p = PONG then
        (let p = p\<lparr>PayLoad := PiPoPayload (PiPo_unmarshal (Data p))\<rparr> in (Inr (PayLoad p), p))
      else if CmdType p = RESP then
        (case Wrap2MoaRawResponse (Data p) of
           Inl err \<Rightarrow> (Inl err, p)
         | Inr resp \<Rightarrow> (let p = p\<lparr>PayLoad := RawRespPayload resp\<rparr> in (Inr (PayLoad p), p)))
      else (Inr (PayLoad p), p))"

definition UnmarshalPayload :: "snappy \<Rightarrow> i64 \<Rightarrow> BinaryCodec \<Rightarrow> 'v packet \<Rightarrow> ((string + 'v payload) \<times> 'v packet) go" where
  "UnmarshalPayload S now codec p =
     (let useSnappy = Extension p AND of_nat COMPRESS_SNAPPY in
      if useSnappy = of_nat COMPRESS_SNAPPY then
        bind_go (Decompress S (Data p))
          (\<lambda>d. case d of
                 Inl err \<Rightarrow> Ret (Inl err, p)
               | Inr d \<Rightarrow> Ret (decode_payload now (p\<lparr>Data := d\<rparr>)))
      else Ret (decode_payload now p))"

section \<open>MarshalPayload\<close>

definition bad_payload :: "'v MoaRespPacket" where
  "bad_payload = zero_resp\<lparr>ErrCode := CODE_SERIALIZATION_SERVER, Message := ''Invalid PayLoad Type Not MoaRespPacket''\<rparr>"

text \<open>The bytes of a JSON value, and no bytes when there is an error that is dropped.\<close>

definition bytes_or_nil :: "string + json \<Rightarrow> string" where
  "bytes_or_nil j = (case j of Inl e \<Rightarrow> [] | Inr v \<Rightarrow> json_print v)"

definition MarshalPayload :: "BinaryCodec \<Rightarrow> 'v packet \<Rightarrow> string + string" where
  "MarshalPayload codec p =
     (if CmdType p = REQ then
        (case payload_json (PayLoad p) of
           Inl err \<Rightarrow> Inl err
         | Inr j \<Rightarrow> Inr (json_print j))
      else if CmdType p = PING \<or> CmdType p = PONG then Inr (bytes_or_nil (payload_json (PayLoad p)))
      else if CmdType p = RESP then
        (let resp = (case PayLoad p of RespPayload r \<Rightarrow> r | _ \<Rightarrow> bad_payload) in
         case MoaRespPacket_json resp of
           Inl err \<Rightarrow> Inr (bytes_or_nil (MoaRespPacket_json (bad_payload :: 'v MoaRespPacket)))
         | Inr j \<Rightarrow> Inr (json_print j))
      else Inr [])"

end
