(* ===== verification/Moa_App.thy ===== *)
theory Moa_App
  imports Moa_Config_Center Moa_Option Moa_Codec
begin

text \<open>
  The application of \<^verbatim>\<open>application.go\<close>: starting it, dispatching the packets of its connections and
  running the queued requests. The network server, its worker pool and the goroutines they run are
  \<^verbatim>\<open>turbo\<close>'s, outside the repository: what the code asks of them is a list of actions. The global
  tracer is the parameter \<open>T\<close> of \<open>run_request\<close>, which starting chooses by \<open>install_tracer\<close>.
\<close>

text \<open>
  The statistics object is shared by the application and its invocation handler; the model keeps it in
  the handler. The handler is nil until it has been built, which is after the server listens.
\<close>

text \<open>
  What starting asks of \<^verbatim>\<open>turbo\<close>: the arguments of \<^verbatim>\<open>NewTConfig\<close> in their order, the limit of the
  worker pool, and the codec of the connections.
\<close>

record server_setup =
  ss_name :: string
  ss_sizes :: "i64 list"
  ss_idle :: i64
  ss_last :: i64
  ss_pool :: i64
  ss_codec :: BinaryCodec

record ('v, 'w, 'z) Application =
  ap_ctx :: ctx
  ap_setup :: server_setup
  ap_options :: Option
  ap_configCenter :: "('v, 'w, 'z) ConfigCenter"
  ap_invokeHandler :: "('v, 'w) InvocationHandler option"

section \<open>Starting\<close>

definition service_defaults :: "bool \<Rightarrow> ('v, 'w) Service \<Rightarrow> ('v, 'w) Service" where
  "service_defaults isPre s =
     (let s = (if length (GroupId s) \<le> 0 then s\<lparr>GroupId := ''*''\<rparr> else s) in s\<lparr>IsPre := isPre\<rparr>)"

text \<open>What starting reads from outside the repository.\<close>

record start_env =
  se_open :: "string \<Rightarrow> string option"
  se_read :: "string \<Rightarrow> string + string"
  se_toml :: "string \<Rightarrow> string + Option"
  se_interfaces :: "string + net_addr list list"
  se_matches :: "string \<Rightarrow> string \<Rightarrow> bool"
  se_file :: "string \<Rightarrow> string + string"
  se_yaml :: "string \<Rightarrow> string + LocalService list"
  se_max_packet :: int                \<comment> \<open>MAX_PACKET_BYTES\<close>
  se_listen :: "string option"        \<comment> \<open>the error of ListenAndServer\<close>

definition zero_Cluster :: Cluster where
  "zero_Cluster = \<lparr>cl_Registry = [], ProcessTimeout = 0, IdleTimeout = 0, MaxDispatcherSize = 0, WorkerPoolSize = 0,
     ReadBufferSize = 0, WriteBufferSize = 0, WriteChannelSize = 0, ReadChannelSize = 0, FutureSize = 0\<rparr>"

definition the_cluster :: "Option \<Rightarrow> Cluster" where
  "the_cluster op = (case map_of (op_Clusters op) (so_RunMode (op_Server op)) of Some c \<Rightarrow> c | None \<Rightarrow> zero_Cluster)"

text \<open>
  The global tracer after starting: the one registered before, or else the one \<^verbatim>\<open>jaeger\<close> makes for the
  service name, nil when it fails, because its error is dropped.
\<close>

definition install_tracer :: "'sp tracer option \<Rightarrow> (string \<Rightarrow> 'sp tracer option) \<Rightarrow> 'sp tracer option" where
  "install_tracer registered jaeger = (case registered of None \<Rightarrow> jaeger ''moa-server'' | Some T \<Rightarrow> Some T)"

definition codec_of :: "int \<Rightarrow> string \<Rightarrow> BinaryCodec" where
  "codec_of max_packet compress =
     \<lparr>MaxFrameLength = max_packet, SnappyCompress = (ToLower compress = ''snappy'')\<rparr>"

definition setup_of :: "int \<Rightarrow> Option \<Rightarrow> Cluster \<Rightarrow> server_setup" where
  "setup_of max_packet serverOp cluster =
     \<lparr>ss_name = so_BindAddress (op_Server serverOp),
      ss_sizes = [MaxDispatcherSize cluster, ReadBufferSize cluster, ReadBufferSize cluster,
                  WriteChannelSize cluster, ReadChannelSize cluster],
      ss_idle = IdleTimeout cluster, ss_last = 50 * 10000, ss_pool = MaxDispatcherSize cluster,
      ss_codec = codec_of max_packet (so_Compress (op_Server serverOp))\<rparr>"

text \<open>
  After the server listens: the statistics are made with the URI of the first service, the handler is
  built, and the services are registered a second time.
\<close>

definition start_handler :: "'z zk_ops \<Rightarrow> ctx \<Rightarrow> server_setup \<Rightarrow> Option \<Rightarrow> string \<Rightarrow> ('v, 'w) Service list
    \<Rightarrow> ('v, 'w, 'z) ConfigCenter \<Rightarrow> 'z \<Rightarrow> ('v, 'w, 'z) Application go \<times> 'z" where
  "start_handler Z c setup options bind services center z =
     (case services of
        [] \<Rightarrow> (Panic index_panic, z)
      | s0 # _ \<Rightarrow>
          (case NewInvocationHandler services (fst (NewMoaStat bind (ServiceUri s0))) of
             Panic e \<Rightarrow> (Panic e, z)
           | Ret h \<Rightarrow>
               (let h = h\<lparr>moaStat := fst (StartLog (moaStat h))\<rparr> in
                case RegisteAllServices Z center of
                  (Panic e, center) \<Rightarrow> (Panic e, reg_conn z (cc_registry center))
                | (Ret u, center) \<Rightarrow>
                    (Ret \<lparr>ap_ctx = c, ap_setup = setup, ap_options = options, ap_configCenter = center,
                          ap_invokeHandler = Some h\<rparr>,
                     reg_conn z (cc_registry center)))))"

text \<open>The context passed in is kept with its values; cancelling it is not modelled.\<close>

definition initApplication :: "'z zk_ops \<Rightarrow> start_env \<Rightarrow> ctx \<Rightarrow> string \<Rightarrow> ('v, 'w) Service list \<Rightarrow> 'z
    \<Rightarrow> ('v, 'w, 'z) Application go \<times> 'z" where
  "initApplication Z env c configPath services z =
     (case LoadConfiguration (se_open env) (se_read env) (se_toml env) configPath of
        (options, Some err) \<Rightarrow> (Panic err, z)
      | (options, None) \<Rightarrow>
          (case InitServerOption (se_interfaces env) (se_matches env) options of
             Panic e \<Rightarrow> (Panic e, z)
           | Ret serverOp \<Rightarrow>
               (let services = map (service_defaults (so_IsPre (op_Server serverOp))) services;
                    bind = so_BindAddress (op_Server serverOp);
                    cluster = the_cluster serverOp;
                    setup = setup_of (se_max_packet env) serverOp cluster
                in case NewConfigCenter Z (se_file env) (se_yaml env) (cl_Registry cluster) bind services z of
                     (Panic e, z) \<Rightarrow> (Panic e, z)
                   | (Ret center, z) \<Rightarrow>
                       (case se_listen env of
                          Some err \<Rightarrow> (Panic err, z)
                        | None \<Rightarrow> start_handler Z c setup options bind services center z))))"

section \<open>Dispatching\<close>

text \<open>
  What \<^verbatim>\<open>dis\<close> asks for: a packet written to the client (its command, its opaque number, its payload), a
  pong recorded on the connection, a request queued with the opaque number to answer it under.
\<close>

datatype 'v dis_action =
    Write nat int "'v payload"
  | Pong int int
  | Queue MoaRawReqPacket int

record 'v dis_ctx =
  dc_Message :: "'v packet"
  dc_Err :: "string option"
  dc_RemoteAddr :: string

text \<open>What the information reply is made of: the JSON of the network statistics, and the server's.\<close>

definition MoaInfo_json :: "MoaInfo \<Rightarrow> json" where
  "MoaInfo_json i = JObj
     [(''recv'', JNum (dec_int (mi_Recv i))), (''proc'', JNum (dec_int (mi_Proc i))),
      (''error'', JNum (dec_int (mi_Error i))), (''timeout'', JNum (dec_int (mi_Timeout i))),
      (''invoke_gos'', JNum (dec_int (mi_MoaInvokePool i))), (''conns'', JNum (dec_int (mi_Connections i))),
      (''total_gos'', JNum (dec_int (mi_TotalGoroutine i)))]"

definition is_expired :: "i64 \<Rightarrow> MoaRawReqPacket \<Rightarrow> bool" where
  "is_expired now req \<longleftrightarrow>
     0 < sint (rq_CreateTime req) \<and> i64_ge (now - rq_CreateTime req * time_Millisecond) (rq_Timeout req)"

text \<open>
  The actions of the body, and whether it panics; every panic is recovered and only logged. \<open>network\<close>
  is the JSON of the server's network statistics.
\<close>

definition dis_body :: "i64 \<Rightarrow> json \<Rightarrow> ('v, 'w, 'z) Application \<Rightarrow> 'v dis_ctx \<Rightarrow> 'v dis_action list go" where
  "dis_body now network app ctx =
     (let p = dc_Message ctx in
      case dc_Err ctx of
        Some err \<Rightarrow>
          Ret [Write RESP (Opaque p) (RespPayload (zero_resp\<lparr>ErrCode := CODE_THROWABLE, Message := err\<rparr>))]
      | None \<Rightarrow>
          if CmdType p = REQ then
            (case PayLoad p of
               RawReqPayload req \<Rightarrow>
                 (let req = req\<lparr>rq_Source := dc_RemoteAddr ctx, rq_Timeout := ProcessTimeout (the_cluster (ap_options app))\<rparr>
                  in Ret (if is_expired now req then [] else [Queue req (Opaque p)]))
             | _ \<Rightarrow> Panic ''interface conversion: interface {} is not core.MoaRawReqPacket'')
          else if CmdType p = PING then
            (case PayLoad p of
               PiPoPayload pipo \<Rightarrow> Ret [Pong (Opaque p) (Timestamp pipo), Write PONG (Opaque p) (PiPoPayload pipo)]
             | _ \<Rightarrow> Ret [Write PONG (Opaque p) (PiPoPayload \<lparr>Timestamp = 0\<rparr>)])
          else if CmdType p = INFO then
            (case ap_invokeHandler app of
               None \<Rightarrow> Panic nil_deref
             | Some h \<Rightarrow>
                 Ret [Write INFO (Opaque p)
                   (OtherPayload (Inr (JObj [(''moa'', MoaInfo_json (GetMoaInfo (moaStat h))), (''network'', network)])))])
          else Ret [])"

definition dis :: "i64 \<Rightarrow> json \<Rightarrow> ('v, 'w, 'z) Application \<Rightarrow> 'v dis_ctx \<Rightarrow> 'v dis_action list" where
  "dis now network app ctx = (case dis_body now network app ctx of Ret actions \<Rightarrow> actions | Panic e \<Rightarrow> [])"

text \<open>
  A queued request when a worker runs it: its properties become the context's, and the callback writes
  the response. A nil handler is dereferenced, outside the recovery of \<^verbatim>\<open>dis\<close>.
\<close>

definition request_ctx :: "ctx \<Rightarrow> MoaRawReqPacket \<Rightarrow> ctx_heap \<Rightarrow> ctx \<times> ctx_heap" where
  "request_ctx c req h =
     (case rq_Properties req of
        None \<Rightarrow> (WithValue c KEY_MOA_PROPERTIES (MapRef None), h)
      | Some m \<Rightarrow> (case new_map m h of (r, h) \<Rightarrow> (WithValue c KEY_MOA_PROPERTIES (MapRef (Some r)), h)))"

definition run_request :: "'sp tracer \<Rightarrow> i64 \<Rightarrow> ('v, 'w, 'z) Application \<Rightarrow> MoaRawReqPacket \<Rightarrow> int \<Rightarrow> 'w world
    \<Rightarrow> (('v, 'w, 'z) Application \<times> 'v dis_action list) go \<times> 'w world" where
  "run_request T cost app req opaque w =
     (case request_ctx (ap_ctx app) req (heap w) of
        (c, h) \<Rightarrow>
          (let w = w\<lparr>heap := h\<rparr> in
           case ap_invokeHandler app of
             None \<Rightarrow> (Panic nil_deref, w)
           | Some hdl \<Rightarrow>
               (case Invoke T cost hdl c req w of
                  (Panic e, w) \<Rightarrow> (Panic e, w)
                | (Ret out, w) \<Rightarrow>
                    (Ret (app\<lparr>ap_invokeHandler := Some (io_handler out)\<rparr>,
                      case io_callback out of None \<Rightarrow> [] | Some resp \<Rightarrow> [Write RESP opaque (RespPayload resp)]), w))))"

end
