(* ===== verification/Moa_Admin.thy ===== *)
theory Moa_Admin
  imports Moa_App
begin

text \<open>
  What the application does beside answering requests, \<^verbatim>\<open>application.go\<close>: its timer forgets the call
  tables of clients that are gone, it shuts down, and it serves HTTP pages.
\<close>

section \<open>Forgetting clients\<close>

text \<open>The timer's body: per service, the clients that are not among the connected ones are removed from its call table.\<close>

definition purge_table :: "string list \<Rightarrow> invokes \<Rightarrow> invokes" where
  "purge_table allclients m =
     (let removeClients = filter (\<lambda>clientip.
            (let idx = SearchStrings allclients clientip in idx = length allclients \<or> allclients ! idx \<noteq> clientip)) (map fst m)
      in fold AList.delete removeClients m)"

fun purge_loop :: "string list \<Rightarrow> (string, ('v, 'w) Service) gomap \<Rightarrow> (string, ('v, 'w) Service) gomap go" where
  "purge_loop allclients [] = Ret []"
| "purge_loop allclients ((uri, s) # rest) =
     (case InvokesPerClient s of
        None \<Rightarrow> Panic nil_deref
      | Some m \<Rightarrow>
          bind_go (purge_loop allclients rest)
            (\<lambda>rest. Ret ((uri, s\<lparr>InvokesPerClient := Some (purge_table allclients m)\<rparr>) # rest)))"

definition purge :: "string list \<Rightarrow> ('v, 'w) InvocationHandler \<Rightarrow> ('v, 'w) InvocationHandler go" where
  "purge clients h = bind_go (purge_loop (sort clients) (instances h)) (\<lambda>inst. Ret (h\<lparr>instances := inst\<rparr>))"

section \<open>Shutting down\<close>

datatype stop_event = Withdrawn | Sleep i64 | Stop | Shutdown | StatDestroyed "prom_call list"

text \<open>
  The loop that waits for the connections: \<open>conns i\<close> is the number of connections that the statistics
  show at check \<open>i\<close>; the result is what it does and the number of sleeps.
\<close>

function wait_loop :: "(nat \<Rightarrow> int) \<Rightarrow> nat \<Rightarrow> stop_event list" where
  "wait_loop conns checkTimes =
     (if checkTimes < 9 then
        (if conns checkTimes = 0 then [] else Sleep time_Second # wait_loop conns (checkTimes + 1))
      else [])"
  by pat_completeness auto
termination by (relation "measure (\<lambda>(conns, n). 9 - n)") auto

declare wait_loop.simps [simp del]

definition DestroyApplication :: "'z zk_ops \<Rightarrow> (nat \<Rightarrow> int) \<Rightarrow> ('v, 'w, 'z) Application
    \<Rightarrow> stop_event list go \<times> ('v, 'w, 'z) Application" where
  "DestroyApplication Z conns app =
     (case center_Destroy Z (ap_configCenter app) of
        (Panic e, c) \<Rightarrow> (Panic e, app\<lparr>ap_configCenter := c\<rparr>)
      | (Ret u, c) \<Rightarrow>
          (let app = app\<lparr>ap_configCenter := c\<rparr> in
           case ap_invokeHandler app of
             None \<Rightarrow> (Panic nil_deref, app)
           | Some h \<Rightarrow>
               (case StatDestroy (moaStat h) of
                  (st, calls) \<Rightarrow>
                    (Ret ([Withdrawn] @ wait_loop conns 0 @ [Stop, Sleep (500 * time_Millisecond), Shutdown, StatDestroyed calls]),
                     app\<lparr>ap_invokeHandler := Some (h\<lparr>moaStat := st\<rparr>)\<rparr>))))"

section \<open>HTTP pages\<close>

record MoaProfile =
  Href :: string
  pf_Name :: string

text \<open>The pages the index lists, without their descriptions.\<close>

definition profiles :: "MoaProfile list" where
  "profiles =
     [\<lparr>Href = ''/debug/moa'', pf_Name = ''index''\<rparr>, \<lparr>Href = ''/debug/moa/stat'', pf_Name = ''stat''\<rparr>,
      \<lparr>Href = ''/debug/moa/list/clients'', pf_Name = ''list.clients''\<rparr>,
      \<lparr>Href = ''/debug/moa/list/services'', pf_Name = ''list.services''\<rparr>,
      \<lparr>Href = ''/debug/moa/list/methods'', pf_Name = ''list.methods''\<rparr>,
      \<lparr>Href = ''/metrics'', pf_Name = ''metrics''\<rparr>]"

text \<open>
  The address the pages are served on, a thousand ports above the server's; \<open>resolve\<close> is
  \<^verbatim>\<open>ResolveTCPAddr\<close>, whose error is dropped: its nil address is dereferenced.
\<close>

definition pprof_listen :: "(string \<Rightarrow> (string \<times> int) option) \<Rightarrow> string \<Rightarrow> string go" where
  "pprof_listen resolve bind =
     (case resolve bind of
        None \<Rightarrow> Panic nil_deref
      | Some (ip, port) \<Rightarrow> Ret (Sprintf ''%s:%d'' [FStr ip, FInt (port + 1000)]))"

text \<open>
  What a page does with the response writer, in order. \<open>Template\<close> stands for the index page, which
  may fail; \<open>Delegate\<close> for the handlers of other packages.
\<close>

datatype http_call = WriteHeader nat | SetHeader string string | Body string | Template | Delegate string

definition Method_json :: "Method \<Rightarrow> json" where
  "Method_json m = JObj [(''name'', JStr (me_Name m)), (''count'', JNum (dec_int (me_Count m)))]"

definition InvokePerClient_json :: "InvokePerClient \<Rightarrow> json" where
  "InvokePerClient_json i = JObj [(''client'', JStr (ipc_Client i)), (''service_name'', JStr (ipc_ServiceName i)),
     (''methods'', JArr (map Method_json (ipc_Methods i)))]"

definition json_page :: "string \<Rightarrow> http_call list" where
  "json_page body = [WriteHeader 200, SetHeader ''Content-Type'' ''text/json'', Body body]"

definition ServeHTTP :: "(flow \<Rightarrow> int) \<Rightarrow> (string \<Rightarrow> string) \<Rightarrow> bool \<Rightarrow> string list \<Rightarrow> ('v, 'w) InvocationHandler \<Rightarrow> string
    \<Rightarrow> http_call list go" where
  "ServeHTTP cnt form index_fails clients h uri =
     (if HasPrefix uri ''/debug/moa'' then
        (if length (TrimPrefix uri ''/debug/moa'') \<le> 0 then
           Ret (if index_fails then [Template, WriteHeader 500] else [Template])
         else if HasPrefix uri ''/debug/moa/stat'' then
           Ret (json_page (json_print (MoaInfo_json (GetMoaInfo (moaStat h)))))
         else if HasPrefix uri ''/debug/moa/list/clients'' then
           Ret (json_page (json_print (JArr (map JStr clients))))
         else if HasPrefix uri ''/debug/moa/list/services'' then
           Ret (json_page (json_print (JArr (map JStr (map fst (instances h))))))
         else if HasPrefix uri ''/debug/moa/list/methods'' then
           (let serviceName = form ''service'' in
            if 0 < length serviceName then
              bind_go (ListInvokes cnt h serviceName)
                (\<lambda>inv. Ret (json_page (json_print (JArr (map InvokePerClient_json inv)))))
            else Ret (json_page ''{}''))
         else Ret [WriteHeader 404])
      else if HasPrefix uri ''/metrics'' then Ret [Delegate ''promhttp'']
      else Ret [Delegate ''pprof''])"

end
