(* ===== verification/Moa_Zk_Laws.thy ===== *)
theory Moa_Zk_Laws
  imports Moa_Zk
begin

text \<open>
  What the development relies on of a zookeeper server behind a healthy session, \<open>zk_healthy\<close>: the
  documented behaviour of the client operations on a tree of nodes, over an abstraction \<open>tree\<close> of the
  connection state. Node versions are not part of it: the program only deletes version 0 and never
  sets a node's data, so every version is 0 in a tree that only this program writes. Nor is it that an
  ephemeral node can have no children: the only ephemeral nodes are the addresses, under which the
  program creates nothing. A small server in memory shows that it can hold.
  On it: creating a path makes exactly its prefixes exist.
\<close>

section \<open>Trees and paths\<close>

type_synonym ztree = "string \<Rightarrow> string option"

definition children :: "ztree \<Rightarrow> string \<Rightarrow> string set" where
  "children t p = {n. n \<noteq> [] \<and> CHR ''/'' \<notin> set n \<and> t (p @ ''/'' @ n) \<noteq> None}"

definition part :: "string \<Rightarrow> bool" where
  "part n \<longleftrightarrow> n \<noteq> [] \<and> CHR ''/'' \<notin> set n"

definition mkpath :: "string list \<Rightarrow> string" where
  "mkpath ps = concat (map (\<lambda>p. CHR ''/'' # p) ps)"

definition law_connect :: "'z zk_ops \<Rightarrow> ('z \<Rightarrow> ztree) \<Rightarrow> bool" where
  "law_connect Z tree \<longleftrightarrow> (\<forall>hs z. \<exists>z'. zk_Connect Z hs z = (None, z') \<and> tree z' = tree z)"

definition law_exists :: "'z zk_ops \<Rightarrow> ('z \<Rightarrow> ztree) \<Rightarrow> bool" where
  "law_exists Z tree \<longleftrightarrow> (\<forall>p z. tree (zk_ExistsW Z p z) = tree z
     \<and> (\<exists>z'. zk_Exists Z p z = (Inr (tree z p \<noteq> None), z') \<and> tree z' = tree z))"

definition law_create :: "'z zk_ops \<Rightarrow> ('z \<Rightarrow> ztree) \<Rightarrow> bool" where
  "law_create Z tree \<longleftrightarrow> (\<forall>q n d e z. part n \<longrightarrow> tree z (q @ ''/'' @ n) = None \<longrightarrow> q = [] \<or> tree z q \<noteq> None \<longrightarrow>
     (\<exists>r z'. zk_Create Z (q @ ''/'' @ n) d e z = (Inr r, z')
        \<and> tree z' = (tree z)(q @ ''/'' @ n \<mapsto> (case d of None \<Rightarrow> [] | Some x \<Rightarrow> x))))"

definition law_delete :: "'z zk_ops \<Rightarrow> ('z \<Rightarrow> ztree) \<Rightarrow> bool" where
  "law_delete Z tree \<longleftrightarrow> (\<forall>p z. if tree z p = None then tree (snd (zk_Delete Z p 0 z)) = tree z
     else children (tree z) p = {} \<longrightarrow> (\<exists>z'. zk_Delete Z p 0 z = (None, z') \<and> tree z' = (tree z)(p := None)))"

definition law_children :: "'z zk_ops \<Rightarrow> ('z \<Rightarrow> ztree) \<Rightarrow> bool" where
  "law_children Z tree \<longleftrightarrow> (\<forall>p z. tree (snd (zk_ChildrenW Z p z)) = tree z \<and>
     (tree z p \<noteq> None \<longrightarrow> (\<exists>ns z'. zk_ChildrenW Z p z = (Inr ns, z') \<and> distinct ns \<and> set ns = children (tree z) p)))"

definition law_get :: "'z zk_ops \<Rightarrow> ('z \<Rightarrow> ztree) \<Rightarrow> bool" where
  "law_get Z tree \<longleftrightarrow> (\<forall>p z. tree (snd (zk_GetW Z p z)) = tree z \<and>
     (\<forall>d. tree z p = Some d \<longrightarrow> (\<exists>z'. zk_GetW Z p z = (Inr d, z'))))"

definition zk_healthy :: "'z zk_ops \<Rightarrow> ('z \<Rightarrow> ztree) \<Rightarrow> bool" where
  "zk_healthy Z tree \<longleftrightarrow> law_connect Z tree \<and> law_exists Z tree \<and> law_create Z tree
     \<and> law_delete Z tree \<and> law_children Z tree \<and> law_get Z tree"

lemmas zk_laws = law_connect_def law_exists_def law_create_def law_delete_def law_children_def law_get_def

lemma healthy_simple:
  assumes "zk_healthy Z tree"
  shows healthy_Connect: "\<exists>z'. zk_Connect Z hs z = (None, z') \<and> tree z' = tree z"
    and healthy_Exists: "\<exists>z'. zk_Exists Z p z = (Inr (tree z p \<noteq> None), z') \<and> tree z' = tree z"
    and healthy_ExistsW: "tree (zk_ExistsW Z p z) = tree z"
    and healthy_Children_tree: "tree (snd (zk_ChildrenW Z p z)) = tree z"
    and healthy_Get_tree: "tree (snd (zk_GetW Z p z)) = tree z"
    and healthy_Delete_none: "tree z p = None \<Longrightarrow> tree (snd (zk_Delete Z p 0 z)) = tree z"
  using assms by (simp_all add: zk_healthy_def zk_laws)

lemma healthy_Create:
  assumes "zk_healthy Z tree" "part n" "tree z (q @ ''/'' @ n) = None" "q = [] \<or> tree z q \<noteq> None"
  shows "\<exists>r z'. zk_Create Z (q @ ''/'' @ n) d e z = (Inr r, z')
    \<and> tree z' = (tree z)(q @ ''/'' @ n \<mapsto> (case d of None \<Rightarrow> [] | Some x \<Rightarrow> x))"
proof -
  have "law_create Z tree" using assms(1) by (simp add: zk_healthy_def)
  from this [unfolded law_create_def, rule_format, OF assms(2-4)] show ?thesis .
qed

lemma healthy_Delete:
  assumes "zk_healthy Z tree" "tree z p \<noteq> None" "children (tree z) p = {}"
  shows "\<exists>z'. zk_Delete Z p 0 z = (None, z') \<and> tree z' = (tree z)(p := None)"
proof -
  have "law_delete Z tree" using assms(1) by (simp add: zk_healthy_def)
  from this [unfolded law_delete_def, rule_format, of z p] assms(2,3) show ?thesis by simp
qed

lemma healthy_Children:
  assumes Z: "zk_healthy Z tree" and p: "tree z p \<noteq> None"
  shows "\<exists>ns z'. zk_ChildrenW Z p z = (Inr ns, z') \<and> distinct ns \<and> set ns = children (tree z) p \<and> tree z' = tree z"
proof -
  have "law_children Z tree" using Z by (simp add: zk_healthy_def)
  then obtain ns z' where "zk_ChildrenW Z p z = (Inr ns, z')" "distinct ns" "set ns = children (tree z) p"
    using p unfolding law_children_def by blast
  with healthy_Children_tree [OF Z, of p z] show ?thesis by simp
qed

lemma healthy_Get:
  assumes Z: "zk_healthy Z tree" and p: "tree z p = Some d"
  shows "\<exists>z'. zk_GetW Z p z = (Inr d, z') \<and> tree z' = tree z"
proof -
  have "law_get Z tree" using Z by (simp add: zk_healthy_def)
  then obtain z' where "zk_GetW Z p z = (Inr d, z')" using p unfolding law_get_def by blast
  with healthy_Get_tree [OF Z, of p z] show ?thesis by simp
qed

section \<open>Paths\<close>

lemma mkpath_simps [simp]: "mkpath [] = []" "mkpath (p # ps) = CHR ''/'' # p @ mkpath ps"
  "mkpath (ps @ qs) = mkpath ps @ mkpath qs"
  by (simp_all add: mkpath_def)

lemma mkpath_snoc: "mkpath (ps @ [p]) = mkpath ps @ ''/'' @ p"
  by simp

lemma Split_mkpath: "\<forall>p \<in> set ps. CHR ''/'' \<notin> set p \<Longrightarrow> CHR ''/'' \<notin> set x \<Longrightarrow>
  Split CHR ''/'' (x @ mkpath ps) = x # ps"
proof (induction ps arbitrary: x)
  case Nil
  then show ?case by (simp add: Split_no_sep)
next
  case (Cons p ps)
  then show ?case using Split_append [of "CHR ''/''" x "p @ mkpath ps"] by simp
qed

lemma mkpath_nonempty: "ps \<noteq> [] \<Longrightarrow> \<forall>p \<in> set ps. part p \<Longrightarrow> \<not> HasSuffix (mkpath ps) ''/''"
proof (induction ps rule: rev_induct)
  case (snoc p ps)
  then have p: "p \<noteq> []" "CHR ''/'' \<notin> set p" by (simp_all add: part_def)
  then have "last p \<noteq> CHR ''/''" by (metis last_in_set)
  with p show ?case
    by (cases p rule: rev_cases) (auto simp: HasSuffix_def)
qed simp

lemma mkpath_inj:
  "\<forall>p \<in> set ps. part p \<Longrightarrow> \<forall>p \<in> set qs. part p \<Longrightarrow> mkpath ps = mkpath qs \<Longrightarrow> ps = qs"
  using Split_mkpath [of ps "[]"] Split_mkpath [of qs "[]"] by (auto simp: part_def)

section \<open>Creating a path\<close>

text \<open>The tree with the missing prefixes of a path, below a directory, made.\<close>

definition with_dirs :: "string list \<Rightarrow> string list \<Rightarrow> ztree \<Rightarrow> ztree" where
  "with_dirs qs ps t = (\<lambda>p. if t p = None \<and> (\<exists>i < length ps. p = mkpath (qs @ take (Suc i) ps)) then Some [] else t p)"

lemma with_dirs_Nil [simp]: "with_dirs qs [] t = t"
  by (simp add: with_dirs_def)

lemma with_dirs_Cons:
  "with_dirs qs (p # ps) t = with_dirs (qs @ [p]) ps (if t (mkpath (qs @ [p])) = None then t(mkpath (qs @ [p]) \<mapsto> []) else t)"
proof
  fix x
  have ex: "(\<exists>i < length (p # ps). x = mkpath (qs @ take (Suc i) (p # ps))) \<longleftrightarrow>
      x = mkpath (qs @ [p]) \<or> (\<exists>i < length ps. x = mkpath ((qs @ [p]) @ take (Suc i) ps))"
    by (auto simp: less_Suc_eq_0_disj)
  show "with_dirs qs (p # ps) t x =
      with_dirs (qs @ [p]) ps (if t (mkpath (qs @ [p])) = None then t(mkpath (qs @ [p]) \<mapsto> []) else t) x"
    unfolding with_dirs_def ex by auto
qed

definition abs_path :: "string list \<Rightarrow> string" where
  "abs_path qs = (if qs = [] then ''/'' else mkpath qs)"

lemma create_loop_healthy:
  assumes Z: "zk_healthy Z tree"
  shows "\<forall>p \<in> set (qs @ ps). part p \<Longrightarrow> qs = [] \<or> tree z (mkpath qs) \<noteq> None \<Longrightarrow>
    \<exists>z'. create_loop Z sp ps (abs_path qs) z = (Ret None, z') \<and> tree z' = with_dirs qs ps (tree z)"
proof (induction ps arbitrary: qs z)
  case Nil
  then show ?case by simp
next
  case (Cons p ps)
  have p: "part p" "p \<noteq> [] \<and> p \<noteq> ''/''" using Cons.prems(1) by (auto simp: part_def)
  have next_abs: "concat_go [if \<not> HasSuffix (abs_path qs) ZK_PATH_DELIMITER then concat_go [abs_path qs, ZK_PATH_DELIMITER] else abs_path qs, p]
      = mkpath (qs @ [p])"
    using Cons.prems(1) mkpath_nonempty [of qs]
    by (auto simp: abs_path_def ZK_PATH_DELIMITER_def HasSuffix_def)
  have step: "create_loop Z sp (p # ps) (abs_path qs) z =
      (case zk_Exists Z (mkpath (qs @ [p])) z of
         (Inl err, z) \<Rightarrow> (Ret (Some err), z)
       | (Inr True, z) \<Rightarrow> create_loop Z sp ps (mkpath (qs @ [p])) z
       | (Inr False, z) \<Rightarrow>
           (case zk_Create Z (mkpath (qs @ [p])) (Some []) False z of
              (Inl err, z) \<Rightarrow> (Panic (''NewZKManager|CreateNode|FAIL|'' @ sp), zk_Close Z z)
            | (Inr resp, z) \<Rightarrow> create_loop Z sp ps (mkpath (qs @ [p])) z))"
    unfolding create_loop.simps Let_def next_abs using p(2) by (simp add: ZK_ROOT_def)
  have ap: "abs_path (qs @ [p]) = mkpath (qs @ [p])" by (simp add: abs_path_def)
  obtain z1 where e: "zk_Exists Z (mkpath (qs @ [p])) z = (Inr (tree z (mkpath (qs @ [p])) \<noteq> None), z1)" "tree z1 = tree z"
    using healthy_Exists [OF Z] by blast
  have parts: "\<forall>x \<in> set ((qs @ [p]) @ ps). part x" using Cons.prems(1) by auto
  show ?case
  proof (cases "tree z (mkpath (qs @ [p])) = None")
    case False
    then have "\<exists>z'. create_loop Z sp ps (abs_path (qs @ [p])) z1 = (Ret None, z') \<and> tree z' = with_dirs (qs @ [p]) ps (tree z1)"
      using Cons.IH [OF parts, of z1] e by simp
    with False e show ?thesis
      unfolding step by (auto simp: with_dirs_Cons ap simp del: mkpath_simps(3))
  next
    case True
    with e Cons.prems(2) have "tree z1 (mkpath qs @ ''/'' @ p) = None" "mkpath qs = [] \<or> tree z1 (mkpath qs) \<noteq> None"
      by (auto simp: mkpath_snoc simp del: mkpath_simps(3))
    from healthy_Create [OF Z p(1) this, of "Some []" False] obtain r z2 where
      c: "zk_Create Z (mkpath (qs @ [p])) (Some []) False z1 = (Inr r, z2)"
         "tree z2 = (tree z)(mkpath (qs @ [p]) \<mapsto> [])"
      unfolding mkpath_snoc using e by auto
    then have nn: "tree z2 (mkpath (qs @ [p])) \<noteq> None" by simp
    have "\<exists>z'. create_loop Z sp ps (abs_path (qs @ [p])) z2 = (Ret None, z') \<and> tree z' = with_dirs (qs @ [p]) ps (tree z2)"
      by (rule Cons.IH [OF parts]) (rule disjI2, rule nn)
    with True e c show ?thesis
      unfolding step by (simp add: with_dirs_Cons ap del: mkpath_simps(3))
  qed
qed

lemma CreateNode_healthy:
  assumes Z: "zk_healthy Z tree" and ps: "\<forall>p \<in> set ps. part p"
  shows "\<exists>z'. CreateNode Z (mkpath ps) z = (Ret None, z') \<and> tree z' = with_dirs [] ps (tree z)"
proof -
  have "Split CHR ''/'' (mkpath ps) = [] # ps"
    using Split_mkpath [of ps "[]"] ps by (auto simp: part_def)
  moreover have "abs_path [] = ZK_ROOT" by (simp add: abs_path_def ZK_ROOT_def)
  ultimately show ?thesis
    using create_loop_healthy [OF Z, of "[]" ps z "mkpath ps"] ps by (simp add: CreateNode_def)
qed

section \<open>A server in memory\<close>

definition mem_children :: "string \<Rightarrow> (string, string) gomap \<Rightarrow> string list" where
  "mem_children p t = remdups (filter part (map (\<lambda>q. TrimPrefix q (p @ ''/''))
     (filter (\<lambda>q. HasPrefix q (p @ ''/'')) (map fst t))))"

definition mem_zk :: "(string, string) gomap zk_ops" where
  "mem_zk = \<lparr>zk_Connect = (\<lambda>hs z. (None, z)),
     zk_Exists = (\<lambda>p z. (Inr (map_of z p \<noteq> None), z)),
     zk_ExistsW = (\<lambda>p z. z),
     zk_Create = (\<lambda>p d e z. if map_of z p = None then (Inr p, AList.update p (case d of None \<Rightarrow> [] | Some x \<Rightarrow> x) z)
                           else (Inl ''node exists'', z)),
     zk_Delete = (\<lambda>p v z. if map_of z p = None then (Some ''no node'', z)
                         else if mem_children p z \<noteq> [] then (Some ''not empty'', z) else (None, AList.delete p z)),
     zk_ChildrenW = (\<lambda>p z. if map_of z p = None then (Inl ''no node'', z) else (Inr (mem_children p z), z)),
     zk_GetW = (\<lambda>p z. case map_of z p of None \<Rightarrow> (Inl ''no node'', z) | Some d \<Rightarrow> (Inr d, z)),
     zk_Close = (\<lambda>z. z)\<rparr>"

lemma set_mem_children: "set (mem_children p t) = children (map_of t) p"
proof -
  have "n \<in> set (mem_children p t) \<longleftrightarrow> part n \<and> p @ ''/'' @ n \<in> fst ` set t" for n
  proof -
    have "n \<in> set (mem_children p t) \<longleftrightarrow> part n \<and> (\<exists>q \<in> fst ` set t. HasPrefix q (p @ ''/'') \<and> n = TrimPrefix q (p @ ''/''))"
      by (auto simp: mem_children_def)
    also have "(\<exists>q \<in> fst ` set t. HasPrefix q (p @ ''/'') \<and> n = TrimPrefix q (p @ ''/'')) \<longleftrightarrow> p @ ''/'' @ n \<in> fst ` set t"
    proof
      assume "\<exists>q \<in> fst ` set t. HasPrefix q (p @ ''/'') \<and> n = TrimPrefix q (p @ ''/'')"
      then show "p @ ''/'' @ n \<in> fst ` set t"
        using TrimPrefix_append [of "p @ ''/''"] by (auto simp: HasPrefix_iff) force
    next
      assume "p @ ''/'' @ n \<in> fst ` set t"
      then show "\<exists>q \<in> fst ` set t. HasPrefix q (p @ ''/'') \<and> n = TrimPrefix q (p @ ''/'')"
        by (rule rev_bexI) (use HasPrefix_append [of "p @ ''/''" n] TrimPrefix_append [of "p @ ''/''" n] in simp)
    qed
    finally show ?thesis .
  qed
  moreover have "(map_of t k \<noteq> None) \<longleftrightarrow> k \<in> fst ` set t" for k by (simp add: map_of_eq_None_iff)
  ultimately show ?thesis by (auto simp: children_def part_def)
qed

lemma mem_zk_healthy: "zk_healthy mem_zk map_of"
proof -
  have d: "distinct (mem_children p z)" for p z by (simp add: mem_children_def)
  have e: "mem_children p z = [] \<longleftrightarrow> children (map_of z) p = {}" for p z
    using set_mem_children [of p z] by (metis set_empty)
  show ?thesis
    unfolding zk_healthy_def zk_laws
    by (simp add: mem_zk_def e d set_mem_children fun_eq_iff map_simps split: option.split)
qed

end
