(* ===== verification/Moa_Zk_Registry_Laws.thy ===== *)
theory Moa_Zk_Registry_Laws
  imports Moa_Zk_Registry Moa_Zk_Laws
begin

text \<open>
  The zookeeper registry on a healthy server: what publishing and unpublishing leave in the tree,
  what pulling reads from it. A service's key is its URI with its group; it is well formed
  (\<open>uri_ok\<close>) when it is a sequence of non-empty parts, each behind a slash.
\<close>

section \<open>Keys\<close>

definition key_parts :: "string \<Rightarrow> string list" where
  "key_parts key = tl (Split CHR ''/'' key)"

definition uri_ok :: "string \<Rightarrow> bool" where
  "uri_ok key \<longleftrightarrow> key \<noteq> [] \<and> hd key = CHR ''/'' \<and> list_all part (key_parts key)"

definition root_parts :: "string list" where
  "root_parts = [''moa'', ''service'', ''v1'']"

lemma mkpath_join: "ps \<noteq> [] \<Longrightarrow> CHR ''/'' # join CHR ''/'' ps = mkpath ps"
proof (induction ps)
  case (Cons p ps)
  then show ?case by (cases ps) simp_all
qed simp

lemma uri_ok_mkpath:
  assumes "uri_ok key"
  shows "key = mkpath (key_parts key)" and "key_parts key \<noteq> []" and "\<forall>p \<in> set (key_parts key). part p"
proof -
  from assms obtain k where k: "key = CHR ''/'' # k" by (cases key) (auto simp: uri_ok_def)
  have s: "Split CHR ''/'' key = [] # Split CHR ''/'' k"
    using Split_append [of "CHR ''/''" "[]" k] by (simp add: k)
  then show ne: "key_parts key \<noteq> []" by (simp add: key_parts_def Split_not_Nil)
  from s show "key = mkpath (key_parts key)"
    using mkpath_join [OF Split_not_Nil, of "CHR ''/''" k] unfolding key_parts_def s by (simp add: k join_Split)
  show "\<forall>p \<in> set (key_parts key). part p" using assms by (simp add: uri_ok_def list_all_iff)
qed

lemma key_parts_mkpath: "ps \<noteq> [] \<Longrightarrow> \<forall>p \<in> set ps. part p \<Longrightarrow> key_parts (mkpath ps) = ps"
  using Split_mkpath [of ps "[]"] by (simp add: key_parts_def part_def)

lemma service_path_mkpath: "uri_ok key \<Longrightarrow> service_path key = mkpath (root_parts @ key_parts key)"
  using uri_ok_mkpath(1) [of key]
  by (simp add: service_path_def root_parts_def ZK_MOA_ROOT_PATH_def ZK_PATH_DELIMITER_def PROTOCOL_def)

lemma parts_ok: "uri_ok key \<Longrightarrow> \<forall>p \<in> set (root_parts @ key_parts key). part p"
  using uri_ok_mkpath(3) [of key] by (auto simp: root_parts_def part_def)

lemma publish_path_service: "publish_path PROTOCOL u g = service_path (BuildServiceUri u g)"
  by (simp add: publish_path_def service_path_def)

definition addr_path :: "string \<Rightarrow> string \<Rightarrow> string" where
  "addr_path key hp = service_path key @ ''/'' @ hp"

lemma addr_path_mkpath: "uri_ok key \<Longrightarrow> addr_path key hp = mkpath (root_parts @ key_parts key @ [hp])"
  by (simp add: addr_path_def service_path_mkpath)

lemma path_uri_service: "\<not> list_ex is_space uri \<Longrightarrow> path_uri (service_path uri) = Ret uri"
proof -
  assume u: "\<not> list_ex is_space uri"
  have "service_path uri = ''/moa/service/v1'' @ uri"
    by (simp add: service_path_def ZK_MOA_ROOT_PATH_def ZK_PATH_DELIMITER_def PROTOCOL_def)
  then have "after_first ''/moa/service/v1'' (service_path uri) = Some uri"
    using after_first_append [of "''/moa/service/v1''" uri] by simp
  moreover have "takeWhile (\<lambda>c. \<not> is_space c) uri = uri"
    using u by (simp add: takeWhile_eq_all_conv list_ex_iff)
  ultimately show ?thesis by (simp add: path_uri_def)
qed

section \<open>Trees where addresses are leaves\<close>

text \<open>No node lies below a node named like the address.\<close>

definition leaf_host :: "ztree \<Rightarrow> string \<Rightarrow> bool" where
  "leaf_host t hp \<longleftrightarrow> (\<forall>ps n. (\<forall>p \<in> set ps. part p) \<longrightarrow> part n \<longrightarrow> t (mkpath (ps @ [hp, n])) = None)"

lemma leaf_host_children:
  "leaf_host t hp \<Longrightarrow> uri_ok key \<Longrightarrow> children t (addr_path key hp) = {}"
  using parts_ok [of key]
  by (auto simp: leaf_host_def children_def addr_path_mkpath part_def simp del: mkpath_simps(3))
     (metis append.assoc append_Cons append_Nil mkpath_snoc option.distinct(1) set_append Un_iff)


section \<open>Publishing\<close>

text \<open>The tree after a service's address has been published with some data.\<close>

definition dirs_for :: "string \<Rightarrow> ztree \<Rightarrow> ztree" where
  "dirs_for key t = (if t (service_path key) = None then with_dirs [] (root_parts @ key_parts key) t else t)"

definition publish_tree :: "string \<Rightarrow> string \<Rightarrow> string \<Rightarrow> ztree \<Rightarrow> ztree" where
  "publish_tree key hp d t = (dirs_for key t)(addr_path key hp \<mapsto> d)"

lemma dirs_for_cases:
  assumes "uri_ok key"
  shows "dirs_for key t p = t p \<or> t p = None \<and> dirs_for key t p = Some [] \<and>
    (\<exists>i < length (root_parts @ key_parts key). p = mkpath (take (Suc i) (root_parts @ key_parts key)))"
  by (auto simp: dirs_for_def with_dirs_def)

lemma dirs_for_service: "uri_ok key \<Longrightarrow> dirs_for key t (service_path key) \<noteq> None"
proof -
  assume k: "uri_ok key"
  let ?ps = "root_parts @ key_parts key"
  have "length ?ps - 1 < length ?ps" "service_path key = mkpath (take (Suc (length ?ps - 1)) ?ps)"
    using service_path_mkpath [OF k] by (simp_all add: root_parts_def)
  then have "\<exists>i < length ?ps. service_path key = mkpath ([] @ take (Suc i) ?ps)" by (metis append_Nil)
  then show ?thesis by (simp add: dirs_for_def with_dirs_def)
qed

lemma mkpath_take_length: "length (mkpath (take k ps)) \<le> length (mkpath ps)"
  by (metis append_take_drop_id le_add1 length_append mkpath_simps(3))

lemma dirs_for_long: "uri_ok key \<Longrightarrow> length (service_path key) < length p \<Longrightarrow> dirs_for key t p = t p"
  using dirs_for_cases [of key t p] mkpath_take_length [of _ "root_parts @ key_parts key"]
  by (auto simp: service_path_mkpath simp del: mkpath_simps) (metis leD)+

lemma dirs_for_prefix:
  assumes k: "uri_ok key" and p: "dirs_for key t p \<noteq> None" "t p = None"
  shows "HasPrefix (addr_path key hp) p"
proof -
  let ?ps = "root_parts @ key_parts key"
  obtain i where i: "p = mkpath (take (Suc i) ?ps)" using dirs_for_cases [OF k, of t p] p by auto
  have "addr_path key hp = mkpath (take (Suc i) ?ps @ drop (Suc i) ?ps) @ ''/'' @ hp"
    unfolding append_take_drop_id by (simp add: addr_path_def service_path_mkpath [OF k])
  then have "addr_path key hp = p @ mkpath (drop (Suc i) ?ps) @ ''/'' @ hp"
    unfolding i mkpath_simps(3) by simp
  then show ?thesis unfolding HasPrefix_iff by blast
qed

lemma addr_path_long: "length (service_path key) < length (addr_path key hp)"
  by (simp add: addr_path_def)

lemma publish_tree_addr [simp]: "publish_tree key hp d t (addr_path key hp) = Some d"
  by (simp add: publish_tree_def)

lemma publish_tree_service: "uri_ok key \<Longrightarrow> publish_tree key hp d t (service_path key) \<noteq> None"
  using dirs_for_service [of key t] addr_path_long [of key hp] by (auto simp: publish_tree_def)

lemma publish_tree_keeps: "t p \<noteq> None \<Longrightarrow> p \<noteq> addr_path key hp \<Longrightarrow> publish_tree key hp d t p = t p"
  by (auto simp: publish_tree_def dirs_for_def with_dirs_def)

lemma publish_tree_children:
  assumes k: "uri_ok key" and hp: "part hp"
  shows "children (publish_tree key hp d t) (service_path key) = insert hp (children t (service_path key))"
proof -
  have "publish_tree key hp d t (service_path key @ ''/'' @ n) = (if n = hp then Some d else t (service_path key @ ''/'' @ n))" for n
    using dirs_for_long [OF k, of "service_path key @ ''/'' @ n" t] by (simp add: publish_tree_def addr_path_def)
  with hp show ?thesis by (auto simp: children_def part_def split: if_splits)
qed

lemma publish_node_healthy:
  assumes Z: "zk_healthy Z tree" and k: "uri_ok key" and hp: "part hp"
    and leaf: "children (tree z) (addr_path key hp) = {}" and sp: "tree z (service_path key) \<noteq> None"
  shows "\<exists>z'. publish_node Z (addr_path key hp) m z = (Ret True, z')
    \<and> tree z' = (tree z)(addr_path key hp \<mapsto> ServiceMeta_marshal m)"
proof -
  let ?a = "addr_path key hp"
  obtain ign z1 where d: "zk_Delete Z ?a 0 z = (ign, z1)" by (cases "zk_Delete Z ?a 0 z")
  have t1: "tree z1 = (tree z)(?a := None)"
  proof (cases "tree z ?a = None")
    case True
    with healthy_Delete_none [OF Z this] show ?thesis by (simp add: d fun_upd_idem)
  next
    case False
    with healthy_Delete [OF Z False leaf] show ?thesis by (simp add: d)
  qed
  have "service_path key \<noteq> ?a" using addr_path_long [of key hp] by auto
  then have "tree z1 (service_path key @ ''/'' @ hp) = None" "service_path key = [] \<or> tree z1 (service_path key) \<noteq> None"
    using sp unfolding t1 addr_path_def by simp_all
  from healthy_Create [OF Z hp this, of "Some (ServiceMeta_marshal m)" True]
  obtain r z' where "zk_Create Z ?a (Some (ServiceMeta_marshal m)) True z1 = (Inr r, z')"
    "tree z' = (tree z1)(?a \<mapsto> ServiceMeta_marshal m)"
    unfolding addr_path_def by auto
  then show ?thesis by (simp add: publish_node_def d t1)
qed

lemma zk_publish_eq:
  "zk_publish Z u hp PROTOCOL g m z =
     (case zk_Exists Z (service_path (BuildServiceUri u g)) z of
        (Inl err, z) \<Rightarrow> (Panic (cannot_create @ service_path (BuildServiceUri u g) @ err), zk_Close Z z)
      | (Inr True, z) \<Rightarrow> publish_node Z (addr_path (BuildServiceUri u g) hp) m z
      | (Inr False, z) \<Rightarrow>
          (case CreateNode Z (service_path (BuildServiceUri u g)) z of
             (Panic e, z) \<Rightarrow> (Panic e, z)
           | (Ret (Some err), z) \<Rightarrow> (Panic (registe_failed (service_path (BuildServiceUri u g)) err), z)
           | (Ret None, z) \<Rightarrow> publish_node Z (addr_path (BuildServiceUri u g) hp) m z))"
proof -
  have addr: "concat_go [service_path (BuildServiceUri u g), ZK_PATH_DELIMITER, hp] = addr_path (BuildServiceUri u g) hp"
    by (simp add: addr_path_def ZK_PATH_DELIMITER_def)
  show ?thesis unfolding zk_publish_def Let_def publish_path_service addr by (rule refl)
qed

lemma zk_unpublish_eq:
  "zk_unpublish Z u hp PROTOCOL g z =
     (case zk_Exists Z (addr_path (BuildServiceUri u g) hp) z of
        (Inl err, z) \<Rightarrow> (Ret False, z)
      | (Inr False, z) \<Rightarrow> (Ret True, z)
      | (Inr True, z) \<Rightarrow>
          (case zk_Delete Z (addr_path (BuildServiceUri u g) hp) 0 z of
             (Some err, z) \<Rightarrow> (Ret False, z)
           | (None, z) \<Rightarrow> (Ret True, z)))"
proof -
  have addr: "concat_go [concat_go [ZK_MOA_ROOT_PATH, ZK_PATH_DELIMITER, PROTOCOL], BuildServiceUri u g, ZK_PATH_DELIMITER, hp]
      = addr_path (BuildServiceUri u g) hp"
    by (simp add: addr_path_def service_path_def ZK_PATH_DELIMITER_def)
  show ?thesis unfolding zk_unpublish_def Let_def addr by (rule refl)
qed

lemma zk_publish_healthy:
  assumes Z: "zk_healthy Z tree" and k: "uri_ok (BuildServiceUri u g)" and hp: "part hp"
    and leaf: "children (tree z) (addr_path (BuildServiceUri u g) hp) = {}"
  shows "\<exists>z'. zk_publish Z u hp PROTOCOL g m z = (Ret True, z')
    \<and> tree z' = publish_tree (BuildServiceUri u g) hp (ServiceMeta_marshal m) (tree z)"
proof -
  let ?k = "BuildServiceUri u g"
  obtain z1 where e: "zk_Exists Z (service_path ?k) z = (Inr (tree z (service_path ?k) \<noteq> None), z1)" "tree z1 = tree z"
    using healthy_Exists [OF Z] by blast
  show ?thesis
  proof (cases "tree z (service_path ?k) = None")
    case True
    obtain z2 where c: "CreateNode Z (service_path ?k) z1 = (Ret None, z2)" "tree z2 = with_dirs [] (root_parts @ key_parts ?k) (tree z)"
      using CreateNode_healthy [OF Z parts_ok [OF k], of z1] e(2) service_path_mkpath [OF k] by auto
    have t2: "tree z2 = dirs_for ?k (tree z)" using True c(2) by (simp add: dirs_for_def)
    have "children (tree z2) (addr_path ?k hp) = children (tree z) (addr_path ?k hp)"
      using dirs_for_long [OF k] addr_path_long [of ?k hp] by (simp add: children_def t2)
    with publish_node_healthy [OF Z k hp, of z2 m] leaf dirs_for_service [OF k, of "tree z"]
    show ?thesis
      using True e c by (simp add: zk_publish_eq publish_tree_def t2)
  next
    case False
    with publish_node_healthy [OF Z k hp, of z1 m] leaf e
    show ?thesis
      by (auto simp: zk_publish_eq publish_tree_def dirs_for_def)
  qed
qed

lemma zk_unpublish_healthy:
  assumes Z: "zk_healthy Z tree" and leaf: "children (tree z) (addr_path (BuildServiceUri u g) hp) = {}"
  shows "\<exists>z'. zk_unpublish Z u hp PROTOCOL g z = (Ret True, z')
    \<and> tree z' = (tree z)(addr_path (BuildServiceUri u g) hp := None)"
proof -
  let ?a = "addr_path (BuildServiceUri u g) hp"
  obtain z1 where e: "zk_Exists Z ?a z = (Inr (tree z ?a \<noteq> None), z1)" "tree z1 = tree z"
    using healthy_Exists [OF Z] by blast
  show ?thesis
  proof (cases "tree z ?a = None")
    case True
    with e show ?thesis by (simp add: zk_unpublish_eq fun_upd_idem)
  next
    case False
    with healthy_Delete [OF Z, of z1 ?a] leaf e show ?thesis
      by (auto simp: zk_unpublish_eq)
  qed
qed


section \<open>Pulling\<close>

text \<open>What a client reads of a service: the nodes below its path in the order of their names.\<close>

definition node_at :: "ztree \<Rightarrow> string \<Rightarrow> string \<Rightarrow> ServiceMeta" where
  "node_at t key h = node_meta key h (Inr (the (t (addr_path key h))))"

definition pulled :: "ztree \<Rightarrow> string \<Rightarrow> ServiceMeta list" where
  "pulled t key = map (node_at t key) (sorted_list_of_set (children t (service_path key)))"

lemma sort_distinct: "distinct xs \<Longrightarrow> sort xs = sorted_list_of_set (set xs)" for xs :: "string list"
  by (metis distinct_sort set_sort sorted_list_of_set.idem_if_sorted_distinct sorted_sort)

lemma pull_loop_healthy:
  assumes Z: "zk_healthy Z tree"
  shows "\<forall>h \<in> set hs. tree z (addr_path key h) \<noteq> None \<Longrightarrow>
    \<exists>z'. pull_loop Z (service_path key) key hs z = (map (node_at (tree z) key) hs, z') \<and> tree z' = tree z"
proof (induction hs arbitrary: z)
  case Nil
  then show ?case by simp
next
  case (Cons h hs)
  have path: "Sprintf ''%s%s%s'' [FStr (service_path key), FStr ZK_PATH_DELIMITER, FStr h] = addr_path key h"
    by (simp add: addr_path_def ZK_PATH_DELIMITER_def)
  obtain d where d: "tree z (addr_path key h) = Some d" using Cons.prems by auto
  obtain z1 where g: "zk_GetW Z (addr_path key h) z = (Inr d, z1)" "tree z1 = tree z"
    using healthy_Get [OF Z d] by blast
  with Cons.IH [of z1] Cons.prems show ?case
    unfolding pull_loop.simps path by (auto simp: node_at_def d)
qed

lemma Pull_healthy:
  assumes Z: "zk_healthy Z tree" and hs: "distinct hs" "set hs = children (tree z) (service_path key)"
  shows "\<exists>z'. PullChildrenData Z (service_path key) key hs z = (Inr (pulled (tree z) key), z') \<and> tree z' = tree z"
proof -
  have "\<forall>h \<in> set (sort hs). tree z (addr_path key h) \<noteq> None"
    using hs(2) by (auto simp: children_def addr_path_def)
  from pull_loop_healthy [OF Z this] show ?thesis
    by (auto simp: PullChildrenData_def pulled_def sort_distinct hs)
qed

lemma pull_loop_tree: "zk_healthy Z tree \<Longrightarrow> tree (snd (pull_loop Z pp key hs z)) = tree z"
proof (induction hs arbitrary: z)
  case (Cons h hs)
  let ?p = "Sprintf ''%s%s%s'' [FStr pp, FStr ZK_PATH_DELIMITER, FStr h]"
  obtain r z1 where g: "zk_GetW Z ?p z = (r, z1)" by (cases "zk_GetW Z ?p z")
  obtain ms z2 where p: "pull_loop Z pp key hs z1 = (ms, z2)" by (cases "pull_loop Z pp key hs z1")
  have "tree z1 = tree z" using healthy_Get_tree [OF Cons.prems, of ?p z] g by simp
  moreover have "tree z2 = tree z1" using Cons.IH [OF Cons.prems, of z1] p by simp
  ultimately show ?case unfolding pull_loop.simps g prod.case p by simp
qed simp

section \<open>Subscribing\<close>

definition cache :: "'z zk_sys \<Rightarrow> string \<Rightarrow> ServiceMeta list option" where
  "cache s = map_of (zr_uri2Services (zs_registry s))"

text \<open>One round of the loop: the tree is kept and only the entry of this key may change.\<close>

lemma subscribe_step:
  assumes Z: "zk_healthy Z tree"
  obtains s1 where "subscribe_loop Z (key # keys) s = subscribe_loop Z keys s1"
    and "tree (zs_conn s1) = tree (zs_conn s)"
    and "\<And>k. k \<noteq> key \<Longrightarrow> cache s1 k = cache s k"
    and "tree (zs_conn s) (service_path key) \<noteq> None \<Longrightarrow> cache s1 key = Some (pulled (tree (zs_conn s)) key)"
proof -
  let ?s = "s\<lparr>zs_manager := snd (RegisteWatcher (service_path key) WatchRegistry (zs_manager s))\<rparr>"
  obtain r z1 where c: "zk_ChildrenW Z (service_path key) (zs_conn s) = (r, z1)" by (cases "zk_ChildrenW Z (service_path key) (zs_conn s)")
  have t1: "tree z1 = tree (zs_conn s)" using healthy_Children_tree [OF Z, of "service_path key" "zs_conn s"] c by simp
  show ?thesis
  proof (cases r)
    case (Inl e)
    then have "tree (zs_conn s) (service_path key) = None"
      using healthy_Children [OF Z, of "zs_conn s" "service_path key"] c
      by (cases "tree (zs_conn s) (service_path key)") auto
    then show ?thesis
      using that [of "?s\<lparr>zs_conn := z1\<rparr>"] c t1 Inl by (simp add: on_conn_def cache_def)
  next
    case (Inr hosts)
    obtain ms z2 where p: "PullChildrenData Z (service_path key) key hosts z1 = (Inr ms, z2)"
      by (cases "pull_loop Z (service_path key) key (sort hosts) z1") (simp add: PullChildrenData_def)
    have t2: "tree z2 = tree z1"
      using pull_loop_tree [OF Z, of "service_path key" key "sort hosts" z1] p
      by (cases "pull_loop Z (service_path key) key (sort hosts) z1") (simp add: PullChildrenData_def)
    let ?s1 = "?s\<lparr>zs_conn := z2, zs_registry := (zs_registry s)\<lparr>zr_uri2Services := AList.update key ms (zr_uri2Services (zs_registry s))\<rparr>\<rparr>"
    have "ms = pulled (tree (zs_conn s)) key" if "tree (zs_conn s) (service_path key) \<noteq> None"
      using healthy_Children [OF Z that] c Inr Pull_healthy [OF Z, of hosts z1 key] p t1 by auto
    then show ?thesis
      using that [of ?s1] c p Inr t1 t2 by (simp add: on_conn_def cache_def map_simps)
  qed
qed

lemma subscribe_loop_healthy:
  assumes Z: "zk_healthy Z tree"
  shows "tree (zs_conn (subscribe_loop Z keys s)) = tree (zs_conn s)
    \<and> (\<forall>key. tree (zs_conn s) (service_path key) \<noteq> None \<longrightarrow> key \<in> set keys \<or> cache s key = Some (pulled (tree (zs_conn s)) key) \<longrightarrow>
         cache (subscribe_loop Z keys s) key = Some (pulled (tree (zs_conn s)) key))"
proof (induction keys arbitrary: s)
  case Nil
  then show ?case by simp
next
  case (Cons k keys)
  obtain s1 where s1: "subscribe_loop Z (k # keys) s = subscribe_loop Z keys s1"
    "tree (zs_conn s1) = tree (zs_conn s)" "\<And>x. x \<noteq> k \<Longrightarrow> cache s1 x = cache s x"
    "tree (zs_conn s) (service_path k) \<noteq> None \<Longrightarrow> cache s1 k = Some (pulled (tree (zs_conn s)) k)"
    using subscribe_step [OF Z] by metis
  show ?case
    unfolding s1(1) using Cons.IH [of s1] s1(2-) by (metis set_ConsD)
qed

lemma zk_GetService_cache:
  "zk_GetService u p g s = Ret (case cache s (BuildServiceUri u g) of
     None \<Rightarrow> Inl (''No Hosts! /moa/service/'' @ p @ u) | Some l \<Rightarrow> Inr l)"
  by (simp add: zk_GetService_def cache_def Let_def split: option.split)

lemma root_part: "\<forall>p \<in> set root_parts. part p"
  by (simp add: root_parts_def part_def)

lemma NewZKManager_healthy:
  assumes Z: "zk_healthy Z tree"
  shows "\<exists>m z'. NewZKManager Z hosts z = (Ret m, z') \<and> tree z' = with_dirs [] root_parts (tree z) \<and> wathcers m = []"
proof -
  have p: "ZK_MOA_ROOT_PATH @ ZK_PATH_DELIMITER @ PROTOCOL = mkpath root_parts"
    by (simp add: root_parts_def ZK_MOA_ROOT_PATH_def ZK_PATH_DELIMITER_def PROTOCOL_def)
  let ?h = "if length hosts \<le> 0 then ''localhost:2181'' else hosts"
  obtain z1 where c: "zk_Connect Z (Split CHR '','' ?h) z = (None, z1)" "tree z1 = tree z"
    using healthy_Connect [OF Z] by blast
  obtain z2 where n: "CreateNode Z (mkpath root_parts) z1 = (Ret None, z2)" "tree z2 = with_dirs [] root_parts (tree z)"
    using CreateNode_healthy [OF Z root_part, of z1] c(2) by auto
  show ?thesis using c n by (auto simp: NewZKManager_def ZK_Start_def p Let_def)
qed

text \<open>A new client: its manager makes the root path, its cache holds every key it asked for that exists.\<close>

lemma new_client_healthy:
  assumes Z: "zk_healthy Z tree"
  shows "\<exists>s z'. NewZkRegistry Z hosts keys False z = (Ret s, z') \<and> zs_conn s = z'
    \<and> tree z' = with_dirs [] root_parts (tree z)
    \<and> (\<forall>key \<in> set keys. tree z' (service_path key) \<noteq> None \<longrightarrow> cache s key = Some (pulled (tree z') key))"
proof -
  obtain m :: "watcher ZKManager" and z1 where m: "NewZKManager Z hosts z = (Ret m, z1)" "tree z1 = with_dirs [] root_parts (tree z)"
    using NewZKManager_healthy [OF Z] by blast
  let ?s = "\<lparr>zs_registry = \<lparr>zr_service = keys, zr_uri2Services = [], zr_serverModel = False\<rparr>, zs_manager = m, zs_conn = z1\<rparr>"
  show ?thesis
    using m subscribe_loop_healthy [OF Z, of keys ?s] by (simp add: NewZkRegistry_def Let_def)
qed

text \<open>Below a path other than the root directories, what a new manager makes changes nothing.\<close>

lemma with_root_dirs_long: "length (mkpath root_parts) < length p \<Longrightarrow> with_dirs [] root_parts t p = t p"
  using mkpath_take_length [of _ root_parts] by (auto simp: with_dirs_def) (metis leD)+


lemma publish_tree_leaf: "uri_ok key \<Longrightarrow> children (publish_tree key hp d t) (addr_path key hp) = children t (addr_path key hp)"
  using dirs_for_long [of key] addr_path_long [of key hp] by (simp add: children_def publish_tree_def)

section \<open>Changes\<close>

lemma compare_loop_last:
  "addrs \<noteq> [] \<Longrightarrow> j + length addrs = n \<Longrightarrow> compare_loop olds n j addrs \<longleftrightarrow> sm_HostPort (olds ! (n - 1)) \<noteq> last addrs"
proof (induction addrs arbitrary: j)
  case (Cons v addrs)
  show ?case
  proof (cases addrs)
    case Nil
    with Cons.prems show ?thesis by auto
  next
    case (Cons w ws)
    with Cons.prems Cons.IH [of "Suc j"] show ?thesis by auto
  qed
qed simp

text \<open>The code's comparison looks at the number of addresses and at the last one only.\<close>

definition seems_same :: "ServiceMeta list option \<Rightarrow> string list \<Rightarrow> bool" where
  "seems_same found addrs =
     (case found of None \<Rightarrow> False
      | Some olds \<Rightarrow> olds \<noteq> [] \<and> length olds = length addrs \<and> sm_HostPort (last olds) = last addrs)"

lemma need_change_seems: "need_change found addrs \<longleftrightarrow> \<not> seems_same found addrs"
proof (cases found)
  case (Some olds)
  show ?thesis
  proof (cases "olds \<noteq> [] \<and> length olds = length addrs")
    case True
    then have "addrs \<noteq> []" by auto
    with True compare_loop_last [of addrs 0 "length addrs" olds] show ?thesis
      by (simp add: Some need_change_def seems_same_def last_conv_nth)
  next
    case False
    then show ?thesis by (auto simp: Some need_change_def seems_same_def)
  qed
qed (simp add: need_change_def seems_same_def)

lemma NodeChange_healthy:
  assumes Z: "zk_healthy Z tree" and sp: "\<not> list_ex is_space key"
    and hs: "distinct hs" "set hs = children (tree (zs_conn s)) (service_path key)"
  shows "\<exists>s'. zk_NodeChange Z (service_path key) ev hs s = (Ret (), s') \<and> tree (zs_conn s') = tree (zs_conn s)
    \<and> zs_manager s' = zs_manager s \<and> (\<forall>k. k \<noteq> key \<longrightarrow> cache s' k = cache s k)
    \<and> cache s' key = (if seems_same (cache s key) (sort hs) then cache s key else Some (pulled (tree (zs_conn s)) key))"
proof -
  have d: "distinct (sort hs)" "set (sort hs) = children (tree (zs_conn s)) (service_path key)" using hs by simp_all
  obtain z' where p: "PullChildrenData Z (service_path key) key (sort hs) (zs_conn s) = (Inr (pulled (tree (zs_conn s)) key), z')"
    "tree z' = tree (zs_conn s)"
    using Pull_healthy [OF Z d] by blast
  show ?thesis
  proof (cases "seems_same (cache s key) (sort hs)")
    case True
    then show ?thesis
      by (simp add: zk_NodeChange_def path_uri_service [OF sp] need_change_seems Let_def flip: cache_def)
  next
    case False
    then have "zk_NodeChange Z (service_path key) ev hs s =
      (Ret (), s\<lparr>zs_conn := z', zs_registry := (zs_registry s)\<lparr>zr_uri2Services :=
         AList.update key (pulled (tree (zs_conn s)) key) (zr_uri2Services (zs_registry s))\<rparr>\<rparr>)"
      by (simp add: zk_NodeChange_def path_uri_service [OF sp] need_change_seems Let_def on_conn_def p(1) flip: cache_def)
    with False p(2) show ?thesis by (simp add: cache_def map_simps)
  qed
qed

lemma listen_children_changed:
  assumes Z: "zk_healthy Z tree" and sp: "\<not> list_ex is_space key"
    and w: "find_watcher (service_path key) (wathcers (zs_manager s)) \<noteq> None" and open_: "\<not> isClose (zs_manager s)"
    and e: "tree (zs_conn s) (service_path key) \<noteq> None" and ev: "ev \<in> {EventNodeCreated, EventNodeChildrenChanged}"
  shows "\<exists>s'. zk_listen Z [(id, \<lparr>ev_Type = ev, ev_State = st, ev_Path = service_path key\<rparr>)] s = (Ret (), s')
    \<and> tree (zs_conn s') = tree (zs_conn s) \<and> (\<forall>k. k \<noteq> key \<longrightarrow> cache s' k = cache s k)
    \<and> cache s' key =
        (if seems_same (cache s key) (sorted_list_of_set (children (tree (zs_conn s)) (service_path key)))
         then cache s key else Some (pulled (tree (zs_conn s)) key))"
proof -
  obtain wt where w': "find_watcher (service_path key) (wathcers (zs_manager s)) = Some wt" using w by auto
  obtain ns z1 where c: "zk_ChildrenW Z (service_path key) (zs_conn s) = (Inr ns, z1)" "distinct ns"
    "set ns = children (tree (zs_conn s)) (service_path key)" "tree z1 = tree (zs_conn s)"
    using healthy_Children [OF Z e] by blast
  have so: "sort ns = sorted_list_of_set (children (tree (zs_conn s)) (service_path key))"
    using sort_distinct [OF c(2)] c(3) by simp
  from NodeChange_healthy [OF Z sp c(2), of "s\<lparr>zs_conn := z1\<rparr>" "ZkEvent ev"] c(3,4)
  obtain s' where s': "zk_NodeChange Z (service_path key) (ZkEvent ev) ns (s\<lparr>zs_conn := z1\<rparr>) = (Ret (), s')"
    "tree (zs_conn s') = tree (zs_conn s)" "\<forall>k. k \<noteq> key \<longrightarrow> cache s' k = cache s k"
    "cache s' key = (if seems_same (cache s key) (sort ns) then cache s key else Some (pulled (tree (zs_conn s)) key))"
    by (auto simp: cache_def)
  show ?thesis
    using ev open_ w' c(1) s' unfolding so
    by (auto simp: zk_listen_def handle_event_def registry_watcher_def on_conn_def Let_def)
qed

end
