(* ===== verification/Moa_Zk_Registry_Props.thy ===== *)
theory Moa_Zk_Registry_Props
  imports Moa_Zk_Registry_Laws
begin

text \<open>
  The properties of the zookeeper registry: what is published is found by a client, what is
  unpublished is not; when a client's cache is brought up to date and when it is not; what an expired
  session restores.
\<close>

section \<open>A concrete registry\<close>

definition demo_meta :: ServiceMeta where
  "demo_meta = \<lparr>sm_ServiceUri = ''/service/lookup'', sm_GroupId = ''a'', sm_HostPort = ''10.0.0.1:13000'',
     sm_ProtoVersion = ''v1'', sm_IsPre = True\<rparr>"

definition empty_sys :: "bool \<Rightarrow> (string, string) gomap zk_sys" where
  "empty_sys server = \<lparr>zs_registry = \<lparr>zr_service = [], zr_uri2Services = [], zr_serverModel = server\<rparr>,
     zs_manager = \<lparr>zkhosts = ''zk:2181'', wathcers = [(''/moa/service'', WatchRegistry)], isClose = False\<rparr>, zs_conn = []\<rparr>"

lemma demo_key: "BuildServiceUri ''/service/lookup'' ''a'' = ''/service/lookup#a''"
  by (simp add: BuildServiceUri_def)

lemma demo_key_ok: "uri_ok ''/service/lookup#a''"
  by (simp add: uri_ok_def key_parts_def part_def)

lemma demo_host: "part ''10.0.0.1:13000''"
  by (simp add: part_def)

lemma demo_meta_ok: "meta_ok demo_meta"
  by (simp add: meta_ok_def demo_meta_def)

lemma no_children: "children (map_of []) p = {}"
  by (simp add: children_def)

section \<open>Publishing\<close>

text \<open>
  C18: On a healthy zookeeper, publishing a service's address succeeds whether or not its path or its
  node exist: its node then holds the JSON of its \<^verbatim>\<open>ServiceMeta\<close>, its service's path exists, every other
  node that existed is kept, nothing is made elsewhere than on the path, and what \<^verbatim>\<open>GetService\<close>
  answers is unchanged; publishing again changes nothing.
\<close>

theorem publish_leaves_node:
  assumes "zk_healthy Z tree" and "uri_ok (BuildServiceUri u g)" and "part hp"
    and "children (tree (zs_conn s)) (addr_path (BuildServiceUri u g) hp) = {}"
  shows "\<exists>s'. zk_RegisteService Z u hp PROTOCOL g m s = (Ret True, s')
    \<and> tree (zs_conn s') (addr_path (BuildServiceUri u g) hp) = Some (ServiceMeta_marshal m)
    \<and> tree (zs_conn s') (service_path (BuildServiceUri u g)) \<noteq> None
    \<and> (\<forall>p. p \<noteq> addr_path (BuildServiceUri u g) hp \<longrightarrow> tree (zs_conn s) p \<noteq> None \<longrightarrow> tree (zs_conn s') p = tree (zs_conn s) p)
    \<and> (\<forall>p. tree (zs_conn s') p \<noteq> None \<longrightarrow> tree (zs_conn s) p \<noteq> None \<or> HasPrefix (addr_path (BuildServiceUri u g) hp) p)
    \<and> zk_GetService u' p' g' s' = zk_GetService u' p' g' s
    \<and> (\<exists>s2. zk_RegisteService Z u hp PROTOCOL g m s' = (Ret True, s2) \<and> tree (zs_conn s2) = tree (zs_conn s'))"
proof -
  let ?k = "BuildServiceUri u g" and ?t = "tree (zs_conn s)"
  let ?a = "addr_path ?k hp" and ?d = "ServiceMeta_marshal m"
  obtain z' where p: "zk_publish Z u hp PROTOCOL g m (zs_conn s) = (Ret True, z')" "tree z' = publish_tree ?k hp ?d ?t"
    using zk_publish_healthy [OF assms, of m] by blast
  have new: "HasPrefix ?a p" if "tree z' p \<noteq> None" "?t p = None" for p
    using dirs_for_prefix [OF assms(2), of ?t p hp] that by (auto simp: p(2) publish_tree_def HasPrefix_iff split: if_splits)
  have "children (tree z') ?a = children ?t ?a"
    using dirs_for_long [OF assms(2)] addr_path_long [of ?k hp] by (simp add: children_def p(2) publish_tree_def)
  with assms(4) obtain z2 where p2: "zk_publish Z u hp PROTOCOL g m z' = (Ret True, z2)" "tree z2 = publish_tree ?k hp ?d (tree z')"
    using zk_publish_healthy [OF assms(1-3), of z' m] by auto
  have "tree z2 = tree z'"
    using publish_tree_service [OF assms(2), of hp ?d ?t] by (auto simp: p2(2) p(2) publish_tree_def dirs_for_def)
  with p p2 new publish_tree_service [OF assms(2), of hp ?d ?t] publish_tree_keeps [of ?t _ ?k hp ?d] show ?thesis
    by (auto simp: zk_RegisteService_def on_conn_def zk_GetService_def)
qed

theorem publish_leaves_node_witness:
  "\<exists>s'. zk_RegisteService mem_zk ''/service/lookup'' ''10.0.0.1:13000'' PROTOCOL ''a'' demo_meta (empty_sys True) = (Ret True, s')
     \<and> map_of (zs_conn s') (addr_path ''/service/lookup#a'' ''10.0.0.1:13000'') = Some (ServiceMeta_marshal demo_meta)"
  using publish_leaves_node [OF mem_zk_healthy, of "''/service/lookup''" "''a''" "''10.0.0.1:13000''" "empty_sys True" demo_meta]
    demo_key_ok demo_host no_children
  unfolding demo_key by (fastforce simp: empty_sys_def)

lemma marshal_nonempty: "ServiceMeta_marshal m \<noteq> []"
  by (simp add: ServiceMeta_marshal_def ServiceMeta_json_def)

lemma node_at_marshal: "meta_ok m \<Longrightarrow> t (addr_path key h) = Some (ServiceMeta_marshal m) \<Longrightarrow> node_at t key h = m"
  using marshal_nonempty [of m] by (simp add: node_at_def node_meta_def ServiceMeta_unmarshal_marshal)

lemma service_path_long: "uri_ok key \<Longrightarrow> length (mkpath root_parts) < length (service_path key)"
  using uri_ok_mkpath(2,3) [of key] by (cases "key_parts key") (auto simp: service_path_mkpath part_def)

text \<open>A node below a service's path, and a service that exists, as a new client finds them.\<close>

lemma client_finds:
  assumes Z: "zk_healthy Z tree" and k: "uri_ok key" "key \<in> set keys" and e: "tree z (service_path key) \<noteq> None"
  shows "\<exists>s z'. NewZkRegistry Z hosts keys False z = (Ret s, z') \<and> cache s key = Some (pulled (tree z) key)"
proof -
  obtain s z' where n: "NewZkRegistry Z hosts keys False z = (Ret s, z')" "tree z' = with_dirs [] root_parts (tree z)"
    "tree z' (service_path key) \<noteq> None \<longrightarrow> cache s key = Some (pulled (tree z') key)"
    using new_client_healthy [OF Z, of hosts keys z] k(2) by blast
  have same: "tree z' p = tree z p" if "length (service_path key) \<le> length p" for p
    unfolding n(2) using with_root_dirs_long service_path_long [OF k(1)] that by (metis order_less_le_trans)
  then have "children (tree z') (service_path key) = children (tree z) (service_path key)"
    "node_at (tree z') key = node_at (tree z) key"
    by (auto simp: children_def node_at_def addr_path_def fun_eq_iff)
  then have "pulled (tree z') key = pulled (tree z) key" by (simp add: pulled_def)
  with n e same [of "service_path key"] show ?thesis by auto
qed

lemma pulled_mem: "finite (children t (service_path key)) \<Longrightarrow> h \<in> children t (service_path key) \<Longrightarrow> node_at t key h \<in> set (pulled t key)"
  by (simp add: pulled_def)

lemma healthy_finite:
  "zk_healthy Z tree \<Longrightarrow> tree z p \<noteq> None \<Longrightarrow> finite (children (tree z) p)"
  using healthy_Children [of Z tree z p] by (metis List.finite_set)

text \<open>
  C5: What a server publishes, a client finds. After a server has published a service's address, a
  client that starts on the same healthy zookeeper and asks for that service is answered a list that
  contains exactly that \<^verbatim>\<open>ServiceMeta\<close>: it went through JSON, the node's data and back. The list has one
  entry per node below the service, in the order of their names.
\<close>

theorem published_then_found:
  assumes Z: "zk_healthy Z tree" and k: "uri_ok (BuildServiceUri u g)" and hp: "part hp"
    and leaf: "children (tree z) (addr_path (BuildServiceUri u g) hp) = {}"
    and m: "meta_ok m" and keys: "BuildServiceUri u g \<in> set keys"
  shows "\<exists>z1 s z2 l. zk_publish Z u hp PROTOCOL g m z = (Ret True, z1)
    \<and> NewZkRegistry Z hosts keys False z1 = (Ret s, z2)
    \<and> zk_GetService u PROTOCOL g s = Ret (Inr l) \<and> m \<in> set l
    \<and> length l = card (insert hp (children (tree z) (service_path (BuildServiceUri u g))))"
proof -
  let ?k = "BuildServiceUri u g"
  obtain z1 where p: "zk_publish Z u hp PROTOCOL g m z = (Ret True, z1)"
    "tree z1 = publish_tree ?k hp (ServiceMeta_marshal m) (tree z)"
    using zk_publish_healthy [OF Z k hp leaf, of m] by blast
  have e: "tree z1 (service_path ?k) \<noteq> None" using publish_tree_service [OF k] by (simp add: p(2))
  obtain s z2 where s: "NewZkRegistry Z hosts keys False z1 = (Ret s, z2)" "cache s ?k = Some (pulled (tree z1) ?k)"
    using client_finds [OF Z k keys e] by blast
  have c: "children (tree z1) (service_path ?k) = insert hp (children (tree z) (service_path ?k))"
    using publish_tree_children [OF k hp] by (simp add: p(2))
  have "node_at (tree z1) ?k hp = m" by (rule node_at_marshal [OF m]) (simp add: p(2))
  then have "m \<in> set (pulled (tree z1) ?k)"
    using pulled_mem [OF healthy_finite [OF Z e], of hp] by (simp add: c)
  with p(1) s show ?thesis by (auto simp: zk_GetService_cache pulled_def c)
qed

theorem published_then_found_witness:
  "\<exists>z1 s z2 l. zk_publish mem_zk ''/service/lookup'' ''10.0.0.1:13000'' PROTOCOL ''a'' demo_meta [] = (Ret True, z1)
    \<and> NewZkRegistry mem_zk ''zk:2181'' [''/service/lookup#a''] False z1 = (Ret s, z2)
    \<and> zk_GetService ''/service/lookup'' PROTOCOL ''a'' s = Ret (Inr l) \<and> demo_meta \<in> set l"
proof -
  have k: "uri_ok (BuildServiceUri ''/service/lookup'' ''a'')"
    "BuildServiceUri ''/service/lookup'' ''a'' \<in> set [''/service/lookup#a'']"
    by (simp_all only: demo_key demo_key_ok list.set insertI1)
  show ?thesis
    using published_then_found [OF mem_zk_healthy k(1) demo_host no_children demo_meta_ok k(2), of "''zk:2181''"] by blast
qed

text \<open>
  C19: What a server unpublishes, a later client does not find: unpublishing answers true, removes the
  address's node whether or not it existed and nothing else, and a client that then starts gets one
  entry per remaining node, none of them for that address.
\<close>

theorem unpublished_not_found:
  assumes Z: "zk_healthy Z tree" and k: "uri_ok (BuildServiceUri u g)"
    and leaf: "children (tree z) (addr_path (BuildServiceUri u g) hp) = {}"
    and e: "tree z (service_path (BuildServiceUri u g)) \<noteq> None" and keys: "BuildServiceUri u g \<in> set keys"
  shows "\<exists>z1 s z2. zk_unpublish Z u hp PROTOCOL g z = (Ret True, z1)
    \<and> tree z1 = (tree z)(addr_path (BuildServiceUri u g) hp := None)
    \<and> NewZkRegistry Z hosts keys False z1 = (Ret s, z2)
    \<and> zk_GetService u PROTOCOL g s = Ret (Inr (map (node_at (tree z) (BuildServiceUri u g))
         (sorted_list_of_set (children (tree z) (service_path (BuildServiceUri u g)) - {hp}))))"
proof -
  let ?k = "BuildServiceUri u g"
  obtain z1 where p: "zk_unpublish Z u hp PROTOCOL g z = (Ret True, z1)" "tree z1 = (tree z)(addr_path ?k hp := None)"
    using zk_unpublish_healthy [OF Z leaf] by blast
  have e1: "tree z1 (service_path ?k) \<noteq> None" using e addr_path_long [of ?k hp] by (auto simp: p(2))
  obtain s z2 where s: "NewZkRegistry Z hosts keys False z1 = (Ret s, z2)" "cache s ?k = Some (pulled (tree z1) ?k)"
    using client_finds [OF Z k keys e1] by blast
  have c: "children (tree z1) (service_path ?k) = children (tree z) (service_path ?k) - {hp}"
    by (auto simp: children_def p(2) addr_path_def)
  have f: "finite (children (tree z) (service_path ?k) - {hp})" using healthy_finite [OF Z e] by simp
  have n: "node_at (tree z1) ?k h = node_at (tree z) ?k h" if "h \<noteq> hp" for h
    using that by (simp add: node_at_def p(2) addr_path_def)
  have "pulled (tree z1) ?k = map (node_at (tree z) ?k) (sorted_list_of_set (children (tree z) (service_path ?k) - {hp}))"
    unfolding pulled_def c using f by (intro map_cong refl n) auto
  with p s show ?thesis by (auto simp: zk_GetService_cache)
qed

theorem unpublished_not_found_witness:
  "\<exists>z z1 s z2. zk_publish mem_zk ''/service/lookup'' ''10.0.0.1:13000'' PROTOCOL ''a'' demo_meta [] = (Ret True, z)
    \<and> zk_unpublish mem_zk ''/service/lookup'' ''10.0.0.1:13000'' PROTOCOL ''a'' z = (Ret True, z1)
    \<and> NewZkRegistry mem_zk ''zk:2181'' [''/service/lookup#a''] False z1 = (Ret s, z2)
    \<and> zk_GetService ''/service/lookup'' PROTOCOL ''a'' s = Ret (Inr [])"
proof -
  let ?k = "BuildServiceUri ''/service/lookup'' ''a''" and ?hp = "''10.0.0.1:13000''"
  have k: "uri_ok ?k" "?k \<in> set [''/service/lookup#a'']"
    by (simp_all only: demo_key demo_key_ok list.set insertI1)
  obtain z where z: "zk_publish mem_zk ''/service/lookup'' ?hp PROTOCOL ''a'' demo_meta [] = (Ret True, z)"
    "map_of z = publish_tree ?k ?hp (ServiceMeta_marshal demo_meta) (map_of [])"
    using zk_publish_healthy [OF mem_zk_healthy k(1) demo_host no_children, of demo_meta] by blast
  have leaf: "children (map_of z) (addr_path ?k ?hp) = {}"
    using publish_tree_leaf [OF k(1)] no_children by (simp only: z(2))
  have e: "map_of z (service_path ?k) \<noteq> None" unfolding z(2) by (rule publish_tree_service [OF k(1)])
  have c: "children (map_of z) (service_path ?k) = {?hp}"
    using publish_tree_children [OF k(1) demo_host] no_children by (simp only: z(2))
  have n: "sorted_list_of_set (children (map_of z) (service_path ?k) - {?hp}) = []" by (simp only: c) simp
  from unpublished_not_found [OF mem_zk_healthy, OF k(1) leaf e k(2), of "''zk:2181''"] z(1)
  show ?thesis unfolding n list.map by blast
qed

section \<open>Changes\<close>

text \<open>
  C20: A client is told that the addresses of a service it watches changed. It then answers, for that
  service, what the nodes hold now, unless the number of addresses and the last one in order are
  those it had: then it keeps its old answer. Its other services are untouched.
\<close>

theorem change_event_refreshes:
  assumes "zk_healthy Z tree" and "\<not> list_ex is_space (BuildServiceUri u g)"
    and "find_watcher (service_path (BuildServiceUri u g)) (wathcers (zs_manager s)) \<noteq> None"
    and "\<not> isClose (zs_manager s)" and "tree (zs_conn s) (service_path (BuildServiceUri u g)) \<noteq> None"
    and "ev \<in> {EventNodeCreated, EventNodeChildrenChanged}"
    and "\<not> seems_same (cache s (BuildServiceUri u g))
          (sorted_list_of_set (children (tree (zs_conn s)) (service_path (BuildServiceUri u g))))"
  shows "\<exists>s'. zk_listen Z [(id, \<lparr>ev_Type = ev, ev_State = st, ev_Path = service_path (BuildServiceUri u g)\<rparr>)] s = (Ret (), s')
    \<and> zk_GetService u p g s' = Ret (Inr (pulled (tree (zs_conn s)) (BuildServiceUri u g)))
    \<and> (\<forall>u' g'. BuildServiceUri u' g' \<noteq> BuildServiceUri u g \<longrightarrow> zk_GetService u' p g' s' = zk_GetService u' p g' s)"
  using listen_children_changed [OF assms(1-6), of st] assms(7) by (auto simp: zk_GetService_cache)

definition tree_b :: "(string, string) gomap" where
  "tree_b = [(''/moa/service/v1/s'', []), (''/moa/service/v1/s/b'', []), (''/moa/service/v1/s/c'', [])]"

definition sys_of :: "string list \<Rightarrow> (string, string) gomap zk_sys" where
  "sys_of hosts = \<lparr>zs_registry = \<lparr>zr_service = [''/s''],
       zr_uri2Services = [(''/s'', map (\<lambda>h. \<lparr>sm_ServiceUri = ''/s'', sm_GroupId = ''*'', sm_HostPort = h, sm_ProtoVersion = ''v1'', sm_IsPre = False\<rparr>) hosts)],
       zr_serverModel = False\<rparr>,
     zs_manager = \<lparr>zkhosts = ''zk:2181'', wathcers = [(''/moa/service/v1/s'', WatchRegistry)], isClose = False\<rparr>, zs_conn = tree_b\<rparr>"

lemma sys_path: "BuildServiceUri ''/s'' ''*'' = ''/s''" "service_path ''/s'' = ''/moa/service/v1/s''"
  by (simp_all add: BuildServiceUri_def service_path_def ZK_MOA_ROOT_PATH_def ZK_PATH_DELIMITER_def PROTOCOL_def)

lemma sys_watch: "find_watcher ''/moa/service/v1/s'' (wathcers (zs_manager (sys_of hosts))) \<noteq> None"
  "\<not> isClose (zs_manager (sys_of hosts))" "map_of (zs_conn (sys_of hosts)) ''/moa/service/v1/s'' \<noteq> None"
  by (simp_all add: find_watcher_def sys_of_def tree_b_def)

lemma sys_space: "\<not> list_ex is_space ''/s''"
  by (simp add: is_space_def)

lemma sys_children: "children (map_of (zs_conn (sys_of hosts))) ''/moa/service/v1/s'' = {''b'', ''c''}"
  unfolding set_mem_children [symmetric]
  by (simp add: sys_of_def tree_b_def mem_children_def TrimPrefix_def part_def insert_commute)

lemma sys_sorted: "sorted_list_of_set {''b'', ''c''} = [''b'', ''c'']"
  by (simp add: less_char_def less_eq_char_def insort_is_Cons)

lemma sys_cache: "cache (sys_of hosts) ''/s'' = Some (map (\<lambda>h. \<lparr>sm_ServiceUri = ''/s'', sm_GroupId = ''*'', sm_HostPort = h, sm_ProtoVersion = ''v1'', sm_IsPre = False\<rparr>) hosts)"
  by (simp add: cache_def sys_of_def)

theorem change_event_refreshes_witness:
  "\<exists>s'. zk_listen mem_zk [(id, \<lparr>ev_Type = EventNodeChildrenChanged, ev_State = StateOther, ev_Path = ''/moa/service/v1/s''\<rparr>)]
      (sys_of [''b'']) = (Ret (), s')
    \<and> (\<exists>l. zk_GetService ''/s'' ''v1'' ''*'' s' = Ret (Inr l) \<and> map sm_HostPort l = [''b'', ''c''])"
proof -
  let ?k = "BuildServiceUri ''/s'' ''*''"
  have sp: "\<not> list_ex is_space ?k" and w: "find_watcher (service_path ?k) (wathcers (zs_manager (sys_of [''b'']))) \<noteq> None"
    and e: "map_of (zs_conn (sys_of [''b''])) (service_path ?k) \<noteq> None"
    and d: "\<not> seems_same (cache (sys_of [''b'']) ?k) (sorted_list_of_set (children (map_of (zs_conn (sys_of [''b'']))) (service_path ?k)))"
    using sys_watch [of "[''b'']"]
    by (simp_all only: sys_path sys_cache sys_children sys_sorted sys_space) (simp_all add: seems_same_def)
  have l: "map sm_HostPort (pulled (map_of (zs_conn (sys_of [''b'']))) ''/s'') = [''b'', ''c'']"
    unfolding pulled_def sys_path sys_children sys_sorted
    by (simp add: node_at_def node_meta_def addr_path_def sys_of_def tree_b_def sys_path old_meta_def UnwrapServiceUri_def)
  from change_event_refreshes [OF mem_zk_healthy, OF sp w sys_watch(2) e _ d, of EventNodeChildrenChanged StateOther "''v1''"] l
  show ?thesis unfolding sys_path by auto
qed

text \<open>
  C21: The stale answer. When another address has taken the place of one that is not the last in
  order, the client that is told keeps answering the addresses it had, the vanished one included,
  although the nodes are other ones now.
\<close>

theorem replaced_address_kept:
  assumes "zk_healthy Z tree" and "\<not> list_ex is_space (BuildServiceUri u g)"
    and "find_watcher (service_path (BuildServiceUri u g)) (wathcers (zs_manager s)) \<noteq> None"
    and "\<not> isClose (zs_manager s)" and "tree (zs_conn s) (service_path (BuildServiceUri u g)) \<noteq> None"
    and "ev \<in> {EventNodeCreated, EventNodeChildrenChanged}"
    and now: "sorted_list_of_set (children (tree (zs_conn s)) (service_path (BuildServiceUri u g))) = now @ [b]"
    and old: "cache s (BuildServiceUri u g) = Some olds" "map sm_HostPort olds = before @ [b]"
    and len: "length before = length now"
  shows "\<exists>s'. zk_listen Z [(id, \<lparr>ev_Type = ev, ev_State = st, ev_Path = service_path (BuildServiceUri u g)\<rparr>)] s = (Ret (), s')
    \<and> zk_GetService u p g s' = Ret (Inr olds)"
proof -
  have "olds \<noteq> []" using old(2) by auto
  moreover have "length olds = length (now @ [b])" using old(2) len by (metis length_append length_map)
  moreover have "sm_HostPort (last olds) = b" using old(2) \<open>olds \<noteq> []\<close> by (metis last_map last_snoc)
  ultimately have "seems_same (cache s (BuildServiceUri u g)) (now @ [b])" by (simp add: seems_same_def old(1))
  then show ?thesis
    using listen_children_changed [OF assms(1-6), of st] by (auto simp: now old(1) zk_GetService_cache)
qed

theorem replaced_address_kept_witness:
  "\<exists>s'. zk_listen mem_zk [(id, \<lparr>ev_Type = EventNodeChildrenChanged, ev_State = StateOther, ev_Path = ''/moa/service/v1/s''\<rparr>)]
      (sys_of [''a'', ''c'']) = (Ret (), s')
    \<and> (\<exists>l. zk_GetService ''/s'' ''v1'' ''*'' s' = Ret (Inr l) \<and> map sm_HostPort l = [''a'', ''c''])
    \<and> children (map_of (zs_conn (sys_of [''a'', ''c'']))) ''/moa/service/v1/s'' = {''b'', ''c''}"
proof -
  let ?k = "BuildServiceUri ''/s'' ''*''" and ?s = "sys_of [''a'', ''c'']"
  have sp: "\<not> list_ex is_space ?k" and w: "find_watcher (service_path ?k) (wathcers (zs_manager ?s)) \<noteq> None"
    and e: "map_of (zs_conn ?s) (service_path ?k) \<noteq> None"
    and now: "sorted_list_of_set (children (map_of (zs_conn ?s)) (service_path ?k)) = [''b''] @ [''c'']"
    using sys_watch [of "[''a'', ''c'']"]
    by (simp_all only: sys_path sys_cache sys_children sys_sorted sys_space) simp_all
  obtain olds where old: "cache ?s ?k = Some olds" "map sm_HostPort olds = [''a''] @ [''c'']"
    by (simp add: sys_path sys_cache)
  have len: "length [''a''] = length [''b'']" by simp
  from replaced_address_kept [OF mem_zk_healthy, OF sp w sys_watch(2) e _ now old len, of EventNodeChildrenChanged StateOther "''v1''"] old(2)
  show ?thesis unfolding sys_path using sys_children by auto
qed

section \<open>Expired sessions\<close>

lemma NewZKManager_new: "NewZKManager Z hosts z = (Ret m, z') \<Longrightarrow> wathcers m = [] \<and> \<not> isClose m"
  by (auto simp: NewZKManager_def ZK_Start_def Let_def split: prod.splits option.splits go.splits if_splits)

definition publish_all :: "'z zk_ops \<Rightarrow> (string \<times> string \<times> string \<times> string \<times> ServiceMeta) list \<Rightarrow> 'z zk_sys \<Rightarrow> 'z zk_sys" where
  "publish_all Z = fold (\<lambda>(u, hp, p, g, m) s. snd (zk_RegisteService Z u hp p g m s))"

lemma publish_all_frame:
  "zs_registry (publish_all Z ops s) = zs_registry s \<and> zs_manager (publish_all Z ops s) = zs_manager s"
  unfolding publish_all_def
  by (induction ops arbitrary: s) (auto simp: zk_RegisteService_def on_conn_def split: prod.splits)

text \<open>
  C22: A server whose session expires does not come back. Whatever it has published, telling its
  registry that the session expired publishes nothing again, because publishing never fills the cache
  that is published again; and a session event, which carries no path, does not even reach the
  registry.
\<close>

theorem expired_session_restores_nothing:
  assumes new: "NewZkRegistry Z hosts keys True z = (Ret s, z1)"
  shows "zk_OnSessionExpired Z (publish_all Z ops s) = (Ret (), publish_all Z ops s)
    \<and> zk_listen Z [(id, \<lparr>ev_Type = EventSession, ev_State = StateExpired, ev_Path = []\<rparr>)] (publish_all Z ops s)
        = (Ret (), publish_all Z ops s)"
proof -
  obtain m :: "watcher ZKManager" and z' where n: "NewZKManager Z hosts z = (Ret m, z')"
    and s: "zs_registry s = \<lparr>zr_service = keys, zr_uri2Services = [], zr_serverModel = True\<rparr>"
      "zs_manager s = snd (RegisteWatcher ZK_MOA_ROOT_PATH WatchRegistry m)"
    using new by (auto simp: NewZkRegistry_def Let_def split: prod.splits go.splits)
  have m: "wathcers m = [] \<and> \<not> isClose m" by (rule NewZKManager_new [OF n])
  let ?s = "publish_all Z ops s"
  have r: "zs_registry ?s = zs_registry s" "zs_manager ?s = zs_manager s" using publish_all_frame [of Z ops s] by simp_all
  have w: "wathcers (zs_manager ?s) = [(''/moa/service'', WatchRegistry)]" "\<not> isClose (zs_manager ?s)"
    using m by (simp_all add: r s(2) RegisteWatcher_def ZK_MOA_ROOT_PATH_def)
  have "zk_OnSessionExpired Z ?s = (Ret (), ?s)"
    by (simp add: zk_OnSessionExpired_def r s(1) cached_paths_def on_conn_def)
  with w show ?thesis by (simp add: zk_listen_def handle_event_def find_watcher_def)
qed

theorem expired_session_restores_nothing_witness:
  "\<exists>s z1. NewZkRegistry mem_zk ''zk:2181'' [] True [] = (Ret s, z1)
    \<and> (let s' = publish_all mem_zk [(''/service/lookup'', ''10.0.0.1:13000'', PROTOCOL, ''a'', demo_meta)] s
       in zk_OnSessionExpired mem_zk s' = (Ret (), s'))"
proof -
  obtain m :: "watcher ZKManager" and z' where "NewZKManager mem_zk ''zk:2181'' [] = (Ret m, z')"
    using NewZKManager_healthy [OF mem_zk_healthy, of "''zk:2181''" "[]"] by blast
  then obtain s z1 where n: "NewZkRegistry mem_zk ''zk:2181'' [] True [] = (Ret s, z1)"
    by (simp add: NewZkRegistry_def Let_def)
  show ?thesis using n expired_session_restores_nothing [OF n] unfolding Let_def by blast
qed

end
