(* ===== verification/Moa_Config_Center_Props.thy ===== *)
theory Moa_Config_Center_Props
  imports Moa_Config_Center Moa_Zk_Registry_Props
begin

text \<open>
  The properties of the config center: which registries it can be given, that all the services of a
  server are published and found by clients, and that destroying it withdraws them.
\<close>

definition key_of :: "('v, 'w) Service \<Rightarrow> string" where
  "key_of s = BuildServiceUri (ServiceUri s) (GroupId s)"

text \<open>A service that can be published at an address on zookeeper.\<close>

definition publishable :: "string \<Rightarrow> ('v, 'w) Service \<Rightarrow> bool" where
  "publishable hp s \<longleftrightarrow> uri_ok (key_of s) \<and> hp \<notin> set (key_parts (key_of s)) \<and> meta_ok (service_meta hp s)"

definition host_ok :: "ztree \<Rightarrow> string \<Rightarrow> bool" where
  "host_ok t hp \<longleftrightarrow> part hp \<and> hp \<notin> set root_parts \<and> leaf_host t hp"

lemma leaf_host_with_dirs:
  assumes l: "leaf_host t hp" and ps: "\<forall>p \<in> set ps. part p" "hp \<notin> set ps" and hp: "part hp"
  shows "leaf_host (with_dirs [] ps t) hp"
  unfolding leaf_host_def
proof (intro allI impI)
  fix qs n
  assume q: "\<forall>p \<in> set qs. part p" "part n"
  have "mkpath (qs @ [hp, n]) \<noteq> mkpath (take (Suc i) ps)" for i
  proof
    assume "mkpath (qs @ [hp, n]) = mkpath (take (Suc i) ps)"
    then have "qs @ [hp, n] = take (Suc i) ps"
      using q ps(1) hp by (intro mkpath_inj) (auto dest: in_set_takeD)
    then have "hp \<in> set (take (Suc i) ps)" by (metis in_set_conv_decomp append_Cons)
    with ps(2) show False by (meson in_set_takeD)
  qed
  with l q show "with_dirs [] ps t (mkpath (qs @ [hp, n])) = None"
    by (auto simp: with_dirs_def leaf_host_def simp del: mkpath_simps)
qed

lemma leaf_host_publish:
  assumes l: "leaf_host t hp" and k: "uri_ok key" "hp \<notin> set (key_parts key)" and hp: "part hp" "hp \<notin> set root_parts"
  shows "leaf_host (publish_tree key hp d t) hp"
proof -
  let ?ps = "root_parts @ key_parts key"
  have l2: "leaf_host (dirs_for key t) hp"
    using leaf_host_with_dirs [OF l parts_ok [OF k(1)] _ hp(1)] k(2) hp(2) l by (simp add: dirs_for_def)
  have "mkpath (qs @ [hp, n]) \<noteq> addr_path key hp" if "\<forall>p \<in> set qs. part p" "part n" for qs n
  proof
    assume "mkpath (qs @ [hp, n]) = addr_path key hp"
    then have "qs @ [hp, n] = ?ps @ [hp]"
      using that parts_ok [OF k(1)] hp(1) by (intro mkpath_inj) (auto simp: addr_path_mkpath [OF k(1)])
    then have "qs @ [hp] = ?ps" by (metis append.assoc append_Cons append_Nil append_same_eq butlast_snoc)
    then have "hp \<in> set ?ps" by (metis in_set_conv_decomp)
    with k(2) hp(2) show False by simp
  qed
  with l2 show ?thesis by (auto simp: leaf_host_def publish_tree_def)
qed

lemma addr_path_inj: "addr_path key hp = addr_path key' hp \<longleftrightarrow> key = key'"
  by (simp add: addr_path_def service_path_def)

text \<open>Publishing services one after the other on a healthy zookeeper.\<close>

lemma registe_all_healthy:
  assumes Z: "zk_healthy Z tree"
  shows "host_ok (tree (zs_conn s)) hp \<Longrightarrow> \<forall>x \<in> set ss. publishable hp x \<Longrightarrow> distinct (map key_of ss) \<Longrightarrow>
    \<exists>s'. registe_all (reg_RegisteService Z) hp ss (ZkReg s) = (Ret (), ZkReg s')
      \<and> host_ok (tree (zs_conn s')) hp
      \<and> (\<forall>p. tree (zs_conn s) p \<noteq> None \<longrightarrow> p \<notin> (\<lambda>x. addr_path (key_of x) hp) ` set ss \<longrightarrow> tree (zs_conn s') p = tree (zs_conn s) p)
      \<and> (\<forall>x \<in> set ss. tree (zs_conn s') (service_path (key_of x)) \<noteq> None
           \<and> tree (zs_conn s') (addr_path (key_of x) hp) = Some (ServiceMeta_marshal (service_meta hp x)))"
proof (induction ss arbitrary: s)
  case Nil
  then show ?case by simp
next
  case (Cons x ss)
  let ?t = "tree (zs_conn s)" and ?k = "key_of x" and ?m = "service_meta hp x"
  have k: "uri_ok ?k" "hp \<notin> set (key_parts ?k)" using Cons.prems(2) by (simp_all add: publishable_def)
  have hp: "part hp" "hp \<notin> set root_parts" "leaf_host ?t hp" using Cons.prems(1) by (simp_all add: host_ok_def)
  obtain z1 where z1: "zk_publish Z (ServiceUri x) hp PROTOCOL (GroupId x) ?m (zs_conn s) = (Ret True, z1)"
    "tree z1 = publish_tree ?k hp (ServiceMeta_marshal ?m) ?t"
    using zk_publish_healthy [OF Z k(1) [unfolded key_of_def] hp(1) leaf_host_children [OF hp(3) k(1) [unfolded key_of_def]], of ?m]
    unfolding key_of_def by blast
  let ?s1 = "s\<lparr>zs_conn := z1\<rparr>"
  have ok1: "host_ok (tree (zs_conn ?s1)) hp"
    using leaf_host_publish [OF hp(3) k hp(1,2)] hp by (simp add: host_ok_def z1(2))
  have d: "\<forall>y \<in> set ss. publishable hp y" "distinct (map key_of ss)" using Cons.prems by simp_all
  from Cons.IH [OF ok1 d] obtain s' where s': "registe_all (reg_RegisteService Z) hp ss (ZkReg ?s1) = (Ret (), ZkReg s')"
    "host_ok (tree (zs_conn s')) hp"
    "\<And>p. tree z1 p \<noteq> None \<Longrightarrow> p \<notin> (\<lambda>x. addr_path (key_of x) hp) ` set ss \<Longrightarrow> tree (zs_conn s') p = tree z1 p"
    "\<forall>y \<in> set ss. tree (zs_conn s') (service_path (key_of y)) \<noteq> None
       \<and> tree (zs_conn s') (addr_path (key_of y) hp) = Some (ServiceMeta_marshal (service_meta hp y))"
    by auto
  have all: "registe_all (reg_RegisteService Z) hp (x # ss) (ZkReg s) = (Ret (), ZkReg s')"
    using s'(1) z1(1) by (simp add: reg_RegisteService_def zk_RegisteService_def on_conn_def)
  have nin: "addr_path ?k hp \<notin> (\<lambda>x. addr_path (key_of x) hp) ` set ss"
    using Cons.prems(3) by (auto simp: image_iff addr_path_inj)
  have mine: "tree (zs_conn s') (addr_path ?k hp) = Some (ServiceMeta_marshal ?m)"
    using s'(3) [of "addr_path ?k hp"] nin by (simp add: z1(2))
  have "service_path ?k \<notin> (\<lambda>x. addr_path (key_of x) hp) ` set ss" if "tree (zs_conn s') (service_path ?k) = None"
    using s'(4) that by auto
  then have "tree (zs_conn s') (service_path ?k) \<noteq> None"
    using s'(3) [of "service_path ?k"] publish_tree_service [OF k(1), of hp "ServiceMeta_marshal ?m" ?t] z1(2)
    by (cases "tree (zs_conn s') (service_path ?k) = None") auto
  moreover have "tree (zs_conn s') p = ?t p" if "?t p \<noteq> None" "p \<noteq> addr_path ?k hp" "p \<notin> (\<lambda>x. addr_path (key_of x) hp) ` set ss" for p
    using s'(3) [of p] that publish_tree_keeps [of ?t p ?k hp] by (simp add: z1(2))
  ultimately show ?case using all s'(2,4) mine by auto
qed


lemma new_server_healthy:
  assumes Z: "zk_healthy Z tree"
  shows "\<exists>s. NewZkRegistry Z hosts keys True z = (Ret s, zs_conn s) \<and> tree (zs_conn s) = with_dirs [] root_parts (tree z)"
proof -
  obtain m :: "watcher ZKManager" and z1 where "NewZKManager Z hosts z = (Ret m, z1)" "tree z1 = with_dirs [] root_parts (tree z)"
    using NewZKManager_healthy [OF Z] by blast
  then show ?thesis by (simp add: NewZkRegistry_def Let_def)
qed

lemma new_center_healthy:
  assumes Z: "zk_healthy Z tree" and addr: "HasPrefix registryAddr SCHEME_ZK" and hp: "host_ok (tree z) hp"
    and ss: "\<forall>x \<in> set ss. publishable hp x" "distinct (map key_of ss)"
  shows "\<exists>s. NewConfigCenter Z rf yaml registryAddr hp ss z = (Ret \<lparr>cc_registry = ZkReg s, cc_services = ss, cc_hostport = hp\<rparr>, zs_conn s)
    \<and> host_ok (tree (zs_conn s)) hp
    \<and> (\<forall>x \<in> set ss. tree (zs_conn s) (service_path (key_of x)) \<noteq> None
         \<and> tree (zs_conn s) (addr_path (key_of x) hp) = Some (ServiceMeta_marshal (service_meta hp x)))"
proof -
  obtain s0 where s0: "NewZkRegistry Z (TrimPrefix registryAddr SCHEME_ZK) (map (\<lambda>s. BuildServiceUri (ServiceUri s) (GroupId s)) ss) True z = (Ret s0, zs_conn s0)"
    "tree (zs_conn s0) = with_dirs [] root_parts (tree z)"
    using new_server_healthy [OF Z] by blast
  have "host_ok (tree (zs_conn s0)) hp"
    using hp leaf_host_with_dirs [OF _ root_part, of "tree z" hp] by (simp add: host_ok_def s0(2))
  from registe_all_healthy [OF Z this ss] obtain s where
    "registe_all (reg_RegisteService Z) hp ss (ZkReg s0) = (Ret (), ZkReg s)" "host_ok (tree (zs_conn s)) hp"
    "\<forall>x \<in> set ss. tree (zs_conn s) (service_path (key_of x)) \<noteq> None
         \<and> tree (zs_conn s) (addr_path (key_of x) hp) = Some (ServiceMeta_marshal (service_meta hp x))" by blast
  with s0(1) show ?thesis
    by (simp add: NewConfigCenter_def new_registry_def addr RegisteAllServices_def registe_all_center reg_conn_def Let_def)
qed

section \<open>Properties\<close>

text \<open>
  C9: A server's services are published and found. With a zookeeper address and a healthy zookeeper,
  building the config center publishes every service of the server; a client that starts afterwards
  and asks for any of them, by URI, version and group, gets a list with exactly the meta data the
  server built for it, its own address included. The services must have distinct keys, well-formed
  URIs and text that is valid UTF-8.
\<close>

theorem config_center_publishes:
  fixes services :: "('v, 'w) Service list"
  assumes Z: "zk_healthy Z tree" and addr: "HasPrefix registryAddr SCHEME_ZK" and hp: "host_ok (tree z) hp"
    and ss: "\<forall>x \<in> set services. publishable hp x" "distinct (map key_of services)"
    and x: "x \<in> set services" and keys: "key_of x \<in> set keys"
  shows "\<exists>c z1 cl z2 l. NewConfigCenter Z rf yaml registryAddr hp services z = (Ret c, z1)
    \<and> NewZkRegistry Z hosts keys False z1 = (Ret cl, z2)
    \<and> zk_GetService (ServiceUri x) PROTOCOL (GroupId x) cl = Ret (Inr l)
    \<and> \<lparr>sm_ServiceUri = ServiceUri x, sm_GroupId = GroupId x, sm_HostPort = hp, sm_ProtoVersion = ''v1'', sm_IsPre = IsPre x\<rparr> \<in> set l"
proof -
  obtain s where s: "NewConfigCenter Z rf yaml registryAddr hp services z = (Ret \<lparr>cc_registry = ZkReg s, cc_services = services, cc_hostport = hp\<rparr>, zs_conn s)"
    "tree (zs_conn s) (service_path (key_of x)) \<noteq> None"
    "tree (zs_conn s) (addr_path (key_of x) hp) = Some (ServiceMeta_marshal (service_meta hp x))"
    using new_center_healthy [OF Z addr hp ss] x by blast
  have k: "uri_ok (key_of x)" "meta_ok (service_meta hp x)" using ss(1) x by (auto simp: publishable_def)
  obtain cl z2 where cl: "NewZkRegistry Z hosts keys False (zs_conn s) = (Ret cl, z2)"
    "cache cl (key_of x) = Some (pulled (tree (zs_conn s)) (key_of x))"
    using client_finds [OF Z k(1) keys s(2)] by blast
  have "hp \<in> children (tree (zs_conn s)) (service_path (key_of x))"
    using s(3) hp by (simp add: children_def addr_path_def host_ok_def part_def)
  then have "service_meta hp x \<in> set (pulled (tree (zs_conn s)) (key_of x))"
    using pulled_mem [OF healthy_finite [OF Z s(2)]] node_at_marshal [of "service_meta hp x" "tree (zs_conn s)" "key_of x" hp]
      k(2) s(3) by metis
  with s(1) cl show ?thesis
    by (auto simp: zk_GetService_cache service_meta_def PROTOCOL_def simp flip: key_of_def)
qed

definition pub_service :: "(string, nat) Service" where
  "pub_service = \<lparr>ServiceUri = ''/service/lookup'', GroupId = ''a'', IsPre = True, Interface = (''I'', []),
     Instance = \<lparr>in_String = ''D'', in_implements = True, in_MethodByName = (\<lambda>_ _ w. (Ret [], w))\<rparr>,
     methods = [], InvokesPerClient = None\<rparr>"

lemma pub_key: "key_of pub_service = ''/service/lookup#a''"
  by (simp add: key_of_def pub_service_def BuildServiceUri_def)

lemma pub_ok: "publishable ''10.0.0.1:13000'' pub_service" "host_ok (map_of []) ''10.0.0.1:13000''"
  by (simp_all add: publishable_def pub_key demo_key_ok host_ok_def demo_host leaf_host_def root_parts_def)
     (simp_all add: key_parts_def meta_ok_def service_meta_def pub_service_def PROTOCOL_def)

theorem config_center_publishes_witness:
  "\<exists>c z1 cl z2 l. NewConfigCenter mem_zk (\<lambda>_. Inl ''none'') (\<lambda>_. Inl ''none'') ''zk://zk:2181'' ''10.0.0.1:13000'' [pub_service] [] = (Ret c, z1)
    \<and> NewZkRegistry mem_zk ''zk:2181'' [''/service/lookup#a''] False z1 = (Ret cl, z2)
    \<and> zk_GetService ''/service/lookup'' PROTOCOL ''a'' cl = Ret (Inr l) \<and> map sm_HostPort l \<noteq> []"
proof -
  have a: "HasPrefix ''zk://zk:2181'' SCHEME_ZK" by (simp add: SCHEME_ZK_def)
  have ss: "\<forall>x \<in> set [pub_service]. publishable ''10.0.0.1:13000'' x" "distinct (map key_of [pub_service])"
    "pub_service \<in> set [pub_service]" "key_of pub_service \<in> set [''/service/lookup#a'']"
    using pub_ok(1) by (simp_all add: pub_key)
  have n: "ServiceUri pub_service = ''/service/lookup''" "GroupId pub_service = ''a''" by (simp_all add: pub_service_def)
  show ?thesis
    using config_center_publishes [OF mem_zk_healthy, OF a pub_ok(2) ss, of "\<lambda>_. Inl ''none''" "\<lambda>_. Inl ''none''" "''zk:2181''"]
    unfolding n by auto
qed

lemma unregiste_all_healthy:
  assumes Z: "zk_healthy Z tree"
  shows "leaf_host (tree (zs_conn s)) hp \<Longrightarrow> \<forall>x \<in> set ss. uri_ok (key_of x) \<Longrightarrow>
    \<exists>s'. unregiste_all (reg_UnRegisteService Z) hp ss (ZkReg s) = (Ret (), ZkReg s')
      \<and> tree (zs_conn s') = (\<lambda>p. if p \<in> (\<lambda>x. addr_path (key_of x) hp) ` set ss then None else tree (zs_conn s) p)"
proof (induction ss arbitrary: s)
  case Nil
  then show ?case by simp
next
  case (Cons x ss)
  let ?k = "key_of x"
  have leaf: "children (tree (zs_conn s)) (addr_path ?k hp) = {}"
    using Cons.prems leaf_host_children by auto
  obtain z1 where z1: "zk_unpublish Z (ServiceUri x) hp PROTOCOL (GroupId x) (zs_conn s) = (Ret True, z1)"
    "tree z1 = (tree (zs_conn s))(addr_path ?k hp := None)"
    using zk_unpublish_healthy [OF Z leaf [unfolded key_of_def]] unfolding key_of_def by blast
  have "leaf_host (tree (zs_conn (s\<lparr>zs_conn := z1\<rparr>))) hp" using Cons.prems(1) by (simp add: leaf_host_def z1(2))
  from Cons.IH [OF this] Cons.prems(2) z1 show ?case
    by (auto simp: reg_UnRegisteService_def zk_UnRegisteService_def on_conn_def fun_eq_iff)
qed

text \<open>
  C10: Destroying the config center withdraws every service: on a healthy zookeeper it returns, no
  address node of the server is left, every other node is kept, and the zookeeper session is closed
  afterwards.
\<close>

theorem config_center_withdraws:
  fixes c :: "('v, 'w, 'z) ConfigCenter"
  assumes Z: "zk_healthy Z tree" and r: "cc_registry c = ZkReg s"
    and leaf: "leaf_host (tree (zs_conn s)) (cc_hostport c)" and ss: "\<forall>x \<in> set (cc_services c). uri_ok (key_of x)"
  shows "\<exists>c' s' z'. center_Destroy Z c = (Ret (), c') \<and> cc_registry c' = ZkReg s'
    \<and> isClose (zs_manager s') \<and> zs_conn s' = zk_Close Z z'
    \<and> (\<forall>x \<in> set (cc_services c). tree z' (addr_path (key_of x) (cc_hostport c)) = None)
    \<and> (\<forall>p. (\<forall>x \<in> set (cc_services c). p \<noteq> addr_path (key_of x) (cc_hostport c)) \<longrightarrow> tree z' p = tree (zs_conn s) p)"
proof -
  obtain s1 where s1: "unregiste_all (reg_UnRegisteService Z) (cc_hostport c) (cc_services c) (ZkReg s) = (Ret (), ZkReg s1)"
    "tree (zs_conn s1) = (\<lambda>p. if p \<in> (\<lambda>x. addr_path (key_of x) (cc_hostport c)) ` set (cc_services c) then None else tree (zs_conn s) p)"
    using unregiste_all_healthy [OF Z leaf ss] by blast
  have "center_Destroy Z c = (Ret (), c\<lparr>cc_registry := ZkReg (zk_Destroy Z s1)\<rparr>)"
    by (simp add: center_Destroy_def r s1(1) reg_Destroy_def)
  moreover have "isClose (zs_manager (zk_Destroy Z s1))" "zs_conn (zk_Destroy Z s1) = zk_Close Z (zs_conn s1)"
    by (simp_all add: zk_Destroy_def ZK_Close_def)
  ultimately show ?thesis
    by (intro exI [of _ "c\<lparr>cc_registry := ZkReg (zk_Destroy Z s1)\<rparr>"] exI [of _ "zk_Destroy Z s1"] exI [of _ "zs_conn s1"])
       (auto simp: s1(2))
qed

theorem config_center_withdraws_witness:
  "\<exists>c z1 c'. NewConfigCenter mem_zk (\<lambda>_. Inl ''none'') (\<lambda>_. Inl ''none'') ''zk://zk:2181'' ''10.0.0.1:13000'' [pub_service] [] = (Ret c, z1)
    \<and> map_of z1 (addr_path ''/service/lookup#a'' ''10.0.0.1:13000'') \<noteq> None
    \<and> center_Destroy mem_zk c = (Ret (), c')"
proof -
  have a: "HasPrefix ''zk://zk:2181'' SCHEME_ZK" by (simp add: SCHEME_ZK_def)
  have ss: "\<forall>x \<in> set [pub_service]. publishable ''10.0.0.1:13000'' x" "distinct (map key_of [pub_service])"
    using pub_ok(1) by simp_all
  obtain s where s: "NewConfigCenter mem_zk (\<lambda>_. Inl ''none'') (\<lambda>_. Inl ''none'') ''zk://zk:2181'' ''10.0.0.1:13000'' [pub_service] []
      = (Ret \<lparr>cc_registry = ZkReg s, cc_services = [pub_service], cc_hostport = ''10.0.0.1:13000''\<rparr>, zs_conn s)"
    "host_ok (map_of (zs_conn s)) ''10.0.0.1:13000''"
    "map_of (zs_conn s) (addr_path (key_of pub_service) ''10.0.0.1:13000'') \<noteq> None"
    using new_center_healthy [OF mem_zk_healthy, OF a pub_ok(2) ss, of "\<lambda>_. Inl ''none''" "\<lambda>_. Inl ''none''"] by auto
  let ?c = "\<lparr>cc_registry = ZkReg s, cc_services = [pub_service], cc_hostport = ''10.0.0.1:13000''\<rparr>"
  have l: "leaf_host (map_of (zs_conn s)) (cc_hostport ?c)" using s(2) by (simp add: host_ok_def)
  have u: "\<forall>x \<in> set (cc_services ?c). uri_ok (key_of x)" using pub_key demo_key_ok by simp
  have r: "cc_registry ?c = ZkReg s" by simp
  from config_center_withdraws [OF mem_zk_healthy, OF r l u] s(1,3) show ?thesis unfolding pub_key by blast
qed

text \<open>
  The address decides: a file address never fails and publishes nothing (every question is
  answered with an error); an address of another scheme leaves no registry, so that a server with a
  service panics on it with a nil dereference and one without services starts.
\<close>

theorem config_center_schemes:
  fixes services :: "('v, 'w) Service list"
  assumes "\<not> HasPrefix registryAddr SCHEME_ZK"
  shows "if HasPrefix registryAddr SCHEME_FILE
    then (\<exists>c. NewConfigCenter Z rf yaml registryAddr hp services z = (Ret c, z)
            \<and> center_GetService u p g c = Ret (Inl (''No Hosts! /moa/service/'' @ p @ u)))
    else NewConfigCenter Z rf yaml registryAddr hp services z =
      (if services = [] then Ret \<lparr>cc_registry = NilReg, cc_services = [], cc_hostport = hp\<rparr> else Panic nil_deref, z)"
proof (cases "HasPrefix registryAddr SCHEME_FILE")
  case True
  let ?f = "\<lparr>fr_service = map (\<lambda>s. BuildServiceUri (ServiceUri s) (GroupId s)) services, fr_uri2Services = [], fr_serverModel = True\<rparr>"
  have "registe_all (reg_RegisteService Z) hp ss (FileReg ?f) = (Ret (), FileReg ?f)" for ss :: "('v, 'w) Service list"
    by (induction ss) (simp_all add: reg_RegisteService_def file_RegisteService_def)
  with assms True show ?thesis
    by (simp add: NewConfigCenter_def new_registry_def NewFileRegistry_def RegisteAllServices_def registe_all_center
        reg_conn_def center_GetService_def reg_GetService_def file_GetService_def no_hosts_def Let_def)
next
  case False
  with assms show ?thesis
    by (cases services) (simp_all add: NewConfigCenter_def new_registry_def RegisteAllServices_def registe_all_center
        reg_conn_def reg_RegisteService_def Let_def)
qed

theorem config_center_schemes_witness:
  "NewConfigCenter mem_zk (\<lambda>_. Inl ''none'') (\<lambda>_. Inl ''none'') ''etcd://a'' ''h:1'' [pub_service] [] = (Panic nil_deref, [])"
  using config_center_schemes [of "''etcd://a''" mem_zk "\<lambda>_. Inl ''none''" "\<lambda>_. Inl ''none''" "''h:1''" "[pub_service]" "[]"]
  by (simp add: SCHEME_ZK_def SCHEME_FILE_def)

text \<open>
  Publishing never answers false and never touches what the registry answers: whatever registry
  the center holds, publishing all services leaves every \<^verbatim>\<open>GetService\<close> as it was, and when it panics the
  panic is the registry's own for one of the services; the center's own failure panic is never seen.
\<close>

theorem registering_all_frames:
  fixes c :: "('v, 'w, 'z) ConfigCenter"
  shows "center_GetService u p g (snd (RegisteAllServices Z c)) = center_GetService u p g c
    \<and> (case RegisteAllServices Z c of
         (Ret x, c') \<Rightarrow> True
       | (Panic e, c') \<Rightarrow> \<exists>s \<in> set (cc_services c). \<exists>r.
            reg_RegisteService Z (ServiceUri s) (cc_hostport c) PROTOCOL (GroupId s) (service_meta (cc_hostport c) s) r
              = (Panic e, cc_registry c'))"
proof -
  obtain res r where a: "registe_all (reg_RegisteService Z) (cc_hostport c) (cc_services c) (cc_registry c) = (res, r)"
    by (cases "registe_all (reg_RegisteService Z) (cc_hostport c) (cc_services c) (cc_registry c)")
  then have "RegisteAllServices Z c = (res, c\<lparr>cc_registry := r\<rparr>)" by (simp add: RegisteAllServices_def registe_all_center)
  then show ?thesis
    using any_registry.registe_all_frame [of u p g Z "cc_hostport c" "cc_services c" "cc_registry c"]
      any_registry.registe_all_panic [of Z "cc_hostport c" "cc_services c" "cc_registry c"] a
    by (auto simp: center_GetService_def split: go.split)
qed

end
