(* ===== verification/Moa_Codec_Props.thy ===== *)
theory Moa_Codec_Props
  imports Moa_Codec
begin

text \<open>
  The properties of the codec: requests and responses survive being written and read, compressed or
  not; the replies it always or never has a body for; the sizes it allocates.
\<close>

section \<open>Requests\<close>

lemma dec_props_entries_strings:
  "dec_props_entries (map (\<lambda>(k, v). (k, JStr v)) l) m = (fold (\<lambda>(k, v). AList.update k v) l m, True)"
  by (induction l arbitrary: m) (auto split: prod.split)

lemma map_of_fold_update:
  "map_of (fold (\<lambda>(k, v). AList.update k v) l m) k = (case map_of (rev l) k of None \<Rightarrow> map_of m k | Some v \<Rightarrow> Some v)"
proof (induction l arbitrary: m)
  case (Cons p l)
  then show ?case by (cases p) (auto simp: map_simps map_add_def split: option.splits)
qed simp

lemma props_round_trip:
  assumes "distinct (map fst m)"
  shows "map_of (fold (\<lambda>(k, v). AList.update k v) (sort_key fst m) []) = map_of m"
proof
  fix k
  have d: "distinct (map fst (sort_key fst m))"
    using assms by (metis distinct_map distinct_sort inj_on_def set_sort)
  have s: "map_of (sort_key fst m) k = Some v \<longleftrightarrow> map_of m k = Some v" for v
    using d assms by (simp add: map_of_eq_Some_iff)
  have "map_of (rev (sort_key fst m)) k = Some v \<longleftrightarrow> map_of (sort_key fst m) k = Some v" for v
    using d by (simp add: map_of_eq_Some_iff rev_map [symmetric])
  then have r: "map_of (rev (sort_key fst m)) k = map_of (sort_key fst m) k" by (metis not_None_eq)
  have "map_of (sort_key fst m) k = map_of m k" using s by (metis not_None_eq)
  then show "map_of (fold (\<lambda>(k, v). AList.update k v) (sort_key fst m) []) k = map_of m k"
    by (simp add: map_of_fold_update r split: option.split)
qed

text \<open>What a request is read back as: its properties as a map, nothing when there are none.\<close>

definition same_props :: "(string, string) gomap option \<Rightarrow> (string, string) gomap option \<Rightarrow> bool" where
  "same_props p q = (case p of None \<Rightarrow> q = None | Some [] \<Rightarrow> q = None
     | Some m \<Rightarrow> (case q of None \<Rightarrow> False | Some m' \<Rightarrow> map_of m' = map_of m))"

lemma wrap_req_json:
  assumes j: "MoaReqPacket_json q = Inr j" "wf_json j"
    and d: "case mq_Properties q of None \<Rightarrow> True | Some m \<Rightarrow> distinct (map fst m)"
  shows "\<exists>args props. map_option all_args (mq_Args q) = map_option Inr args
    \<and> same_props (mq_Properties q) props
    \<and> Wrap2MoaRawRequest (json_print j) = Inr \<lparr>rq_ServiceUri = mq_ServiceUri q, rq_Method = mq_Method q,
        rq_Args = args, rq_Properties = props, rq_CreateTime = 0, rq_Timeout = 0, rq_Source = []\<rparr>"
proof -
  obtain args where a: "map_option all_args (mq_Args q) = map_option Inr args"
    and j': "j = JObj ([(''action'', JStr (mq_ServiceUri q)),
            (''params'', JObj [(''m'', JStr (mq_Method q)), (''args'', args_json args)])] @ props_json (mq_Properties q))"
  proof (cases "mq_Args q")
    case None
    with j(1) show ?thesis by (intro that [of None]) (simp_all add: MoaReqPacket_json_def)
  next
    case (Some l)
    with j(1) obtain vs where "all_args l = Inr vs" by (cases "all_args l") (auto simp: MoaReqPacket_json_def)
    with Some j(1) show ?thesis by (intro that [of "Some vs"]) (simp_all add: MoaReqPacket_json_def)
  qed
  have da: "dec_args (args_json args) None = (args, True)"
    by (cases args) (simp_all add: args_json_def dec_args_def)
  have w: "Wrap2MoaRawRequest (json_print j) =
      (case dec_struct [''action'', ''params'', ''props''] raw_req_field j zero_raw_req of
         (q, ok) \<Rightarrow> if ok then Inr q else Inl json_error)"
    by (simp add: Wrap2MoaRawRequest_def json_parse_print [OF j(2)])
  show ?thesis
  proof (cases "mq_Properties q = None \<or> mq_Properties q = Some []")
    case True
    then have "props_json (mq_Properties q) = []" "same_props (mq_Properties q) None"
      by (auto simp: props_json_def same_props_def)
    with a show ?thesis
      unfolding w unfolding j' by (intro exI [of _ args] exI [of _ None])
        (simp add: dec_struct_def raw_req_field_def params_field_def zero_raw_req_def da)
  next
    case False
    then obtain m where m: "mq_Properties q = Some m" "m \<noteq> []" by auto
    then have p: "props_json (mq_Properties q) = [(''props'', JObj (map (\<lambda>(k, v). (k, JStr v)) (sort_key fst m)))]"
      by (simp add: props_json_def split: list.split)
    let ?m = "fold (\<lambda>(k, v). AList.update k v) (sort_key fst m) []"
    have "same_props (mq_Properties q) (Some ?m)"
      using m d props_round_trip [of m] by (auto simp: same_props_def split: list.split)
    with a show ?thesis
      unfolding w unfolding j' p by (intro exI [of _ args] exI [of _ "Some ?m"])
        (simp add: dec_struct_def raw_req_field_def params_field_def zero_raw_req_def da dec_props_def dec_props_entries_strings)
  qed
qed

lemma request_wire:
  assumes p: "CmdType p = REQ" "PayLoad p = ReqPayload q" and j: "MoaReqPacket_json q = Inr j" "wf_json j"
    and d: "case mq_Properties q of None \<Rightarrow> True | Some m \<Rightarrow> distinct (map fst m)"
    and now: "0 < sint (millis now)"
    and r: "CmdType r = REQ" "Extension r AND 1 \<noteq> 1" "MarshalPayload codec p = Inr (Data r)"
  shows "\<exists>args props. map_option all_args (mq_Args q) = map_option Inr args
    \<and> same_props (mq_Properties q) props
    \<and> UnmarshalPayload S now codec' r =
        (let raw = \<lparr>rq_ServiceUri = mq_ServiceUri q, rq_Method = mq_Method q, rq_Args = args, rq_Properties = props,
                    rq_CreateTime = millis now, rq_Timeout = 0, rq_Source = []\<rparr>
         in Ret (Inr (RawReqPayload raw), r\<lparr>PayLoad := RawReqPayload raw\<rparr>))"
proof -
  have "Data r = json_print j" using p r(3) j(1) by (simp add: MarshalPayload_def payload_json_def)
  with wrap_req_json [OF j d] r(1,2) show ?thesis
    by (auto simp: UnmarshalPayload_def decode_payload_def COMPRESS_SNAPPY_def le0_def Let_def)
qed

text \<open>
  C12: A request survives the wire. The bytes a client's request is written as are read by the server,
  uncompressed, as a request for the same service and method with the JSON of the same arguments in
  order and the same properties (an empty property map arrives as none), whose creation time is the
  time of reading and whose timeout and source are not set.
\<close>

theorem request_round_trip:
  assumes p: "CmdType p = REQ" "PayLoad p = ReqPayload q" and j: "MoaReqPacket_json q = Inr j" "wf_json j"
    and d: "case mq_Properties q of None \<Rightarrow> True | Some m \<Rightarrow> distinct (map fst m)"
    and now: "0 < sint (millis now)"
    and r: "CmdType r = REQ" "Extension r AND 1 \<noteq> 1" "MarshalPayload codec p = Inr (Data r)"
  shows "\<exists>args props. map_option all_args (mq_Args q) = map_option Inr args
    \<and> same_props (mq_Properties q) props
    \<and> UnmarshalPayload S now codec' r =
        (let raw = \<lparr>rq_ServiceUri = mq_ServiceUri q, rq_Method = mq_Method q, rq_Args = args, rq_Properties = props,
                    rq_CreateTime = millis now, rq_Timeout = 0, rq_Source = []\<rparr>
         in Ret (Inr (RawReqPayload raw), r\<lparr>PayLoad := RawReqPayload raw\<rparr>))"
  by (rule request_wire [OF p j d now r])

definition no_snappy :: snappy where
  "no_snappy = \<lparr>DecodedLen = (\<lambda>s. Inr (int (length s))), MaxEncodedLen = id, Encode = (\<lambda>_ s. Ret s), Decode = (\<lambda>_ s. Inr s)\<rparr>"

definition req_packet :: "unit packet" where
  "req_packet = \<lparr>CmdType = REQ, Extension = 0, Opaque = 1, Data = [],
     PayLoad = ReqPayload \<lparr>mq_ServiceUri = ''/s'', mq_Method = ''Echo'', mq_Args = Some [Inr (JStr ''hi'')],
       mq_Properties = Some [(''b'', ''2''), (''a'', ''1'')], mq_CreateTime = 0, mq_Timeout = 0\<rparr>\<rparr>"

definition any_codec :: BinaryCodec where
  "any_codec = \<lparr>MaxFrameLength = 1024, SnappyCompress = True\<rparr>"

theorem request_round_trip_witness:
  "\<exists>bytes raw p'. MarshalPayload any_codec req_packet = Inr bytes
    \<and> UnmarshalPayload no_snappy 5000000 any_codec (req_packet\<lparr>Data := bytes\<rparr>) = Ret (Inr (RawReqPayload raw), p')
    \<and> rq_Method raw = ''Echo'' \<and> rq_Args raw = Some [JStr ''hi''] \<and> rq_CreateTime raw = 5"
proof -
  let ?q = "\<lparr>mq_ServiceUri = ''/s'', mq_Method = ''Echo'', mq_Args = Some [Inr (JStr ''hi'')],
       mq_Properties = Some [(''b'', ''2''), (''a'', ''1'')], mq_CreateTime = 0, mq_Timeout = 0\<rparr>"
  have p: "CmdType req_packet = REQ" "PayLoad req_packet = ReqPayload ?q" by (simp_all add: req_packet_def)
  obtain j where j: "MoaReqPacket_json ?q = Inr j" "wf_json j"
    by (simp add: MoaReqPacket_json_def args_json_def props_json_def less_char_def less_eq_char_def)
  have d: "case mq_Properties ?q of None \<Rightarrow> True | Some m \<Rightarrow> distinct (map fst m)" by simp
  have m: "millis 5000000 = 5" by (simp add: millis_def signed_divide_int_def)
  have now: "0 < sint (millis 5000000)" by (simp add: m)
  obtain bytes where b: "MarshalPayload any_codec req_packet = Inr bytes"
    by (simp add: MarshalPayload_def p payload_json_def j(1))
  let ?r = "req_packet\<lparr>Data := bytes\<rparr>"
  have r: "CmdType ?r = REQ" "Extension ?r AND 1 \<noteq> 1" "MarshalPayload any_codec req_packet = Inr (Data ?r)"
    using b by (simp_all add: req_packet_def)
  from request_round_trip [OF p j d now r, of no_snappy any_codec] b m show ?thesis
    by (auto simp: Let_def map_option_case split: option.splits)
qed

section \<open>Responses\<close>

lemma response_wire:
  assumes p: "CmdType p = RESP" "PayLoad p = RespPayload resp"
    and j: "MoaRespPacket_json resp = Inr j" "wf_json j" and ec: "in_int64 (ErrCode resp)"
    and r: "CmdType r = RESP" "Extension r AND 1 \<noteq> 1" "MarshalPayload codec p = Inr (Data r)"
  shows "\<exists>v. result_json (Result resp) = Inr v
    \<and> UnmarshalPayload S now codec' r =
        (let raw = \<lparr>rr_ErrCode = ErrCode resp, rr_Message = Message resp, rr_CreateTime = 0, rr_Result = Some v\<rparr>
         in Ret (Inr (RawRespPayload raw), r\<lparr>PayLoad := RawRespPayload raw\<rparr>))"
proof -
  have "Data r = json_print j" using p r(3) j(1) by (simp add: MarshalPayload_def cmd_defs)
  with wrap_resp_json [OF j ec] r(1,2) show ?thesis
    by (auto simp: UnmarshalPayload_def decode_payload_def COMPRESS_SNAPPY_def cmd_defs Let_def)
qed

text \<open>
  C13: A response survives the wire: the bytes a response is written as are read, uncompressed, as a
  response with the same code and message and the JSON of the same result.
\<close>

theorem response_round_trip:
  assumes p: "CmdType p = RESP" "PayLoad p = RespPayload resp"
    and j: "MoaRespPacket_json resp = Inr j" "wf_json j" and ec: "in_int64 (ErrCode resp)"
    and r: "CmdType r = RESP" "Extension r AND 1 \<noteq> 1" "MarshalPayload codec p = Inr (Data r)"
  shows "\<exists>v. result_json (Result resp) = Inr v
    \<and> UnmarshalPayload S now codec' r =
        (let raw = \<lparr>rr_ErrCode = ErrCode resp, rr_Message = Message resp, rr_CreateTime = 0, rr_Result = Some v\<rparr>
         in Ret (Inr (RawRespPayload raw), r\<lparr>PayLoad := RawRespPayload raw\<rparr>))"
  by (rule response_wire [OF p j ec r])

definition resp_packet :: "unit packet" where
  "resp_packet = \<lparr>CmdType = RESP, Extension = 2, Opaque = 1, Data = [],
     PayLoad = RespPayload \<lparr>ErrCode = 502, Message = ''Method not found: x.'', rp_CreateTime = 0, Result = None\<rparr>\<rparr>"

theorem response_round_trip_witness:
  "\<exists>bytes raw p'. MarshalPayload any_codec resp_packet = Inr bytes
    \<and> UnmarshalPayload no_snappy 0 any_codec (resp_packet\<lparr>Data := bytes\<rparr>) = Ret (Inr (RawRespPayload raw), p')
    \<and> rr_ErrCode raw = 502 \<and> rr_Message raw = ''Method not found: x.'' \<and> rr_Result raw = Some JNull"
proof -
  let ?resp = "\<lparr>ErrCode = 502, Message = ''Method not found: x.'', rp_CreateTime = 0, Result = None\<rparr> :: unit MoaRespPacket"
  have p: "CmdType resp_packet = RESP" "PayLoad resp_packet = RespPayload ?resp" by (simp_all add: resp_packet_def)
  obtain j where j: "MoaRespPacket_json ?resp = Inr j" "wf_json j"
    by (simp add: MoaRespPacket_json_def result_json_def)
  have ec: "in_int64 (ErrCode ?resp)" by (simp add: in_int64_def)
  obtain bytes where b: "MarshalPayload any_codec resp_packet = Inr bytes"
    by (simp add: MarshalPayload_def p j(1) cmd_defs)
  let ?r = "resp_packet\<lparr>Data := bytes\<rparr>"
  have r: "CmdType ?r = RESP" "Extension ?r AND 1 \<noteq> 1" "MarshalPayload any_codec resp_packet = Inr (Data ?r)"
    using b by (simp_all add: resp_packet_def)
  from response_round_trip [OF p j ec r, of no_snappy 0 any_codec] b show ?thesis
    by (auto simp: Let_def result_json_def)
qed

text \<open>
  C33: Which packets have no body and which cannot fail. Only a request can fail to be written. A
  response is always written: one whose payload is no response, or whose result cannot be marshalled,
  is read by the client as code 3021. The reply to an information request is always written without
  a body, whatever its payload.
\<close>

theorem marshal_outcomes:
  fixes p :: "'v packet"
  shows "(MarshalPayload codec p = Inl e \<longleftrightarrow> CmdType p = REQ \<and> payload_json (PayLoad p) = Inl e)
    \<and> (CmdType p = RESP \<and> (case PayLoad p of RespPayload r \<Rightarrow> isl (MoaRespPacket_json r) | _ \<Rightarrow> True) \<longrightarrow>
        (\<exists>bytes raw. MarshalPayload codec p = Inr bytes \<and> Wrap2MoaRawResponse bytes = Inr raw \<and> rr_ErrCode raw = 3021))
    \<and> (CmdType p = INFO \<longrightarrow> MarshalPayload codec p = Inr [])"
proof (intro conjI impI)
  show "MarshalPayload codec p = Inl e \<longleftrightarrow> CmdType p = REQ \<and> payload_json (PayLoad p) = Inl e"
    by (auto simp: MarshalPayload_def cmd_defs Let_def split: sum.split)
  show "MarshalPayload codec p = Inr []" if "CmdType p = INFO"
    using that by (simp add: MarshalPayload_def cmd_defs)
next
  assume a: "CmdType p = RESP \<and> (case PayLoad p of RespPayload r \<Rightarrow> isl (MoaRespPacket_json r) | _ \<Rightarrow> True)"
  let ?b = "bad_payload :: 'v MoaRespPacket"
  obtain j where j: "MoaRespPacket_json ?b = Inr j" "wf_json j"
    by (simp add: MoaRespPacket_json_def result_json_def bad_payload_def zero_resp_def)
  have ec: "in_int64 (ErrCode ?b)" by (simp add: in_int64_def bad_payload_def code_defs)
  have "MarshalPayload codec p = Inr (json_print j)"
    using a j(1) by (cases "PayLoad p") (auto simp: MarshalPayload_def cmd_defs bytes_or_nil_def Let_def isl_def)
  with wrap_resp_json [OF j ec] show "\<exists>bytes raw. MarshalPayload codec p = Inr bytes \<and> Wrap2MoaRawResponse bytes = Inr raw \<and> rr_ErrCode raw = 3021"
    by (auto simp: bad_payload_def code_defs)
qed

theorem marshal_outcomes_witness:
  "MarshalPayload any_codec (resp_packet\<lparr>CmdType := INFO, PayLoad := OtherPayload (Inr (JObj [(''moa'', JNull)]))\<rparr>) = Inr []
   \<and> (\<exists>bytes raw. MarshalPayload any_codec (resp_packet\<lparr>PayLoad := NilPayload\<rparr>) = Inr bytes
        \<and> Wrap2MoaRawResponse bytes = Inr raw \<and> rr_ErrCode raw = 3021)"
  using marshal_outcomes [of any_codec "resp_packet\<lparr>CmdType := INFO, PayLoad := OtherPayload (Inr (JObj [(''moa'', JNull)]))\<rparr>"]
    marshal_outcomes [of any_codec "resp_packet\<lparr>PayLoad := NilPayload\<rparr>"]
  by (simp add: resp_packet_def)

section \<open>Compression\<close>

lemma round_256_bounds:
  "0 \<le> l \<Longrightarrow> l \<le> round_256 l \<and> round_256 l < l + 256 \<and> 256 dvd round_256 l"
proof -
  assume l: "0 \<le> l"
  then have e: "l sdiv 256 = l div 256" "l smod 256 = l mod 256"
    by (simp_all add: signed_divide_int_def signed_modulo_int_def sgn_if)
  have m: "l = 256 * (l div 256) + l mod 256" "0 \<le> l mod 256" "l mod 256 < 256" by simp_all
  show ?thesis
    using m by (simp add: round_256_def e dvd_eq_mod_eq_0) presburger
qed

text \<open>
  The documented laws of snappy: the longest encoding of a text that is not too long is known, a
  buffer of that length is enough to encode it, and what was encoded is decoded, whatever the buffer,
  with the length announced.
\<close>

definition snappy_law :: "snappy \<Rightarrow> bool" where
  "snappy_law S \<longleftrightarrow>
     (\<forall>src n. 0 \<le> MaxEncodedLen S (int (length src)) \<longrightarrow> MaxEncodedLen S (int (length src)) \<le> n \<longrightarrow>
        (\<exists>c. Encode S n src = Ret c \<and> DecodedLen S c = Inr (int (length src)) \<and> (\<forall>d. Decode S d c = Inr src)))"

lemma snappy_round:
  assumes S: "snappy_law S" and len: "0 \<le> MaxEncodedLen S (int (length src))"
  shows "\<exists>c. Compress S src = Ret c \<and> Decompress S c = Ret (Inr src)"
proof -
  let ?l = "round_256 (MaxEncodedLen S (int (length src)))"
  have l: "MaxEncodedLen S (int (length src)) \<le> ?l" "\<not> ?l < 0"
    using round_256_bounds [OF len] len by linarith+
  from S len l(1) obtain c where c: "Encode S ?l src = Ret c" "DecodedLen S c = Inr (int (length src))"
    "\<forall>d. Decode S d c = Inr src" unfolding snappy_law_def by blast
  have "\<not> round_256 (int (length src)) < 0" using round_256_bounds [of "int (length src)"] by linarith
  with c l(2) show ?thesis by (simp add: Compress_def Decompress_def make_bytes_def)
qed

text \<open>The buffers: \<open>n\<close> bytes for \<open>l\<close> asked for.\<close>

definition buffer_for :: "int \<Rightarrow> int \<Rightarrow> bool" where
  "buffer_for l n \<longleftrightarrow> 256 dvd n \<and> l \<le> n \<and> n < l + 256"

lemma Compress_buffer:
  assumes "0 \<le> MaxEncodedLen S (int (length src))"
  shows "\<exists>n. buffer_for (MaxEncodedLen S (int (length src))) n \<and> Compress S src = Encode S n src"
  using round_256_bounds [OF assms] assms
  by (intro exI [of _ "round_256 (MaxEncodedLen S (int (length src)))"]) (auto simp: buffer_for_def Compress_def make_bytes_def)

lemma Decompress_buffer:
  assumes "DecodedLen S src = Inr l" "0 \<le> l"
  shows "\<exists>n. buffer_for l n \<and> Decompress S src = Ret (Decode S n src)"
  using round_256_bounds [OF assms(2)] assms
  by (intro exI [of _ "round_256 l"]) (auto simp: buffer_for_def Decompress_def make_bytes_def)

text \<open>
  C32: Compressed packets are read as if they were not. Under snappy's laws, compressing data and
  reading a packet with the compressed data and the compression bit set gives the payload or the
  error that the plain data gives, and leaves the plain data in the packet; neither step panics.
  Whatever the snappy \<open>S'\<close>, the buffer \<^verbatim>\<open>Encode\<close> is called with is a multiple of 256 bytes, as long as
  \<^verbatim>\<open>MaxEncodedLen\<close> and less than 256 longer; the one \<^verbatim>\<open>Decode\<close> is called with is so for \<^verbatim>\<open>DecodedLen\<close>;
  and data whose length cannot be read is an error, with no buffer and no call.
\<close>

theorem compressed_packets:
  fixes p :: "'v packet"
  assumes S: "snappy_law S" and len: "0 \<le> MaxEncodedLen S (int (length (Data p)))" and ext: "Extension p AND 1 = 1"
  shows "(\<exists>c. Compress S (Data p) = Ret c
      \<and> UnmarshalPayload S now codec (p\<lparr>Data := c\<rparr>) = Ret (decode_payload now p)
      \<and> UnmarshalPayload S now codec (p\<lparr>Extension := 0\<rparr>) = Ret (map_prod id (\<lambda>q. q\<lparr>Extension := 0\<rparr>) (decode_payload now p)))
    \<and> (0 \<le> MaxEncodedLen S' (int (length src)) \<longrightarrow>
        (\<exists>n. buffer_for (MaxEncodedLen S' (int (length src))) n \<and> Compress S' src = Encode S' n src))
    \<and> (case DecodedLen S' src of Inl err \<Rightarrow> Decompress S' src = Ret (Inl err)
        | Inr l \<Rightarrow> 0 \<le> l \<longrightarrow> (\<exists>n. buffer_for l n \<and> Decompress S' src = Ret (Decode S' n src)))"
proof -
  obtain c where c: "Compress S (Data p) = Ret c" "Decompress S c = Ret (Inr (Data p))"
    using snappy_round [OF S len] by blast
  have plain: "decode_payload now (p\<lparr>Extension := 0\<rparr>) = map_prod id (\<lambda>q. q\<lparr>Extension := 0\<rparr>) (decode_payload now p)"
    by (simp add: decode_payload_def Let_def split: sum.split)
  have "case DecodedLen S' src of Inl err \<Rightarrow> Decompress S' src = Ret (Inl err)
      | Inr l \<Rightarrow> 0 \<le> l \<longrightarrow> (\<exists>n. buffer_for l n \<and> Decompress S' src = Ret (Decode S' n src))"
    using Decompress_buffer [of S' src] by (auto simp: Decompress_def split: sum.split)
  with c ext Compress_buffer [of S' src] show ?thesis
    by (simp add: UnmarshalPayload_def COMPRESS_SNAPPY_def plain Let_def)
qed

text \<open>A snappy that shows the buffers it is given.\<close>

definition sizes_snappy :: snappy where
  "sizes_snappy = \<lparr>DecodedLen = \<lambda>src. Inr 300, MaxEncodedLen = \<lambda>n. n + 32,
     Encode = \<lambda>n src. Ret (dec_int n), Decode = \<lambda>n src. Inr (dec_int n)\<rparr>"

theorem compressed_packets_witness:
  "(\<exists>c. Compress no_snappy ''{}'' = Ret c
      \<and> UnmarshalPayload no_snappy 0 any_codec (resp_packet\<lparr>Extension := 3, Data := c\<rparr>) = Ret (decode_payload 0 (resp_packet\<lparr>Extension := 3, Data := ''{}''\<rparr>)))
    \<and> Compress sizes_snappy ''{}'' = Ret (dec_int 256) \<and> Decompress sizes_snappy ''{}'' = Ret (Inr (dec_int 512))"
proof -
  let ?p = "resp_packet\<lparr>Extension := 3, Data := ''{}''\<rparr>"
  have S: "snappy_law no_snappy" by (simp add: snappy_law_def no_snappy_def)
  have len: "0 \<le> MaxEncodedLen no_snappy (int (length (Data ?p)))" and ext: "Extension ?p AND 1 = 1"
    by (simp_all add: no_snappy_def)
  note c = compressed_packets [OF S len ext, of 0 any_codec sizes_snappy "''{}''"]
  have sizes: "MaxEncodedLen sizes_snappy (int (length ''{}'')) = 34" "DecodedLen sizes_snappy ''{}'' = Inr 300"
    by (simp_all add: sizes_snappy_def)
  have one: "n = 256" if "buffer_for 34 n" for n using that unfolding buffer_for_def by presburger
  have two: "n = 512" if "buffer_for 300 n" for n using that unfolding buffer_for_def by presburger
  obtain n m where "buffer_for 34 n" "Compress sizes_snappy ''{}'' = Encode sizes_snappy n ''{}''"
    "buffer_for 300 m" "Decompress sizes_snappy ''{}'' = Ret (Decode sizes_snappy m ''{}'')"
    using c unfolding sizes by auto
  then have "Compress sizes_snappy ''{}'' = Ret (dec_int 256)" "Decompress sizes_snappy ''{}'' = Ret (Inr (dec_int 512))"
    by (auto dest!: one two simp: sizes_snappy_def)
  with c show ?thesis by auto
qed

end
