(* ===== verification/Moa_Stat_Laws.thy ===== *)
theory Moa_Stat_Laws
  imports Moa_Stat "HOL-Library.Multiset"
begin

text \<open>
  The four flows of the statistics by name, and the contract of a store of call counters (the locale
  \<open>call_counter\<close>), which the statistics fulfil.
\<close>

section \<open>Statistics\<close>

text \<open>The four flows by name, and what each increment does to them.\<close>

datatype stat_key = KRecv | KProc | KError | KTimeout

primrec stat_flow :: "MoaStat \<Rightarrow> stat_key \<Rightarrow> flow" where
  "stat_flow s KRecv = Recv (currMoaInfo s)"
| "stat_flow s KProc = Proc (currMoaInfo s)"
| "stat_flow s KError = Error (currMoaInfo s)"
| "stat_flow s KTimeout = Timeout (currMoaInfo s)"

primrec stat_incr :: "stat_key \<Rightarrow> MoaStat \<Rightarrow> MoaStat" where
  "stat_incr KRecv = IncrRecv"
| "stat_incr KProc = IncrProc"
| "stat_incr KError = IncrError"
| "stat_incr KTimeout = IncrTimeout"

text \<open>
  A store of call counters: \<open>bump k\<close> makes one \<^verbatim>\<open>Incr(1)\<close> on the flow of the key \<open>k\<close>, when the store has
  a place for that key, and touches no other. Any sequence of bumps then leaves on a flow as many
  increments as the sequence has occurrences of its key, in whatever order they came.
\<close>

locale call_counter =
  fixes bump :: "'k \<Rightarrow> 's \<Rightarrow> 's"
    and flow_at :: "'s \<Rightarrow> 'k \<Rightarrow> flow"
    and live :: "'s \<Rightarrow> 'k \<Rightarrow> bool"
  assumes flow_at_bump: "live s k \<Longrightarrow> flow_at (bump k s) k' = (if k = k' then flow_at s k @ [Incr 1] else flow_at s k')"
    and live_bump: "live (bump k s) k' = live s k'"
begin

lemma live_fold: "live (fold bump ks s) k = live s k"
  by (induction ks arbitrary: s) (simp_all add: live_bump)

lemma flow_at_fold:
  "\<forall>k \<in> set ks. live s k \<Longrightarrow>
   flow_at (fold bump ks s) k = flow_at s k @ replicate (count_list ks k) (Incr 1)"
  by (induction ks arbitrary: s) (simp_all add: flow_at_bump live_bump)

lemma flow_at_perm:
  assumes "mset ks = mset ks'" "\<forall>k \<in> set ks. live s k"
  shows "flow_at (fold bump ks s) k = flow_at (fold bump ks' s) k"
proof -
  have "set ks' = set ks" using assms(1) by (metis mset_eq_setD)
  then show ?thesis using assms by (simp add: flow_at_fold flip: count_mset)
qed

end

lemma stat_flow_upd_metrics [simp]: "stat_flow (upd_metrics f s) k = stat_flow s k"
  by (cases k) (simp_all add: upd_metrics_def)

interpretation stat_counter: call_counter stat_incr stat_flow "\<lambda>_ _. True"
proof
  fix k s k'
  assume True
  show "stat_flow (stat_incr k s) k' = (if k = k' then stat_flow s k @ [Incr 1] else stat_flow s k')"
    by (cases k; cases k') (simp_all add: IncrRecv_def IncrProc_def IncrError_def IncrTimeout_def upd_metrics_def)
qed simp

lemma stat_flow_incr [simp]:
  "stat_flow (IncrRecv s) k = (if k = KRecv then stat_flow s KRecv @ [Incr 1] else stat_flow s k)"
  "stat_flow (IncrProc s) k = (if k = KProc then stat_flow s KProc @ [Incr 1] else stat_flow s k)"
  "stat_flow (IncrError s) k = (if k = KError then stat_flow s KError @ [Incr 1] else stat_flow s k)"
  "stat_flow (IncrTimeout s) k = (if k = KTimeout then stat_flow s KTimeout @ [Incr 1] else stat_flow s k)"
  using stat_counter.flow_at_bump [where k = KRecv and s = s and k' = k]
    stat_counter.flow_at_bump [where k = KProc and s = s and k' = k]
    stat_counter.flow_at_bump [where k = KError and s = s and k' = k]
    stat_counter.flow_at_bump [where k = KTimeout and s = s and k' = k]
  by (simp_all only: stat_incr.simps eq_commute [of k] refl)

declare stat_flow.simps [simp del]

lemma stat_flow_ObserveCost [simp]: "stat_flow (ObserveCost m c s) k = stat_flow s k"
  by (simp add: ObserveCost_def)

end
