(* ===== verification/Moa_Proxy_Laws.thy ===== *)
theory Moa_Proxy_Laws
  imports Moa_Proxy Moa_Stat_Laws
begin

text \<open>
  How the invocation handler behaves, for the properties: the call table of a service and the call
  tables of a handler as counter stores (the locale \<open>call_counter\<close>); the verdict of the checks before a call (\<open>dispatch\<close>) and the body of
  \<^verbatim>\<open>Invoke\<close> in terms of it; well-formed handlers; the case rules of the call and its recovery.
\<close>

section \<open>Call counters\<close>

definition counter_at :: "invokes \<Rightarrow> string \<times> string \<Rightarrow> flow" where
  "counter_at m k =
     (case map_of m (fst k) of None \<Rightarrow> [] | Some fl \<Rightarrow> (case map_of fl (snd k) of None \<Rightarrow> [] | Some f \<Rightarrow> f))"

lemma load_default_spec:
  "fst (load_default k v m) = (case map_of m k of None \<Rightarrow> v | Some x \<Rightarrow> x)"
  "map_of (snd (load_default k v m)) k' = (if k = k' then Some (case map_of m k of None \<Rightarrow> v | Some x \<Rightarrow> x) else map_of m k')"
  by (auto simp: load_default_def load_or_store_def map_simps split: option.splits)

lemma counter_at_count_invoke:
  "counter_at (count_invoke src name m) k =
     (if (src, name) = k then counter_at m (src, name) @ [Incr 1] else counter_at m k)"
proof -
  obtain fl m1 where l1: "load_default src [] m = (fl, m1)" by (cases "load_default src [] m")
  obtain c fl1 where l2: "load_default name [] fl = (c, fl1)" by (cases "load_default name [] fl")
  have fl: "fl = (case map_of m src of None \<Rightarrow> [] | Some x \<Rightarrow> x)"
    and m1: "\<And>k'. map_of m1 k' = (if src = k' then Some fl else map_of m k')"
    using load_default_spec [of src "[]" m] by (simp_all add: l1)
  have c: "c = (case map_of fl name of None \<Rightarrow> [] | Some x \<Rightarrow> x)"
    and fl1: "\<And>k'. map_of fl1 k' = (if name = k' then Some c else map_of fl k')"
    using load_default_spec [of name "[]" fl] by (simp_all add: l2)
  have "count_invoke src name m = AList.update src (AList.update name (c @ [Incr 1]) fl1) m1"
    by (simp add: count_invoke_def l1 l2)
  then show ?thesis
    using fl c by (cases k) (auto simp: counter_at_def map_simps m1 fl1 split: option.splits)
qed

interpretation invoke_counter: call_counter "\<lambda>(src, name). count_invoke src name" counter_at "\<lambda>_ _. True"
  by unfold_locales (auto simp: counter_at_count_invoke split: prod.splits)

section \<open>Outcomes of an invocation\<close>

text \<open>
  Which of its exits an invocation takes, read off the handler and the request alone: the
  specification the code is compared with.
\<close>

datatype ('v, 'w) verdict =
    NoService
  | NoMethod
  | NoCounters
  | BadArity nat nat
  | BadArgument string
  | Call "('v, 'w) MethodMeta" "'v arg list"

definition value_params :: "'v rtype list \<Rightarrow> 'v rtype list" where
  "value_params ts = (case ts of [] \<Rightarrow> [] | t # ts' \<Rightarrow> if rt_context t then ts' else t # ts')"

definition ctx_params :: "ctx \<Rightarrow> 'v rtype list \<Rightarrow> 'v arg list" where
  "ctx_params c ts = (case ts of [] \<Rightarrow> [] | t # _ \<Rightarrow> if rt_context t then [ArgCtx c] else [])"

definition dispatch :: "ctx \<Rightarrow> (string, ('v, 'w) Service) gomap \<Rightarrow> MoaRawReqPacket \<Rightarrow> ('v, 'w) verdict" where
  "dispatch c inst req =
     (case map_of inst (rq_ServiceUri req) of None \<Rightarrow> NoService
      | Some s \<Rightarrow>
     (case map_of (methods s) (ToLower (rq_Method req)) of None \<Rightarrow> NoMethod
      | Some m \<Rightarrow>
     (if InvokesPerClient s = None then NoCounters
      else if length (args_of req) \<noteq> length (value_params (ParamTypes m))
        then BadArity (length (args_of req)) (length (ParamTypes m))
      else (case decode_args (args_of req) (value_params (ParamTypes m)) of
              Inl e \<Rightarrow> BadArgument e
            | Inr vs \<Rightarrow> Call m (ctx_params c (ParamTypes m) @ vs)))))"

text \<open>The state after the counting step, which precedes the checks of the arguments.\<close>

definition counted :: "(string, ('v, 'w) Service) gomap \<Rightarrow> MoaRawReqPacket \<Rightarrow> (string, ('v, 'w) Service) gomap" where
  "counted inst req =
     (case map_of inst (rq_ServiceUri req) of None \<Rightarrow> inst
      | Some s \<Rightarrow>
     (case (map_of (methods s) (ToLower (rq_Method req)), InvokesPerClient s) of
        (Some m, Some calls) \<Rightarrow>
          set_invokes (rq_ServiceUri req) (count_invoke (rq_Source req) (Name m) calls) inst
      | _ \<Rightarrow> inst))"

lemma Invoke_body_dispatch:
  "Invoke_body c req st =
     (let st1 = st\<lparr>is_instances := counted (is_instances st) req\<rparr> in
      case dispatch c (is_instances st) req of
        NoService \<Rightarrow> (fail_with CODE_SERVICE_NOT_FOUND (Sprintf MSG_NO_URI_FOUND [FStr (rq_ServiceUri req)]) st1, None)
      | NoMethod \<Rightarrow> (fail_with CODE_METHOD_NOT_FOUND (Sprintf MSG_METHOD_NOT_FOUND [FStr (rq_Method req)]) st1, None)
      | NoCounters \<Rightarrow> (st1, Some nil_deref)
      | BadArity n k \<Rightarrow> (fail_with CODE_SERIALIZATION (Sprintf MSG_PARAMS_NOT_MATCHED [FInt (int n), FInt (int k)]) st1, None)
      | BadArgument e \<Rightarrow> (fail_with CODE_SERIALIZATION_SERVER (Sprintf MSG_SERIALIZATION [FStr e]) st1, None)
      | Call m ps \<Rightarrow> call_method m ps st1)"
  by (auto simp: Invoke_body_def found_method_def dispatch_def counted_def value_params_def ctx_params_def Let_def
      split: option.splits list.splits sum.splits if_splits)

section \<open>Well-formed handlers\<close>

definition wf_method :: "string \<Rightarrow> ('v, 'w) MethodMeta \<Rightarrow> bool" where
  "wf_method k m \<longleftrightarrow> k = ToLower (Name m) \<and> 1 \<le> length (ReturnType m) \<and> length (ReturnType m) \<le> 2
     \<and> rt_error (last (ReturnType m))"

definition wf_service :: "('v, 'w) Service \<Rightarrow> bool" where
  "wf_service s \<longleftrightarrow> (methods s \<noteq> [] \<longrightarrow> InvokesPerClient s \<noteq> None)
     \<and> (\<forall>k m. map_of (methods s) k = Some m \<longrightarrow> wf_method k m)"

definition wf_instances :: "(string, ('v, 'w) Service) gomap \<Rightarrow> bool" where
  "wf_instances inst \<longleftrightarrow> (\<forall>uri s. map_of inst uri = Some s \<longrightarrow> ServiceUri s = uri \<and> wf_service s)"

definition valid_method :: "'v rmethod \<Rightarrow> bool" where
  "valid_method m \<longleftrightarrow> 1 \<le> length (rm_Out m) \<and> length (rm_Out m) \<le> 2 \<and> rt_error (last (rm_Out m))"

definition valid_service :: "('v, 'w) Service \<Rightarrow> bool" where
  "valid_service s \<longleftrightarrow> in_implements (Instance s) \<and> list_all valid_method (snd (Interface s))"

definition meta_of :: "('v, 'w) Service \<Rightarrow> 'v rmethod \<Rightarrow> ('v, 'w) MethodMeta" where
  "meta_of s m = \<lparr>Name = rm_Name m, Method = in_MethodByName (Instance s) (rm_Name m),
     ReturnType = rm_Out m, ParamTypes = rm_In m\<rparr>"

lemma method_meta_valid: "method_meta s m = Ret mm \<longleftrightarrow> valid_method m \<and> mm = meta_of s m"
  by (auto simp: method_meta_def valid_method_def meta_of_def)

lemma meta_of_frame [simp]:
  "meta_of (s\<lparr>methods := x, InvokesPerClient := y\<rparr>) m = meta_of s m"
  "meta_of (s\<lparr>methods := x\<rparr>) m = meta_of s m"
  by (simp_all add: meta_of_def)

text \<open>The method table a service ends up with: later methods overwrite equal lower-case names.\<close>

definition method_table :: "('v, 'w) Service \<Rightarrow> 'v rmethod list \<Rightarrow> (string, ('v, 'w) MethodMeta) gomap
    \<Rightarrow> (string, ('v, 'w) MethodMeta) gomap" where
  "method_table s ms t = fold (\<lambda>m. AList.update (ToLower (rm_Name m)) (meta_of s m)) ms t"

lemma method_loop_Ret:
  "method_loop ms s = Ret s' \<longleftrightarrow>
     list_all valid_method ms \<and>
     s' = s\<lparr>methods := method_table s ms (methods s),
            InvokesPerClient := (if ms = [] then InvokesPerClient s else Some [])\<rparr>"
proof (induction ms arbitrary: s)
  case Nil
  then show ?case by (auto simp: method_table_def)
next
  case (Cons m ms)
  have f: "method_table (s\<lparr>methods := x, InvokesPerClient := y\<rparr>) ms t = method_table s ms t" for x y t
    by (simp add: method_table_def)
  show ?case
    by (auto simp: bind_go_Ret_iff method_meta_valid Cons.IH f) (auto simp: method_table_def)
qed

lemma reflect_service_Ret:
  "reflect_service s = Ret s' \<longleftrightarrow> valid_service s \<and>
     s' = s\<lparr>methods := method_table s (snd (Interface s)) [],
            InvokesPerClient := (if snd (Interface s) = [] then InvokesPerClient s else Some [])\<rparr>"
proof -
  have f: "method_table (s\<lparr>methods := x\<rparr>) ms t = method_table s ms t" for x ms t
    by (simp add: method_table_def)
  show ?thesis by (auto simp: reflect_service_def valid_service_def method_loop_Ret f)
qed

lemma method_table_wf:
  assumes "list_all valid_method ms" "\<forall>k m. map_of t k = Some m \<longrightarrow> wf_method k m"
  shows "map_of (method_table s ms t) k = Some m \<Longrightarrow> wf_method k m"
  using assms
proof (induction ms arbitrary: t)
  case Nil
  then show ?case by (simp add: method_table_def)
next
  case (Cons x xs)
  have "wf_method (ToLower (rm_Name x)) (meta_of s x)"
    using Cons.prems(2) by (simp add: wf_method_def meta_of_def valid_method_def)
  with Cons show ?case by (simp add: method_table_def map_simps)
qed

lemma method_table_other:
  "\<forall>m \<in> set ms. ToLower (rm_Name m) \<noteq> k \<Longrightarrow> map_of (method_table s ms t) k = map_of t k"
  by (induction ms arbitrary: t) (simp_all add: method_table_def map_simps)

lemma method_table_last:
  assumes "ms = xs @ m # ys" "\<forall>x \<in> set ys. ToLower (rm_Name x) \<noteq> ToLower (rm_Name m)"
  shows "map_of (method_table s ms t) (ToLower (rm_Name m)) = Some (meta_of s m)"
proof -
  have "method_table s ms t = method_table s ys (AList.update (ToLower (rm_Name m)) (meta_of s m) (method_table s xs t))"
    using assms(1) by (simp add: method_table_def)
  then show ?thesis by (simp add: method_table_other [OF assms(2)] map_simps)
qed

lemma reflect_service_wf: "reflect_service s = Ret s' \<Longrightarrow> wf_service s' \<and> ServiceUri s' = ServiceUri s"
proof -
  assume r: "reflect_service s = Ret s'"
  then have v: "list_all valid_method (snd (Interface s))"
    and s': "s' = s\<lparr>methods := method_table s (snd (Interface s)) [],
            InvokesPerClient := (if snd (Interface s) = [] then InvokesPerClient s else Some [])\<rparr>"
    by (auto simp: reflect_service_Ret valid_service_def)
  have "wf_method k m" if "map_of (method_table s (snd (Interface s)) []) k = Some m" for k m
    by (rule method_table_wf [OF v _ that]) simp
  then show ?thesis by (auto simp: s' wf_service_def method_table_def)
qed

lemma service_loop_wf: "service_loop ss inst = Ret inst' \<Longrightarrow> wf_instances inst \<Longrightarrow> wf_instances inst'"
proof (induction ss arbitrary: inst)
  case Nil
  then show ?case by simp
next
  case (Cons s ss)
  then obtain s' where s': "reflect_service s = Ret s'"
    "service_loop ss (AList.update (ServiceUri s') s' inst) = Ret inst'"
    by (auto simp: bind_go_Ret_iff)
  have "wf_instances (AList.update (ServiceUri s') s' inst)"
    using Cons.prems(2) reflect_service_wf [OF s'(1)] by (simp add: wf_instances_def map_simps)
  with s'(2) show ?case by (rule Cons.IH)
qed

lemma service_loop_Ret: "(\<exists>inst'. service_loop ss inst = Ret inst') \<longleftrightarrow> list_all valid_service ss"
proof (induction ss arbitrary: inst)
  case Nil
  then show ?case by simp
next
  case (Cons s ss)
  show ?case using Cons.IH by (auto simp: bind_go_Ret_iff reflect_service_Ret)
qed

lemma set_invokes_wf: "wf_instances inst \<Longrightarrow> wf_instances (set_invokes uri m inst)"
  by (auto simp: wf_instances_def set_invokes_def wf_service_def map_simps split: option.splits)

lemma counted_wf: "wf_instances inst \<Longrightarrow> wf_instances (counted inst req)"
  by (auto simp: counted_def set_invokes_wf split: option.splits)

lemma wf_not_NoCounters: "wf_instances inst \<Longrightarrow> dispatch c inst req \<noteq> NoCounters"
  by (fastforce simp: dispatch_def wf_instances_def wf_service_def split: option.splits sum.splits if_splits)

lemma dispatch_Call_wf:
  "wf_instances inst \<Longrightarrow> dispatch c inst req = Call m ps \<Longrightarrow>
   wf_method (ToLower (rq_Method req)) m"
  by (auto simp: dispatch_def wf_instances_def wf_service_def split: option.splits sum.splits if_splits)

section \<open>The call and its recovery\<close>

lemma fail_with_sel [simp]:
  "is_instances (fail_with code msg st) = is_instances st"
  "is_stat (fail_with code msg st) = IncrError (is_stat st)"
  "is_world (fail_with code msg st) = is_world st"
  "ErrCode (is_resp (fail_with code msg st)) = code"
  "Message (is_resp (fail_with code msg st)) = msg"
  "Result (is_resp (fail_with code msg st)) = Result (is_resp st)"
  by (simp_all add: fail_with_def)

lemma recover_crash_simps [simp]:
  "recover_crash None st = st"
  "recover_crash (Some e) st = fail_with CODE_INVOCATION_TARGET (Sprintf MSG_INVOCATION_TARGET [FStr e]) st"
  by (simp_all add: recover_crash_def)

lemma invoke_world: "snd (invoke m ps w) = snd (Method m ps w)"
  by (auto simp: invoke_def split: prod.splits go.splits)

lemma invoke_Ret:
  "invoke m ps w = (Ret work, w') \<Longrightarrow> Method m ps w = (Ret (ir_values work), w')"
  by (auto simp: invoke_def bind_go_Ret_iff split: prod.splits go.splits if_splits list.splits)

text \<open>The four ways a call can end, and what it leaves untouched.\<close>

lemma call_method_cases:
  assumes "call_method m ps st = (st', crash)"
  obtains (crashed) c where "crash = Some c" "is_stat st' = is_stat st"
  | (failed) "crash = None" "is_stat st' = IncrError (is_stat st)" "ErrCode (is_resp st') = CODE_INVOCATION_TARGET"
  | (finished) "crash = None" "is_stat st' = IncrProc (is_stat st)" "ErrCode (is_resp st') = CODE_SERVER_SUCC"
  | (twice) c v0 v1 vs w where "crash = Some c" "is_stat st' = IncrProc (is_stat st)"
      "Method m ps (is_world st) = (Ret (v0 # v1 # vs), w)" "\<not> rv_nilable v1"
proof (cases "invoke m ps (is_world st)")
  case (Pair res w)
  show thesis
  proof (cases res)
    case (Panic c)
    show thesis
      by (rule crashed [of c]) (use assms Pair Panic in \<open>auto simp: call_method_def\<close>)
  next
    case (Ret work)
    have meth: "Method m ps (is_world st) = (Ret (ir_values work), w)"
      using Pair Ret invoke_Ret by blast
    show thesis
    proof (cases "ir_err work")
      case (Some e)
      show thesis
        by (rule failed) (use assms Pair Ret Some in \<open>auto simp: call_method_def Let_def\<close>)
    next
      case None
      show thesis
      proof (cases "ir_values work")
        case Nil
        show thesis
          by (rule failed) (use assms Pair Ret None Nil in \<open>auto simp: call_method_def Let_def\<close>)
      next
        case (Cons v0 rest)
        show thesis
        proof (cases rest)
          case Nil
          show thesis
            by (rule finished) (use assms Pair Ret None Cons Nil in \<open>auto simp: call_method_def Let_def\<close>)
        next
          case (Cons v1 vs)
          note vals = \<open>ir_values work = v0 # rest\<close> Cons
          show thesis
          proof (cases "rv_nilable v1")
            case True
            show thesis
              by (rule finished)
                 (use assms Pair Ret None vals True in \<open>auto simp: call_method_def Let_def IsNil_def split: bool.splits\<close>)
          next
            case False
            show thesis
              by (rule twice [of "isnil_panic v1" v0 v1 vs w])
                 (use assms Pair Ret None vals False meth in \<open>auto simp: call_method_def Let_def IsNil_def\<close>)
          qed
        qed
      qed
    qed
  qed
qed

lemma call_method_frame:
  "call_method m ps st = (st', crash) \<Longrightarrow>
   is_instances st' = is_instances st \<and> is_world st' = snd (Method m ps (is_world st))"
  using invoke_world [of m ps "is_world st"]
  by (auto simp: call_method_def Let_def split: prod.splits go.splits option.splits list.splits bool.splits)

section \<open>Invoke\<close>

text \<open>The body and the recovery, after the prologue has chosen the context.\<close>

definition run_body :: "('v, 'w) InvocationHandler \<Rightarrow> ctx \<Rightarrow> MoaRawReqPacket \<Rightarrow> 'w world \<Rightarrow> ('v, 'w) inv_state" where
  "run_body h c req w =
     (case Invoke_body c req \<lparr>is_instances = instances h, is_stat = IncrRecv (moaStat h), is_resp = zero_resp, is_world = w\<rparr>
      of (st, crash) \<Rightarrow> recover_crash crash st)"

lemma Invoke_Ret:
  assumes "start_span T c req (heap w) = (Ret (tracing, c', spans), hp)"
  shows "Invoke T cost h c req w =
    (let st = run_body h c' req (w\<lparr>heap := hp\<rparr>); late = i64_ge cost (rq_Timeout req) in
     (Ret \<lparr>io_handler = \<lparr>instances = is_instances st, moaStat = ObserveCost (rq_Method req) cost (is_stat st)\<rparr>,
           io_callback = (if late then None else Some (is_resp st)),
           io_spans = spans @ (if \<not> late \<and> tracing then resp_tags (is_resp st) else []) @ (if tracing then [Finish] else [])\<rparr>,
      is_world st))"
  using assms by (simp add: Invoke_def run_body_def Let_def split: prod.split)

lemma InvokeE:
  assumes "Invoke T cost h c req w = (Ret out, w')"
  obtains tracing c' spans hp where "start_span T c req (heap w) = (Ret (tracing, c', spans), hp)"
    and "instances (io_handler out) = is_instances (run_body h c' req (w\<lparr>heap := hp\<rparr>))"
    and "\<And>k. stat_flow (moaStat (io_handler out)) k = stat_flow (is_stat (run_body h c' req (w\<lparr>heap := hp\<rparr>))) k"
    and "io_callback out = (if i64_ge cost (rq_Timeout req) then None
           else Some (is_resp (run_body h c' req (w\<lparr>heap := hp\<rparr>))))"
    and "w' = is_world (run_body h c' req (w\<lparr>heap := hp\<rparr>))"
proof (cases "start_span T c req (heap w)")
  case (Pair res hp)
  show thesis
  proof (cases res)
    case (Panic e)
    then show thesis using assms Pair by (simp add: Invoke_def)
  next
    case (Ret x)
    obtain tracing c' spans where x: "x = (tracing, c', spans)" by (cases x)
    have s: "start_span T c req (heap w) = (Ret (tracing, c', spans), hp)" using Pair Ret x by simp
    show thesis
      by (rule that [OF s]) (use assms Invoke_Ret [OF s, of cost h] in \<open>auto simp: Let_def\<close>)
  qed
qed

lemma run_body_cases:
  obtains (refused) code where "is_stat (run_body h c req w) = IncrError (IncrRecv (moaStat h))"
      "is_world (run_body h c req w) = w" "ErrCode (is_resp (run_body h c req w)) = code"
      "code \<in> {CODE_SERVICE_NOT_FOUND, CODE_METHOD_NOT_FOUND, CODE_SERIALIZATION, CODE_SERIALIZATION_SERVER, CODE_INVOCATION_TARGET}"
      "\<And>m ps. dispatch c (instances h) req \<noteq> Call m ps"
  | (called) m ps where "dispatch c (instances h) req = Call m ps"
      "run_body h c req w =
         (case call_method m ps \<lparr>is_instances = counted (instances h) req, is_stat = IncrRecv (moaStat h),
             is_resp = zero_resp, is_world = w\<rparr> of (st, crash) \<Rightarrow> recover_crash crash st)"
proof (cases "dispatch c (instances h) req")
  case (Call m ps)
  show thesis
    by (rule called [OF Call]) (simp add: run_body_def Invoke_body_dispatch Call)
next
  case NoService
  show thesis
    by (rule refused [of CODE_SERVICE_NOT_FOUND]) (simp_all add: run_body_def Invoke_body_dispatch NoService)
next
  case NoMethod
  show thesis
    by (rule refused [of CODE_METHOD_NOT_FOUND]) (simp_all add: run_body_def Invoke_body_dispatch NoMethod)
next
  case NoCounters
  show thesis
    by (rule refused [of CODE_INVOCATION_TARGET]) (simp_all add: run_body_def Invoke_body_dispatch NoCounters)
next
  case (BadArity n k)
  show thesis
    by (rule refused [of CODE_SERIALIZATION]) (simp_all add: run_body_def Invoke_body_dispatch BadArity)
next
  case (BadArgument e)
  show thesis
    by (rule refused [of CODE_SERIALIZATION_SERVER]) (simp_all add: run_body_def Invoke_body_dispatch BadArgument)
qed

lemma run_body_instances: "is_instances (run_body h c req w) = counted (instances h) req"
  by (auto simp: run_body_def Invoke_body_dispatch Let_def recover_crash_def
      split: verdict.splits prod.splits option.splits dest: call_method_frame)

section \<open>The counters of a handler\<close>

text \<open>A key is a service, a client and a method name; it is live when the service has its table.\<close>

definition bump_instances :: "string \<times> string \<times> string \<Rightarrow> (string, ('v, 'w) Service) gomap \<Rightarrow> (string, ('v, 'w) Service) gomap" where
  "bump_instances k inst =
     (case k of (uri, src, name) \<Rightarrow>
        (case map_of inst uri of None \<Rightarrow> inst
         | Some s \<Rightarrow> (case InvokesPerClient s of None \<Rightarrow> inst
             | Some calls \<Rightarrow> set_invokes uri (count_invoke src name calls) inst)))"

definition handler_flow :: "(string, ('v, 'w) Service) gomap \<Rightarrow> string \<times> string \<times> string \<Rightarrow> flow" where
  "handler_flow inst k =
     (case map_of inst (fst k) of None \<Rightarrow> []
      | Some s \<Rightarrow> (case InvokesPerClient s of None \<Rightarrow> [] | Some calls \<Rightarrow> counter_at calls (snd k)))"

definition handler_live :: "(string, ('v, 'w) Service) gomap \<Rightarrow> string \<times> string \<times> string \<Rightarrow> bool" where
  "handler_live inst k \<longleftrightarrow> (\<exists>s. map_of inst (fst k) = Some s \<and> InvokesPerClient s \<noteq> None)"

interpretation handler_counter: call_counter bump_instances handler_flow handler_live
proof
  fix inst :: "(string, ('v, 'w) Service) gomap" and k k'
  assume "handler_live inst k"
  then show "handler_flow (bump_instances k inst) k' =
      (if k = k' then handler_flow inst k @ [Incr 1] else handler_flow inst k')"
    by (cases k; cases k')
       (auto simp: handler_live_def handler_flow_def bump_instances_def set_invokes_def map_simps
          counter_at_count_invoke split: option.splits)
next
  fix inst :: "(string, ('v, 'w) Service) gomap" and k k'
  show "handler_live (bump_instances k inst) k' = handler_live inst k'"
    by (cases k; cases k')
       (auto simp: handler_live_def bump_instances_def set_invokes_def map_simps split: option.splits)
qed

text \<open>The key a request counts under, if any: its method was found in a service with a table.\<close>

definition count_key :: "(string, ('v, 'w) Service) gomap \<Rightarrow> MoaRawReqPacket \<Rightarrow> (string \<times> string \<times> string) option" where
  "count_key inst req =
     (case map_of inst (rq_ServiceUri req) of None \<Rightarrow> None
      | Some s \<Rightarrow>
     (case (map_of (methods s) (ToLower (rq_Method req)), InvokesPerClient s) of
        (Some m, Some calls) \<Rightarrow> Some (rq_ServiceUri req, rq_Source req, Name m)
      | _ \<Rightarrow> None))"

lemma counted_bump:
  "counted inst req = (case count_key inst req of None \<Rightarrow> inst | Some k \<Rightarrow> bump_instances k inst)"
  by (auto simp: counted_def count_key_def bump_instances_def split: option.splits)

lemma count_key_live: "count_key inst req = Some k \<Longrightarrow> handler_live inst k"
  by (auto simp: count_key_def handler_live_def split: option.splits)

lemma count_key_bump [simp]: "count_key (bump_instances k inst) req = count_key inst req"
  by (cases k) (auto simp: count_key_def bump_instances_def set_invokes_def map_simps split: option.splits)

lemma count_key_counted [simp]: "count_key (counted inst req) req' = count_key inst req'"
  by (simp add: counted_bump split: option.split)

end
