(* ===== verification/Moa_Proxy_Props.thy ===== *)
theory Moa_Proxy_Props
  imports Moa_Proxy_Laws
begin

text \<open>
  The properties of the invocation handler, each with a witness on a small handler: one service
  with a method that takes a context and a string, and a method that only returns an error.
\<close>

section \<open>A concrete handler\<close>

definition str_type :: "string rtype" where
  "str_type = \<lparr>rt_String = ''string'', rt_context = False, rt_error = False,
     rt_decode = (\<lambda>j. case j of JStr s \<Rightarrow> Inr s | _ \<Rightarrow> Inl ''not a string'')\<rparr>"

definition ctx_type :: "string rtype" where
  "ctx_type = \<lparr>rt_String = ''context.Context'', rt_context = True, rt_error = False, rt_decode = (\<lambda>_. Inl '''')\<rparr>"

definition err_type :: "string rtype" where
  "err_type = \<lparr>rt_String = ''error'', rt_context = False, rt_error = True, rt_decode = (\<lambda>_. Inl '''')\<rparr>"

definition str_value :: "string \<Rightarrow> string rvalue" where
  "str_value s = \<lparr>rv_data = s, rv_kind = ''string'', rv_nilable = False, rv_isnil = False, rv_text = s, rv_json = Inr (JStr s)\<rparr>"

definition err_value :: "string option \<Rightarrow> string rvalue" where
  "err_value e = \<lparr>rv_data = '''', rv_kind = ''interface'', rv_nilable = True, rv_isnil = (e = None),
     rv_text = (case e of None \<Rightarrow> ''<nil>'' | Some t \<Rightarrow> t), rv_json = Inr JNull\<rparr>"

text \<open>The instance echoes its string argument and counts its calls in the world.\<close>

definition demo_method :: "string \<Rightarrow> (string, nat) gofunc" where
  "demo_method name args w =
     (let w' = w\<lparr>user := Suc (user w)\<rparr> in
      if name = ''Echo'' then
        (case args of [ArgCtx c, ArgVal s] \<Rightarrow> (Ret [str_value s, err_value None], w') | _ \<Rightarrow> (Panic ''args'', w'))
      else (Ret [err_value (Some ''down'')], w'))"

definition demo_service :: "(string, nat) Service" where
  "demo_service = \<lparr>ServiceUri = ''/service/lookup'', GroupId = ''*'', IsPre = False,
     Interface = (''IHello'', [\<lparr>rm_Name = ''Echo'', rm_In = [ctx_type, str_type], rm_Out = [str_type, err_type]\<rparr>,
                               \<lparr>rm_Name = ''Ping'', rm_In = [], rm_Out = [err_type]\<rparr>]),
     Instance = \<lparr>in_String = ''Demo'', in_implements = True, in_MethodByName = demo_method\<rparr>,
     methods = [], InvokesPerClient = None\<rparr>"

definition demo_handler :: "(string, nat) InvocationHandler" where
  "demo_handler = \<lparr>instances = [(''/service/lookup'',
      demo_service\<lparr>methods :=
        [(''echo'', \<lparr>Name = ''Echo'', Method = demo_method ''Echo'', ReturnType = [str_type, err_type], ParamTypes = [ctx_type, str_type]\<rparr>),
         (''ping'', \<lparr>Name = ''Ping'', Method = demo_method ''Ping'', ReturnType = [err_type], ParamTypes = []\<rparr>)],
        InvokesPerClient := Some []\<rparr>)],
     moaStat = fst (NewMoaStat ''host'' ''/service/lookup'')\<rparr>"

definition no_tracer :: "unit tracer" where
  "no_tracer = \<lparr>Extract = (\<lambda>_. None), Inject = (\<lambda>_. []), StartSpan = (\<lambda>_ _. ())\<rparr>"

definition demo_req :: "string \<Rightarrow> json list \<Rightarrow> MoaRawReqPacket" where
  "demo_req m args = zero_raw_req\<lparr>rq_ServiceUri := ''/service/lookup'', rq_Method := m, rq_Args := Some args,
     rq_Timeout := 5000000000, rq_Source := ''10.0.0.1:9''\<rparr>"

definition demo_world :: "nat world" where
  "demo_world = \<lparr>heap = empty_heap, user = 0\<rparr>"

lemmas demo_defs = demo_handler_def demo_service_def demo_req_def demo_world_def zero_raw_req_def
  str_type_def ctx_type_def err_type_def

lemma lower_eval: "ToLower ''Echo'' = ''echo''" "ToLower ''ECHO'' = ''echo''" "ToLower ''echo'' = ''echo''"
  "ToLower ''Ping'' = ''ping''" "ToLower ''ping'' = ''ping''" "ToLower ''none'' = ''none''"
  by (simp_all add: ToLower_def lower_char_def less_eq_char_def char_of_def bit_simps)

lemma demo_NewInvocationHandler:
  "NewInvocationHandler [demo_service] (fst (NewMoaStat ''host'' ''/service/lookup'')) = Ret demo_handler"
  by (simp add: NewInvocationHandler_def reflect_service_def method_meta_def demo_defs lower_eval)

lemma demo_start: "start_span no_tracer c req h = (Ret (False, c, []), h)"
  by (auto simp: start_span_def GetSpanCtx_def no_tracer_def split: option.split ctx_val.split)

lemma demo_dispatch:
  "dispatch c (instances demo_handler) (demo_req ''ECHO'' [JStr ''hi'']) =
     Call \<lparr>Name = ''Echo'', Method = demo_method ''Echo'', ReturnType = [str_type, err_type], ParamTypes = [ctx_type, str_type]\<rparr>
       [ArgCtx c, ArgVal ''hi'']"
  "dispatch c (instances demo_handler) (demo_req ''none'' []) = NoMethod"
  "dispatch c (instances demo_handler) (demo_req ''echo'' []) = BadArity 0 2"
  by (simp_all add: dispatch_def demo_defs lower_eval value_params_def ctx_params_def args_of_def)

lemma demo_Invoke: "\<exists>out w'. Invoke no_tracer cost h c req w = (Ret out, w')"
  by (simp add: Invoke_Ret [OF demo_start] Let_def)

section \<open>Totality\<close>

lemma Invoke_total:
  fixes h :: "('v, 'w) InvocationHandler"
  assumes "Extract T [] = None"
  shows "\<exists>out w'. Invoke T cost h c req w = (Ret out, w')"
proof -
  have "\<exists>x hp. start_span T c req (heap w) = (Ret x, hp)"
    using assms
    by (auto simp: start_span_def GetSpanCtx_def WithSpanCtx_def Let_def
        split: option.splits ctx_val.splits prod.splits)
  then obtain x hp where "start_span T c req (heap w) = (Ret x, hp)" by blast
  then show ?thesis by (cases x) (simp add: Invoke_Ret Let_def)
qed

text \<open>
  An invocation always returns to its caller, whatever the request, the service's methods and
  their panics, provided the tracer finds no span context in an empty carrier (the documented
  behaviour of \<^verbatim>\<open>Extract\<close>): the only writes outside the deferred recovery, into the context's
  property map, then never meet a nil map.
\<close>

theorem Invoke_returns:
  fixes h :: "('v, 'w) InvocationHandler"
  assumes "Extract T [] = None"
  shows "\<exists>out w'. Invoke T cost h c req w = (Ret out, w')"
  by (rule Invoke_total [OF assms])

theorem Invoke_returns_witness:
  "Extract no_tracer [] = None \<and>
   (\<exists>out w'. Invoke no_tracer 7 demo_handler [] (demo_req ''ECHO'' [JStr ''hi'']) demo_world = (Ret out, w'))"
proof -
  have h: "Extract no_tracer [] = None" by (simp add: no_tracer_def)
  show ?thesis using h Invoke_returns [OF h] by blast
qed

section \<open>Accounting\<close>

lemma Invoke_flows:
  fixes h :: "('v, 'w) InvocationHandler"
  assumes inv: "Invoke T cost h c req w = (Ret out, w')"
  shows "\<exists>p e. stat_flow (moaStat (io_handler out)) KRecv = stat_flow (moaStat h) KRecv @ [Incr 1]
    \<and> stat_flow (moaStat (io_handler out)) KTimeout = stat_flow (moaStat h) KTimeout
    \<and> stat_flow (moaStat (io_handler out)) KProc = stat_flow (moaStat h) KProc @ replicate p (Incr 1)
    \<and> stat_flow (moaStat (io_handler out)) KError = stat_flow (moaStat h) KError @ replicate e (Incr 1)
    \<and> (p + e = 1 \<or> p = 1 \<and> e = 1 \<and>
         (\<exists>m c' ps w1 v0 v1 vs w2. dispatch c' (instances h) req = Call m ps
            \<and> Method m ps w1 = (Ret (v0 # v1 # vs), w2) \<and> \<not> rv_nilable v1))"
proof -
  obtain c' hp where st: "\<And>k. stat_flow (moaStat (io_handler out)) k
      = stat_flow (is_stat (run_body h c' req (w\<lparr>heap := hp\<rparr>))) k"
    using InvokeE [OF inv] by metis
  let ?w = "w\<lparr>heap := hp\<rparr>"
  show ?thesis
  proof (cases rule: run_body_cases [of h c' req ?w])
    case (refused code)
    show ?thesis
      by (rule exI [of _ 0], rule exI [of _ 1]) (simp add: st refused(1))
  next
    case (called m ps)
    let ?st = "\<lparr>is_instances = counted (instances h) req, is_stat = IncrRecv (moaStat h), is_resp = zero_resp, is_world = ?w\<rparr>"
    obtain st1 crash where c1: "call_method m ps ?st = (st1, crash)" by (cases "call_method m ps ?st")
    with called have rb: "run_body h c' req ?w = recover_crash crash st1" by simp
    from c1 show ?thesis
    proof (cases rule: call_method_cases)
      case (crashed e)
      show ?thesis
        by (rule exI [of _ 0], rule exI [of _ 1]) (simp add: st rb crashed)
    next
      case failed
      show ?thesis
        by (rule exI [of _ 0], rule exI [of _ 1]) (simp add: st rb failed)
    next
      case finished
      show ?thesis
        by (rule exI [of _ 1], rule exI [of _ 0]) (simp add: st rb finished)
    next
      case (twice e v0 v1 vs w2)
      have "Method m ps ?w = (Ret (v0 # v1 # vs), w2)" using twice(3) by simp
      with twice(4) called(1) have ex: "\<exists>m c' ps w1 v0 v1 vs w2. dispatch c' (instances h) req = Call m ps
          \<and> Method m ps w1 = (Ret (v0 # v1 # vs), w2) \<and> \<not> rv_nilable v1" by blast
      show ?thesis
        by (rule exI [of _ 1], rule exI [of _ 1]) (use ex in \<open>simp add: st rb twice(1,2)\<close>)
    qed
  qed
qed

text \<open>
  C4: The statistics of one invocation. It is received exactly once and never counted as a
  timeout; it is counted as processed or as failed, and both only in one case: the method returned
  two values and the second is of a kind on which \<^verbatim>\<open>IsNil\<close> panics, so that the recovery counts an
  error after the success was counted.
\<close>

theorem Invoke_accounting:
  fixes h :: "('v, 'w) InvocationHandler"
  assumes inv: "Invoke T cost h c req w = (Ret out, w')"
  shows "\<exists>p e. stat_flow (moaStat (io_handler out)) KRecv = stat_flow (moaStat h) KRecv @ [Incr 1]
    \<and> stat_flow (moaStat (io_handler out)) KTimeout = stat_flow (moaStat h) KTimeout
    \<and> stat_flow (moaStat (io_handler out)) KProc = stat_flow (moaStat h) KProc @ replicate p (Incr 1)
    \<and> stat_flow (moaStat (io_handler out)) KError = stat_flow (moaStat h) KError @ replicate e (Incr 1)
    \<and> (p + e = 1 \<or> p = 1 \<and> e = 1 \<and>
         (\<exists>m c' ps w1 v0 v1 vs w2. dispatch c' (instances h) req = Call m ps
            \<and> Method m ps w1 = (Ret (v0 # v1 # vs), w2) \<and> \<not> rv_nilable v1))"
  by (rule Invoke_flows [OF inv])

theorem Invoke_accounting_witness:
  "\<exists>out w'. Invoke no_tracer 7 demo_handler [] (demo_req ''ECHO'' [JStr ''hi'']) demo_world = (Ret out, w')
    \<and> stat_flow (moaStat (io_handler out)) KRecv = stat_flow (moaStat demo_handler) KRecv @ [Incr 1]"
proof -
  obtain out w' where i: "Invoke no_tracer 7 demo_handler [] (demo_req ''ECHO'' [JStr ''hi'']) demo_world = (Ret out, w')"
    using demo_Invoke by blast
  show ?thesis using i Invoke_accounting [OF i] by blast
qed

section \<open>Responses\<close>

lemma Invoke_answer:
  fixes h :: "('v, 'w) InvocationHandler"
  assumes inv: "Invoke T cost h c req w = (Ret out, w')"
  shows "\<exists>r. io_callback out = (if sint (rq_Timeout req) \<le> sint cost then None else Some r)
    \<and> ErrCode r \<in> {200, 302, 501, 502, 503, 3021}
    \<and> (ErrCode r = 200 \<longleftrightarrow> stat_flow (moaStat (io_handler out)) KError = stat_flow (moaStat h) KError)"
proof -
  obtain c' hp where st: "\<And>k. stat_flow (moaStat (io_handler out)) k
      = stat_flow (is_stat (run_body h c' req (w\<lparr>heap := hp\<rparr>))) k"
    and cb: "io_callback out = (if i64_ge cost (rq_Timeout req) then None
           else Some (is_resp (run_body h c' req (w\<lparr>heap := hp\<rparr>))))"
    using InvokeE [OF inv] by metis
  let ?w = "w\<lparr>heap := hp\<rparr>"
  have "ErrCode (is_resp (run_body h c' req ?w)) \<in> {200, 302, 501, 502, 503, 3021}
    \<and> (ErrCode (is_resp (run_body h c' req ?w)) = 200
        \<longleftrightarrow> stat_flow (moaStat (io_handler out)) KError = stat_flow (moaStat h) KError)"
  proof (cases rule: run_body_cases [of h c' req ?w])
    case (refused code)
    show ?thesis using refused(3,4) by (auto simp: st refused(1) code_defs)
  next
    case (called m ps)
    let ?st = "\<lparr>is_instances = counted (instances h) req, is_stat = IncrRecv (moaStat h), is_resp = zero_resp, is_world = ?w\<rparr>"
    obtain st1 crash where c1: "call_method m ps ?st = (st1, crash)" by (cases "call_method m ps ?st")
    with called have rb: "run_body h c' req ?w = recover_crash crash st1" by simp
    from c1 show ?thesis
      by (cases rule: call_method_cases) (simp_all add: st rb code_defs)
  qed
  then show ?thesis using cb unfolding i64_ge_def by blast
qed

text \<open>
  C17: The response that reaches the callback always carries one of six codes (never the zero code),
  and it carries 200 exactly when no error was counted for the invocation.
\<close>

theorem Invoke_response_codes:
  fixes h :: "('v, 'w) InvocationHandler"
  assumes inv: "Invoke T cost h c req w = (Ret out, w')" and cb: "io_callback out = Some r"
  shows "ErrCode r \<in> {200, 302, 501, 502, 503, 3021}
    \<and> (ErrCode r = 200 \<longleftrightarrow> stat_flow (moaStat (io_handler out)) KError = stat_flow (moaStat h) KError)"
proof -
  obtain r' where "io_callback out = (if sint (rq_Timeout req) \<le> sint cost then None else Some r')"
    "ErrCode r' \<in> {200, 302, 501, 502, 503, 3021}"
    "ErrCode r' = 200 \<longleftrightarrow> stat_flow (moaStat (io_handler out)) KError = stat_flow (moaStat h) KError"
    using Invoke_answer [OF inv] by blast
  with cb show ?thesis by (auto split: if_splits)
qed

theorem Invoke_response_codes_witness:
  "\<exists>out w' r. Invoke no_tracer 7 demo_handler [] (demo_req ''ECHO'' [JStr ''hi'']) demo_world = (Ret out, w')
    \<and> io_callback out = Some r \<and> ErrCode r \<in> {200, 302, 501, 502, 503, 3021}"
proof -
  obtain out w' where i: "Invoke no_tracer 7 demo_handler [] (demo_req ''ECHO'' [JStr ''hi'']) demo_world = (Ret out, w')"
    using demo_Invoke by blast
  then obtain r where r: "io_callback out = Some r"
    by (auto simp: Invoke_Ret [OF demo_start] Let_def i64_ge_def demo_req_def)
  show ?thesis using i r Invoke_response_codes [OF i r] by blast
qed

text \<open>The code and the message of each refusal, spelled out.\<close>

fun refusal :: "('v, 'w) verdict \<Rightarrow> MoaRawReqPacket \<Rightarrow> (int \<times> string) option" where
  "refusal NoService req = Some (501, ''No uri found: '' @ rq_ServiceUri req)"
| "refusal NoMethod req = Some (502, ''Method not found: '' @ rq_Method req @ ''.'')"
| "refusal NoCounters req = Some (503, ''Invocation target exception: ('' @ nil_deref @ '')'')"
| "refusal (BadArity n k) req =
     Some (302, ''params number is not matched! '' @ dec_int (int n) @ ''/'' @ dec_int (int k))"
| "refusal (BadArgument e) req = Some (3021, ''Serialization exception: '' @ e)"
| "refusal (Call m ps) req = None"

text \<open>
  C8: A request whose service, method, argument count or arguments do not fit never reaches the
  user's code: the world is the one the tracing prologue left, and the response carries the code
  and the message of the first check that failed, with no result.
\<close>

theorem Invoke_refused:
  fixes h :: "('v, 'w) InvocationHandler"
  assumes start: "start_span T c req (heap w) = (Ret (tracing, c', spans), hp)"
    and ref: "refusal (dispatch c' (instances h) req) req = Some (code, msg)"
    and intime: "\<not> i64_ge cost (rq_Timeout req)"
  shows "\<exists>out. Invoke T cost h c req w = (Ret out, w\<lparr>heap := hp\<rparr>)
    \<and> io_callback out = Some \<lparr>ErrCode = code, Message = msg, rp_CreateTime = 0, Result = None\<rparr>"
  using ref intime
  by (cases "dispatch c' (instances h) req")
     (simp_all add: Invoke_Ret [OF start] run_body_def Invoke_body_dispatch Let_def fail_with_def
        zero_resp_def code_defs msg_defs)

theorem Invoke_refused_witness:
  "\<exists>out. Invoke no_tracer 7 demo_handler [] (demo_req ''none'' []) demo_world = (Ret out, demo_world\<lparr>heap := heap demo_world\<rparr>)
    \<and> io_callback out = Some \<lparr>ErrCode = 502, Message = ''Method not found: none.'', rp_CreateTime = 0, Result = None\<rparr>"
proof -
  have r: "refusal (dispatch [] (instances demo_handler) (demo_req ''none'' [])) (demo_req ''none'' [])
      = Some (502, ''Method not found: none.'')"
    by (simp only: demo_dispatch) (simp add: demo_req_def)
  have t: "\<not> i64_ge 7 (rq_Timeout (demo_req ''none'' []))"
    by (simp add: i64_ge_def demo_req_def)
  show ?thesis using Invoke_refused [OF demo_start r t] by blast
qed

text \<open>
  What a call's result is turned into: a crash is 503 with the panic's text; the single error
  result is success when nil and 503 otherwise; of two results the first is the result, with code
  200 even when the second is an error, whose text goes into the message.
\<close>

fun call_response :: "'v rvalue list go \<Rightarrow> 'v MoaRespPacket" where
  "call_response (Panic e) = \<lparr>ErrCode = 503, Message = ''Invocation target exception: ('' @ e @ '')'', rp_CreateTime = 0, Result = None\<rparr>"
| "call_response (Ret [v]) =
     (if rv_isnil v then \<lparr>ErrCode = 200, Message = [], rp_CreateTime = 0, Result = Some v\<rparr>
      else \<lparr>ErrCode = 503, Message = ''Invocation target exception: ('' @ rv_text v @ '')'', rp_CreateTime = 0, Result = None\<rparr>)"
| "call_response (Ret (v # e # _)) =
     \<lparr>ErrCode = 200, Message = (if rv_isnil e then [] else ''Method Invoke Error '' @ rv_text e),
      rp_CreateTime = 0, Result = Some v\<rparr>"
| "call_response (Ret []) = zero_resp"

text \<open>
  C1: A request that passes every check calls its method exactly once, on the decoded arguments
  (after the context, when the method's first parameter takes one), and the response is
  \<open>call_response\<close> of what the method did, for a method that returns as many values as its type
  declares, the last of a kind that can be nil.
\<close>

theorem Invoke_called:
  fixes h :: "('v, 'w) InvocationHandler"
  assumes start: "start_span T c req (heap w) = (Ret (tracing, c', spans), hp)"
    and disp: "dispatch c' (instances h) req = Call m ps"
    and intime: "\<not> i64_ge cost (rq_Timeout req)"
    and run: "Method m ps (w\<lparr>heap := hp\<rparr>) = (res, w1)"
    and typed: "\<And>vs. res = Ret vs \<Longrightarrow> length vs = length (ReturnType m) \<and> vs \<noteq> [] \<and> length vs \<le> 2 \<and> rv_nilable (last vs)"
  shows "\<exists>out. Invoke T cost h c req w = (Ret out, w1) \<and> io_callback out = Some (call_response res)"
proof (cases res)
  case (Panic e)
  with run disp intime show ?thesis
    by (simp add: Invoke_Ret [OF start] run_body_def Invoke_body_dispatch Let_def fail_with_def
        call_method_def invoke_def zero_resp_def code_defs msg_defs)
next
  case (Ret vs)
  note ty = typed [OF Ret]
  consider (one) v where "vs = [v]" | (two) v e where "vs = [v, e]"
    using ty by (cases vs; cases "tl vs") auto
  then show ?thesis
  proof cases
    case one
    with run disp intime Ret ty show ?thesis
      by (simp add: Invoke_Ret [OF start] run_body_def Invoke_body_dispatch Let_def fail_with_def
          call_method_def invoke_def IsNil_def zero_resp_def code_defs msg_defs)
  next
    case two
    with run disp intime Ret ty show ?thesis
      by (cases "rv_isnil e")
         (simp_all add: Invoke_Ret [OF start] run_body_def Invoke_body_dispatch Let_def
          call_method_def invoke_def IsNil_def zero_resp_def code_defs msg_defs)
  qed
qed

theorem Invoke_called_witness:
  "\<exists>out. Invoke no_tracer 7 demo_handler [] (demo_req ''ECHO'' [JStr ''hi'']) demo_world
      = (Ret out, demo_world\<lparr>user := 1\<rparr>)
    \<and> io_callback out = Some \<lparr>ErrCode = 200, Message = [], rp_CreateTime = 0, Result = Some (str_value ''hi'')\<rparr>"
proof -
  have t: "\<not> i64_ge 7 (rq_Timeout (demo_req ''ECHO'' [JStr ''hi'']))"
    by (simp add: i64_ge_def demo_req_def)
  have r: "demo_method ''Echo'' [ArgCtx [], ArgVal ''hi''] (demo_world\<lparr>heap := heap demo_world\<rparr>)
      = (Ret [str_value ''hi'', err_value None], demo_world\<lparr>user := 1\<rparr>)"
    by (simp add: demo_method_def demo_world_def)
  have "\<exists>out. Invoke no_tracer 7 demo_handler [] (demo_req ''ECHO'' [JStr ''hi'']) demo_world
      = (Ret out, demo_world\<lparr>user := 1\<rparr>)
    \<and> io_callback out = Some (call_response (Ret [str_value ''hi'', err_value None]))"
    by (rule Invoke_called [OF demo_start demo_dispatch(1) t]) (use r in \<open>simp_all add: err_value_def\<close>)
  then show ?thesis by (simp add: err_value_def)
qed

text \<open>
  A result that takes as long as the request's timeout or longer is dropped: the callback is
  not called, although the service was called and the statistics are kept; an earlier one is always
  passed on.
\<close>

theorem Invoke_late_dropped:
  fixes h :: "('v, 'w) InvocationHandler"
  assumes "Invoke T cost h c req w = (Ret out, w')" and "Invoke T cost2 h c req w = (Ret out2, w2)"
  shows "(io_callback out = None \<longleftrightarrow> sint (rq_Timeout req) \<le> sint cost) \<and> w' = w2
    \<and> instances (io_handler out) = instances (io_handler out2)"
proof -
  obtain tr c' sp hp where s: "start_span T c req (heap w) = (Ret (tr, c', sp), hp)"
    using assms(1) by (rule InvokeE)
  define st where "st = run_body h c' req (w\<lparr>heap := hp\<rparr>)"
  have one: "w' = is_world st" "instances (io_handler out) = is_instances st"
    "io_callback out = (if i64_ge cost (rq_Timeout req) then None else Some (is_resp st))"
    using assms(1) unfolding Invoke_Ret [OF s] Let_def st_def [symmetric] by auto
  have two: "w2 = is_world st" "instances (io_handler out2) = is_instances st"
    using assms(2) unfolding Invoke_Ret [OF s] Let_def st_def [symmetric] by auto
  show ?thesis using one two by (simp add: i64_ge_def)
qed

theorem Invoke_late_dropped_witness:
  "\<exists>out w'. Invoke no_tracer 5000000000 demo_handler [] (demo_req ''ECHO'' [JStr ''hi'']) demo_world = (Ret out, w')
    \<and> io_callback out = None"
proof -
  obtain out w' where i: "Invoke no_tracer 5000000000 demo_handler [] (demo_req ''ECHO'' [JStr ''hi'']) demo_world = (Ret out, w')"
    using demo_Invoke by blast
  have "sint (rq_Timeout (demo_req ''ECHO'' [JStr ''hi''])) \<le> sint (5000000000 :: i64)"
    by (simp add: demo_req_def)
  then show ?thesis using i Invoke_late_dropped [OF i i] by blast
qed

section \<open>Call counts\<close>

text \<open>Invocations one after the other, each with its cost, context and request.\<close>

fun run_invokes :: "'sp tracer \<Rightarrow> (i64 \<times> ctx \<times> MoaRawReqPacket) list \<Rightarrow> ('v, 'w) InvocationHandler \<Rightarrow> 'w world
    \<Rightarrow> ('v, 'w) InvocationHandler \<times> 'w world" where
  "run_invokes T [] h w = (h, w)"
| "run_invokes T ((cost, c, req) # rest) h w =
     (case Invoke T cost h c req w of
        (Ret out, w') \<Rightarrow> run_invokes T rest (io_handler out) w'
      | (Panic e, w') \<Rightarrow> run_invokes T rest h w')"

lemma Invoke_instances:
  "Invoke T cost h c req w = (Ret out, w') \<Longrightarrow> instances (io_handler out) = counted (instances h) req"
  by (elim InvokeE) (simp add: run_body_instances)

lemma run_invokes_bumps:
  assumes "Extract T [] = None"
  shows "instances (fst (run_invokes T reqs h w))
    = fold bump_instances (List.map_filter (\<lambda>(cost, c, req). count_key (instances h) req) reqs) (instances h)"
proof (induction reqs arbitrary: h w)
  case Nil
  then show ?case by (simp add: map_filter_simps)
next
  case (Cons x xs)
  obtain cost c req where x: "x = (cost, c, req)" by (cases x)
  obtain out w' where i: "Invoke T cost h c req w = (Ret out, w')"
    using Invoke_total [OF assms] by blast
  have inst: "instances (io_handler out) = counted (instances h) req" by (rule Invoke_instances [OF i])
  show ?case
    using Cons.IH [of "io_handler out" w'] by (simp add: x i inst map_filter_simps counted_bump split: option.split)
qed

text \<open>
  C27: After any sequence of invocations the counter of a client's method holds one increment more
  for each request of that client that named that method (in any case) of that service, and nothing
  else, whether the request's arguments fitted or not; the requests of others do not count.
\<close>

theorem run_invokes_counts:
  fixes h :: "('v, 'w) InvocationHandler"
  assumes "Extract T [] = None"
  shows "handler_flow (instances (fst (run_invokes T reqs h w))) k
    = handler_flow (instances h) k
      @ replicate (length (filter (\<lambda>(cost, c, req). count_key (instances h) req = Some k) reqs)) (Incr 1)"
proof -
  let ?ks = "List.map_filter (\<lambda>(cost, c, req). count_key (instances h) req) reqs"
  have "\<forall>k \<in> set ?ks. handler_live (instances h) k"
    by (auto simp: List.map_filter_def intro: count_key_live)
  moreover have "count_list ?ks k = length (filter (\<lambda>(cost, c, req). count_key (instances h) req = Some k) reqs)"
    by (induction reqs) (auto simp: map_filter_simps split: option.splits)
  ultimately show ?thesis
    unfolding run_invokes_bumps [OF assms] by (simp add: handler_counter.flow_at_fold)
qed

theorem run_invokes_counts_witness:
  "handler_flow (instances (fst (run_invokes no_tracer
      [(7, [], demo_req ''ECHO'' [JStr ''hi'']), (7, [], demo_req ''none'' []), (7, [], demo_req ''echo'' [])]
      demo_handler demo_world))) (''/service/lookup'', ''10.0.0.1:9'', ''Echo'') = [Incr 1, Incr 1]"
proof -
  have h: "Extract no_tracer [] = None" by (simp add: no_tracer_def)
  show ?thesis
    unfolding run_invokes_counts [OF h]
    by (simp add: handler_flow_def counter_at_def count_key_def demo_defs lower_eval numeral_2_eq_2)
qed

text \<open>What the listing says about a client's method.\<close>

definition reported :: "InvokePerClient list \<Rightarrow> string \<Rightarrow> string \<Rightarrow> int option" where
  "reported l client name =
     (case find (\<lambda>i. ipc_Client i = client) l of None \<Rightarrow> None
      | Some i \<Rightarrow> map_option me_Count (find (\<lambda>m. me_Name m = name) (ipc_Methods i)))"

lemma find_map_pair:
  "find (\<lambda>i. f i = k) (map (\<lambda>(x, y). g x y) m)
     = map_option (\<lambda>y. g k y) (map_of m k)" if "\<And>x y. f (g x y) = x"
  using that by (induction m) auto

text \<open>
  C30: The listing of a service reports, for every client and every method it has called, the count
  of exactly that counter, and nothing for others; for a service that is not published the listing
  is empty, and the only panic is that of a service whose call table was never made.
\<close>

theorem ListInvokes_reports:
  fixes h :: "('v, 'w) InvocationHandler"
  shows "(case map_of (instances h) uri of
      None \<Rightarrow> ListInvokes cnt h uri = Ret []
    | Some s \<Rightarrow>
        (case InvokesPerClient s of
           None \<Rightarrow> ListInvokes cnt h uri = Panic nil_deref
         | Some m \<Rightarrow> \<exists>l. ListInvokes cnt h uri = Ret l
             \<and> (\<forall>i \<in> set l. ipc_ServiceName i = ServiceUri s)
             \<and> (\<forall>client name. reported l client name =
                   (case map_of m client of None \<Rightarrow> None
                    | Some fl \<Rightarrow> map_option cnt (map_of fl name)))))"
proof (cases "map_of (instances h) uri")
  case None
  then show ?thesis by (simp add: ListInvokes_def)
next
  case (Some s)
  show ?thesis
  proof (cases "InvokesPerClient s")
    case None
    with Some show ?thesis by (simp add: ListInvokes_def)
  next
    case (Some m)
    let ?l = "map (list_client cnt s) m"
    have "ListInvokes cnt h uri = Ret ?l"
      using \<open>map_of (instances h) uri = Some s\<close> Some by (simp add: ListInvokes_def)
    moreover have "\<forall>i \<in> set ?l. ipc_ServiceName i = ServiceUri s" by (auto simp: list_client_def)
    moreover have "reported ?l client name =
        (case map_of m client of None \<Rightarrow> None | Some fl \<Rightarrow> map_option cnt (map_of fl name))" for client name
      by (auto simp: reported_def list_client_def find_map_pair option.map_comp o_def split: option.split)
    ultimately show ?thesis using \<open>map_of (instances h) uri = Some s\<close> Some by auto
  qed
qed

theorem ListInvokes_reports_witness:
  "\<exists>l. ListInvokes (\<lambda>fl. int (length fl)) (demo_handler\<lparr>instances := [(''/a'', demo_service\<lparr>InvokesPerClient := Some [(''c'', [(''Echo'', [Incr 1])])]\<rparr>)]\<rparr>) ''/a'' = Ret l
    \<and> reported l ''c'' ''Echo'' = Some 1 \<and> reported l ''c'' ''Ping'' = None"
  using ListInvokes_reports [of "\<lambda>fl. int (length fl)" "demo_handler\<lparr>instances := [(''/a'', demo_service\<lparr>InvokesPerClient := Some [(''c'', [(''Echo'', [Incr 1])])]\<rparr>)]\<rparr>"
      "''/a''"] by auto

section \<open>Registration of services\<close>

text \<open>
  C29: Building the handler succeeds exactly when every service's instance implements its interface
  and every interface method returns one or two values, the last an error; otherwise it panics. A
  handler that was built is well formed: services under their own URI, methods under the lower-case
  name, a call table wherever there are methods.
\<close>

theorem NewInvocationHandler_valid:
  fixes services :: "('v, 'w) Service list"
  shows "(panics (NewInvocationHandler services st) \<longleftrightarrow> \<not> list_all valid_service services)
    \<and> (case NewInvocationHandler services st of Panic e \<Rightarrow> True
       | Ret h \<Rightarrow> wf_instances (instances h) \<and> moaStat h = st)"
proof -
  have "wf_instances ([] :: (string, ('v, 'w) Service) gomap)" by (simp add: wf_instances_def)
  then show ?thesis
    using service_loop_Ret [of services "[]"] service_loop_wf [of services "[]"]
    by (cases "service_loop services []") (auto simp: NewInvocationHandler_def)
qed

lemma NewInvocationHandler_loop: "NewInvocationHandler ss st = Ret h \<Longrightarrow> service_loop ss [] = Ret (instances h)"
  by (auto simp: NewInvocationHandler_def bind_go_Ret_iff)

lemma service_loop_other:
  "service_loop ss inst = Ret inst' \<Longrightarrow> \<forall>s \<in> set ss. ServiceUri s \<noteq> uri \<Longrightarrow> map_of inst' uri = map_of inst uri"
proof (induction ss arbitrary: inst)
  case Nil
  then show ?case by simp
next
  case (Cons s ss)
  then obtain s' where s': "reflect_service s = Ret s'"
    "service_loop ss (AList.update (ServiceUri s') s' inst) = Ret inst'"
    by (auto simp: bind_go_Ret_iff)
  with Cons reflect_service_wf [OF s'(1)] show ?case by (simp add: map_simps)
qed

lemma service_loop_last:
  assumes "service_loop (xs @ s # ys) inst = Ret inst'" "\<forall>y \<in> set ys. ServiceUri y \<noteq> ServiceUri s"
  shows "\<exists>s'. reflect_service s = Ret s' \<and> map_of inst' (ServiceUri s) = Some s'"
  using assms(1)
proof (induction xs arbitrary: inst)
  case Nil
  then obtain s' where s': "reflect_service s = Ret s'"
    "service_loop ys (AList.update (ServiceUri s') s' inst) = Ret inst'"
    by (auto simp: bind_go_Ret_iff)
  with service_loop_other [OF s'(2) assms(2)] reflect_service_wf [OF s'(1)]
  show ?case by (simp add: map_simps)
next
  case (Cons x xs)
  then show ?case by (auto simp: bind_go_Ret_iff)
qed

text \<open>
  C28: Every interface method of a published service is found under every spelling of its name that
  differs only in the case of letters, unless a later method of the interface has the same
  lower-case name or a later service has the same URI; the request then is dispatched to that
  method of that instance.
\<close>

theorem handler_finds_methods:
  fixes xs ys :: "('v, 'w) Service list"
  assumes new: "NewInvocationHandler (xs @ s # ys) st = Ret h"
    and uri: "\<forall>y \<in> set ys. ServiceUri y \<noteq> ServiceUri s"
    and meth: "snd (Interface s) = ms @ m # ms'"
    and name: "\<forall>x \<in> set ms'. ToLower (rm_Name x) \<noteq> ToLower (rm_Name m)"
    and spelled: "ToLower n = ToLower (rm_Name m)"
  shows "\<exists>s'. map_of (instances h) (ServiceUri s) = Some s' \<and> InvokesPerClient s' = Some []
    \<and> map_of (methods s') (ToLower n) = Some (meta_of s m)"
proof -
  have "service_loop (xs @ s # ys) [] = Ret (instances h)"
    by (rule NewInvocationHandler_loop [OF new])
  from service_loop_last [OF this uri] obtain s' where s': "reflect_service s = Ret s'"
    "map_of (instances h) (ServiceUri s) = Some s'" by blast
  have "map_of (method_table s (snd (Interface s)) []) (ToLower (rm_Name m)) = Some (meta_of s m)"
    by (rule method_table_last [OF meth name])
  with s' spelled meth show ?thesis by (auto simp: reflect_service_Ret)
qed

theorem handler_finds_methods_witness:
  "\<exists>s'. map_of (instances demo_handler) ''/service/lookup'' = Some s' \<and> InvokesPerClient s' = Some []
    \<and> map_of (methods s') (ToLower ''ECHO'') = Some (meta_of demo_service
         \<lparr>rm_Name = ''Echo'', rm_In = [ctx_type, str_type], rm_Out = [str_type, err_type]\<rparr>)"
proof -
  let ?echo = "\<lparr>rm_Name = ''Echo'', rm_In = [ctx_type, str_type], rm_Out = [str_type, err_type]\<rparr>"
  let ?ping = "\<lparr>rm_Name = ''Ping'', rm_In = [], rm_Out = [err_type]\<rparr>"
  have n: "NewInvocationHandler ([] @ demo_service # []) (fst (NewMoaStat ''host'' ''/service/lookup'')) = Ret demo_handler"
    using demo_NewInvocationHandler by simp
  have m: "snd (Interface demo_service) = [] @ ?echo # [?ping]" by (simp add: demo_service_def)
  have p: "ToLower (rm_Name ?ping) \<noteq> ToLower (rm_Name ?echo)" and s: "ToLower ''ECHO'' = ToLower (rm_Name ?echo)"
    by (simp_all add: lower_eval)
  have u: "ServiceUri demo_service = ''/service/lookup''" by (simp add: demo_service_def)
  show ?thesis
    using p handler_finds_methods [OF n _ m _ s] unfolding u by simp
qed

text \<open>
  Invocations keep a handler well formed, and a well-formed handler never dispatches a found
  method into a service without a call table.
\<close>

theorem run_invokes_wf:
  fixes h :: "('v, 'w) InvocationHandler"
  assumes "wf_instances (instances h)"
  shows "wf_instances (instances (fst (run_invokes T reqs h w)))
    \<and> dispatch c (instances (fst (run_invokes T reqs h w))) req \<noteq> NoCounters"
proof -
  have "wf_instances (instances (fst (run_invokes T reqs h w)))"
    using assms
  proof (induction reqs arbitrary: h w)
    case Nil
    then show ?case by simp
  next
    case (Cons x xs)
    obtain cost c req where x: "x = (cost, c, req)" by (cases x)
    obtain res w' where i: "Invoke T cost h c req w = (res, w')" by (cases "Invoke T cost h c req w")
    show ?case
    proof (cases res)
      case (Ret out)
      with i have "instances (io_handler out) = counted (instances h) req" by (simp add: Invoke_instances)
      then show ?thesis using Cons.IH [of "io_handler out" w'] Cons.prems i Ret by (simp add: x counted_wf)
    next
      case (Panic e)
      then show ?thesis using Cons i by (simp add: x)
    qed
  qed
  then show ?thesis using wf_not_NoCounters by blast
qed

theorem run_invokes_wf_witness:
  "wf_instances (instances (fst (run_invokes no_tracer [(7, [], demo_req ''echo'' [])] demo_handler demo_world)))"
proof -
  have "service_loop [demo_service] [] = Ret (instances demo_handler)"
    by (rule NewInvocationHandler_loop [OF demo_NewInvocationHandler])
  moreover have "wf_instances ([] :: (string, (string, nat) Service) gomap)" by (simp add: wf_instances_def)
  ultimately have "wf_instances (instances demo_handler)" by (rule service_loop_wf)
  from run_invokes_wf [OF this] show ?thesis by blast
qed

end
