(* ===== verification/Moa_Table.thy ===== *)
theory Moa_Table
  imports Moa_Prelude
begin

text \<open>
  The contract of a table: a state with a lookup, a write and a removal, usable while it is \<open>live\<close>.
  A sequence of writes and removals on a live table leaves the finite map that the same sequence
  leaves on HOL's maps. Go's built-in map fulfils it, and so do the properties of a context and the
  watcher table of the zookeeper manager.
\<close>

datatype ('k, 'v) table_op = Put 'k 'v | Del 'k

primrec map_op :: "('k, 'v) table_op \<Rightarrow> ('k \<Rightarrow> 'v option) \<Rightarrow> 'k \<Rightarrow> 'v option" where
  "map_op (Put k v) m = m(k \<mapsto> v)"
| "map_op (Del k) m = m(k := None)"

primrec do_op :: "('k \<Rightarrow> 'v \<Rightarrow> 's \<Rightarrow> 's) \<Rightarrow> ('k \<Rightarrow> 's \<Rightarrow> 's) \<Rightarrow> ('k, 'v) table_op \<Rightarrow> 's \<Rightarrow> 's" where
  "do_op put del (Put k v) = put k v"
| "do_op put del (Del k) = del k"

locale table =
  fixes live :: "'s \<Rightarrow> bool"
    and look :: "'s \<Rightarrow> 'k \<Rightarrow> 'v option"
    and put :: "'k \<Rightarrow> 'v \<Rightarrow> 's \<Rightarrow> 's"
    and del :: "'k \<Rightarrow> 's \<Rightarrow> 's"
  assumes live_put: "live s \<Longrightarrow> live (put k v s)"
    and live_del: "live s \<Longrightarrow> live (del k s)"
    and look_put: "live s \<Longrightarrow> look (put k v s) k' = (if k = k' then Some v else look s k')"
    and look_del: "live s \<Longrightarrow> look (del k s) k' = (if k = k' then None else look s k')"
begin

lemma step: "live s \<Longrightarrow> live (do_op put del op s) \<and> look (do_op put del op s) = map_op op (look s)"
  by (cases op) (auto simp: live_put live_del look_put look_del)

lemma steps:
  "live s \<Longrightarrow> live (fold (do_op put del) ops s) \<and> look (fold (do_op put del) ops s) = fold map_op ops (look s)"
proof (induction ops arbitrary: s)
  case (Cons op ops)
  from step [OF Cons.prems, of op] show ?case
    using Cons.IH [of "do_op put del op s"] by simp
qed simp

lemmas steps_live = steps [THEN conjunct1]
lemmas steps_look = steps [THEN conjunct2]

lemma put_put: "live s \<Longrightarrow> look (put k v (put k w s)) = look (put k v s)"
  by (auto simp: look_put live_put)

lemma del_put: "live s \<Longrightarrow> look (del k (put k v s)) = look (del k s)"
  by (auto simp: look_put look_del live_put)

end

interpretation go_map: table "\<lambda>_. True" map_of AList.update AList.delete
  by unfold_locales (simp_all add: map_simps)

end
