(* ===== verification/Moa_Context_Props.thy ===== *)
theory Moa_Context_Props
  imports Moa_Context Moa_Table
begin

text \<open>
  The request properties of a context as a finite map: attaching and detaching refine writing and
  removing, the map is shared by exactly the contexts that refer to it, a nil map can be read but
  not written, and a span context written by the tracer is read back.
\<close>

section \<open>Contexts as tables\<close>

definition ctx_ref :: "ctx \<Rightarrow> nat option" where
  "ctx_ref c = (case ctx_Value c KEY_MOA_PROPERTIES of Some (MapRef r) \<Rightarrow> r | _ \<Rightarrow> None)"

definition props_of :: "ctx \<Rightarrow> ctx_heap \<Rightarrow> string \<Rightarrow> string option" where
  "props_of c h k = (case ctx_ref c of None \<Rightarrow> None | Some r \<Rightarrow> map_of (maps h r) k)"

text \<open>A context that does not hold the nil map.\<close>

definition writable :: "ctx \<Rightarrow> bool" where
  "writable c \<longleftrightarrow> ctx_Value c KEY_MOA_PROPERTIES \<noteq> Some (MapRef None)"

lemma GetMoaProperty_props:
  "GetMoaProperty c k h = (case props_of c h k of None \<Rightarrow> ([], False) | Some v \<Rightarrow> (v, True))"
  by (simp add: GetMoaProperty_def props_of_def ctx_ref_def split: option.split ctx_val.split)

lemma ctx_Value_WithValue [simp]: "ctx_Value (WithValue c k v) k' = (if k = k' then Some v else ctx_Value c k')"
  by (simp add: ctx_Value_def WithValue_def)

lemma ctx_ref_WithValue [simp]: "ctx_ref (WithValue c KEY_MOA_PROPERTIES (MapRef r)) = r"
  by (simp add: ctx_ref_def)

lemma writable_WithValue [simp]: "writable (WithValue c KEY_MOA_PROPERTIES (MapRef (Some r)))"
  by (simp add: writable_def)

lemma Attach_old:
  "ctx_ref c = Some r \<Longrightarrow> AttachMoaProperty c key val h = (Ret c, h\<lparr>maps := (maps h)(r := AList.update key val (maps h r))\<rparr>)"
  by (auto simp: AttachMoaProperty_def ctx_ref_def split: option.splits ctx_val.splits)

lemma Attach_new:
  "ctx_ref c = None \<Longrightarrow> writable c \<Longrightarrow> AttachMoaProperty c key val h =
     (Ret (WithValue c KEY_MOA_PROPERTIES (MapRef (Some (next_ref h)))),
      h\<lparr>maps := (maps h)(next_ref h := AList.update key val []), next_ref := Suc (next_ref h)\<rparr>)"
  by (auto simp: AttachMoaProperty_def ctx_ref_def writable_def new_map_def split: option.splits ctx_val.splits)

lemma Attach_writable:
  "writable c \<Longrightarrow> \<exists>c' h'. AttachMoaProperty c key val h = (Ret c', h') \<and> writable c'
     \<and> props_of c' h' = (props_of c h)(key \<mapsto> val)"
  by (cases "ctx_ref c") (auto simp: Attach_old Attach_new props_of_def fun_eq_iff map_simps)

lemma Attach_panics: "panics (fst (AttachMoaProperty c key val h)) \<longleftrightarrow> \<not> writable c"
  by (auto simp: AttachMoaProperty_def writable_def new_map_def split: option.split ctx_val.split)

lemma Detach_props: "props_of c (DetachMoaProperty c key h) = (props_of c h)(key := None)"
  by (auto simp: DetachMoaProperty_def props_of_def ctx_ref_def fun_eq_iff map_simps split: option.split ctx_val.split)

definition ctx_put :: "string \<Rightarrow> string \<Rightarrow> ctx \<times> ctx_heap \<Rightarrow> ctx \<times> ctx_heap" where
  "ctx_put k v s = (case s of (c, h) \<Rightarrow>
     (case AttachMoaProperty c k v h of (Ret c', h') \<Rightarrow> (c', h') | (Panic e, h') \<Rightarrow> (c, h')))"

definition ctx_del :: "string \<Rightarrow> ctx \<times> ctx_heap \<Rightarrow> ctx \<times> ctx_heap" where
  "ctx_del k s = (case s of (c, h) \<Rightarrow> (c, DetachMoaProperty c k h))"

interpretation ctx_table: table "\<lambda>(c, h). writable c" "\<lambda>(c, h). props_of c h" ctx_put ctx_del
proof unfold_locales
  fix s :: "ctx \<times> ctx_heap" and k v k'
  obtain c h where s: "s = (c, h)" by (cases s)
  assume "case s of (c, h) \<Rightarrow> writable c"
  then have w: "writable c" by (simp add: s)
  from Attach_writable [OF w, of k v h] obtain c' h' where a: "AttachMoaProperty c k v h = (Ret c', h')"
    "writable c'" "props_of c' h' = (props_of c h)(k \<mapsto> v)" by blast
  show "case ctx_put k v s of (c, h) \<Rightarrow> writable c"
    and "(case ctx_put k v s of (c, h) \<Rightarrow> props_of c h) k' = (if k = k' then Some v else (case s of (c, h) \<Rightarrow> props_of c h) k')"
    using a by (simp_all add: ctx_put_def s)
  show "case ctx_del k s of (c, h) \<Rightarrow> writable c"
    and "(case ctx_del k s of (c, h) \<Rightarrow> props_of c h) k' = (if k = k' then None else (case s of (c, h) \<Rightarrow> props_of c h) k')"
    using w by (simp_all add: ctx_del_def s Detach_props)
qed

text \<open>Attaching and detaching one after the other; a panic ends the sequence.\<close>

fun run_props :: "(string, string) table_op list \<Rightarrow> ctx \<Rightarrow> ctx_heap \<Rightarrow> ctx go \<times> ctx_heap" where
  "run_props [] c h = (Ret c, h)"
| "run_props (Put k v # ops) c h =
     (case AttachMoaProperty c k v h of (Ret c', h') \<Rightarrow> run_props ops c' h' | (Panic e, h') \<Rightarrow> (Panic e, h'))"
| "run_props (Del k # ops) c h = run_props ops c (DetachMoaProperty c k h)"

lemma run_props_fold:
  "writable c \<Longrightarrow> run_props ops c h = map_prod Ret id (fold (do_op ctx_put ctx_del) ops (c, h))"
proof (induction ops arbitrary: c h)
  case (Cons op ops)
  then show ?case
  proof (cases op)
    case (Put k v)
    from Attach_writable [OF Cons.prems, of k v h] obtain c' h' where
      "AttachMoaProperty c k v h = (Ret c', h')" "writable c'" by blast
    with Cons.IH [of c' h'] show ?thesis by (simp add: Put ctx_put_def)
  next
    case (Del k)
    with Cons show ?thesis by (simp add: ctx_del_def)
  qed
qed simp

section \<open>Properties\<close>

text \<open>
  C14: A context's properties are a finite map. From a context that does not hold the nil map, any
  sequence of attaching and detaching succeeds, and reading then gives, for every key, what the
  same sequence of writes and removals leaves in the map the context had.
\<close>

theorem properties_refine_map:
  assumes "writable c"
  shows "\<exists>c' h'. run_props ops c h = (Ret c', h')
    \<and> (\<forall>k. GetMoaProperty c' k h' =
          (case fold map_op ops (props_of c h) k of None \<Rightarrow> ([], False) | Some v \<Rightarrow> (v, True)))"
proof -
  obtain c' h' where f: "fold (do_op ctx_put ctx_del) ops (c, h) = (c', h')" by (metis surj_pair)
  have "props_of c' h' = fold map_op ops (props_of c h)"
    using ctx_table.steps_look [of "(c, h)" ops] assms by (simp add: f)
  then show ?thesis
    by (simp add: run_props_fold [OF assms] f GetMoaProperty_props)
qed

theorem properties_refine_map_witness:
  "\<exists>c' h'. run_props [Put ''a'' ''1'', Put ''b'' ''2'', Del ''a'', Put ''b'' ''3''] [] empty_heap = (Ret c', h')
     \<and> GetMoaProperty c' ''a'' h' = ([], False) \<and> GetMoaProperty c' ''b'' h' = (''3'', True)"
proof -
  have "writable []" by (simp add: writable_def ctx_Value_def)
  from properties_refine_map [OF this, of "[Put ''a'' ''1'', Put ''b'' ''2'', Del ''a'', Put ''b'' ''3'']" empty_heap]
  obtain c' h' where r: "run_props [Put ''a'' ''1'', Put ''b'' ''2'', Del ''a'', Put ''b'' ''3''] [] empty_heap = (Ret c', h')"
    and g: "\<And>k. GetMoaProperty c' k h' =
       (case fold map_op [Put ''a'' ''1'', Put ''b'' ''2'', Del ''a'', Put ''b'' ''3''] (props_of [] empty_heap) k of
          None \<Rightarrow> ([], False) | Some v \<Rightarrow> (v, True))" by blast
  show ?thesis by (intro exI conjI, rule r) (simp_all add: g)
qed

text \<open>
  The map is shared. A property attached through one context is seen, without their being
  touched, through exactly the contexts that refer to the same map (a context derived from it, one
  it was derived from, the request itself); every other context reads what it read before, also
  when the attaching made a new map.
\<close>

theorem Attach_seen_by_sharers:
  assumes a: "AttachMoaProperty c key val h = (Ret c', h')"
    and old: "case ctx_ref d of None \<Rightarrow> True | Some r \<Rightarrow> r < next_ref h"
  shows "GetMoaProperty d k h' =
    (if k = key \<and> ctx_ref d \<noteq> None \<and> ctx_ref d = ctx_ref c then (val, True) else GetMoaProperty d k h)"
proof (cases "ctx_ref c")
  case None
  have "writable c" using a Attach_panics [of c key val h] by simp
  with a have "h' = h\<lparr>maps := (maps h)(next_ref h := AList.update key val []), next_ref := Suc (next_ref h)\<rparr>"
    by (simp add: Attach_new None)
  with old None show ?thesis by (auto simp: GetMoaProperty_props props_of_def split: option.split)
next
  case (Some r)
  with a have "h' = h\<lparr>maps := (maps h)(r := AList.update key val (maps h r))\<rparr>" by (simp add: Attach_old)
  with Some show ?thesis
    by (auto simp: GetMoaProperty_props props_of_def map_simps split: option.split)
qed

definition one_map :: ctx_heap where
  "one_map = snd (new_map [(''env'', ''pre'')] empty_heap)"

theorem Attach_seen_by_sharers_witness:
  "\<exists>c' h'. AttachMoaProperty [(''x'', OtherVal), (KEY_MOA_PROPERTIES, MapRef (Some 0))] ''k'' ''v'' one_map = (Ret c', h')
     \<and> GetMoaProperty [(KEY_MOA_PROPERTIES, MapRef (Some 0))] ''k'' h' = (''v'', True)"
proof -
  let ?c = "[(''x'', OtherVal), (KEY_MOA_PROPERTIES, MapRef (Some 0))]"
  let ?d = "[(KEY_MOA_PROPERTIES, MapRef (Some (0 :: nat)))]"
  obtain c' h' where a: "AttachMoaProperty ?c ''k'' ''v'' one_map = (Ret c', h')"
    by (simp add: AttachMoaProperty_def ctx_Value_def KEY_MOA_PROPERTIES_def)
  have r: "ctx_ref ?c = Some 0" "ctx_ref ?d = Some 0"
    by (simp_all add: ctx_ref_def ctx_Value_def KEY_MOA_PROPERTIES_def)
  have "case ctx_ref ?d of None \<Rightarrow> True | Some r \<Rightarrow> r < next_ref one_map"
    by (simp add: r one_map_def new_map_def empty_heap_def)
  from Attach_seen_by_sharers [OF a this, of "''k''"] a show ?thesis by (auto simp: r)
qed

text \<open>
  Attaching panics exactly when the context holds the nil map, which is what the server puts
  into the context of a request that carries no properties; reading from such a context finds
  nothing and detaching from it changes nothing.
\<close>

theorem nil_properties:
  "(panics (fst (AttachMoaProperty c key val h)) \<longleftrightarrow> ctx_Value c KEY_MOA_PROPERTIES = Some (MapRef None))
   \<and> GetMoaProperty (WithValue c KEY_MOA_PROPERTIES (MapRef None)) key h = ([], False)
   \<and> DetachMoaProperty (WithValue c KEY_MOA_PROPERTIES (MapRef None)) key h = h"
  using Attach_panics [of c key val h]
  by (simp add: writable_def GetMoaProperty_def DetachMoaProperty_def)

text \<open>
  The documented law of a tracer: from a carrier into which a span context was injected, whatever
  else it holds, \<^verbatim>\<open>Extract\<close> reads that span context.
\<close>

definition tracer_law :: "'sp tracer \<Rightarrow> bool" where
  "tracer_law T \<longleftrightarrow> (\<forall>sp m. Extract T (set_all (Inject T sp) m) = Some sp)"

lemma set_all_other: "k \<notin> fst ` set kvs \<Longrightarrow> map_of (set_all kvs m) k = map_of m k"
proof (induction kvs arbitrary: m)
  case (Cons p kvs)
  then show ?case by (cases p) (auto simp: set_all_def map_simps)
qed (simp add: set_all_def)

text \<open>
  C36: A span context stored in a context is the one read back from it, under the tracer's law, and
  the context's other properties (those the tracer does not write) are kept.
\<close>

theorem span_round_trip:
  assumes law: "tracer_law T" and w: "WithSpanCtx T c sp h = (Ret c', h')"
  shows "GetSpanCtx T c' h' = Some sp
    \<and> (\<forall>k. k \<notin> fst ` set (Inject T sp) \<longrightarrow> GetMoaProperty c' k h' = GetMoaProperty c k h)"
proof (cases "ctx_ref c")
  case None
  have e: "Extract T [] = Some sp" if "Inject T sp = []"
    using law [unfolded tracer_law_def, rule_format, of sp "[]"] that by (simp add: set_all_def)
  have m: "k \<in> fst ` set (Inject T sp)" if "map_of (set_all (Inject T sp) []) k = Some v" for k v
    using set_all_other [of k "Inject T sp" "[]"] that by (cases "k \<in> fst ` set (Inject T sp)") simp_all
  show ?thesis
    using w law None e unfolding tracer_law_def
    by (auto simp: WithSpanCtx_def GetSpanCtx_def ctx_ref_def new_map_def GetMoaProperty_props props_of_def dest: m
        split: option.splits ctx_val.splits if_splits)
next
  case (Some r)
  then have "c' = WithValue c KEY_MOA_PROPERTIES (MapRef (Some r))"
    "h' = h\<lparr>maps := (maps h)(r := set_all (Inject T sp) (maps h r))\<rparr>"
    using w by (auto simp: WithSpanCtx_def ctx_ref_def new_map_def split: option.splits ctx_val.splits)
  then show ?thesis
    using law Some unfolding tracer_law_def
    by (simp add: GetSpanCtx_def GetMoaProperty_props props_of_def set_all_other)
qed

definition id_tracer :: "string tracer" where
  "id_tracer = \<lparr>Extract = (\<lambda>m. map_of m ''uber-trace-id''), Inject = (\<lambda>sp. [(''uber-trace-id'', sp)]), StartSpan = (\<lambda>_ sp. sp)\<rparr>"

theorem span_round_trip_witness:
  "\<exists>c' h'. WithSpanCtx id_tracer [] ''1:2'' empty_heap = (Ret c', h') \<and> GetSpanCtx id_tracer c' h' = Some ''1:2''"
proof -
  have law: "tracer_law id_tracer" by (simp add: tracer_law_def id_tracer_def set_all_def map_simps)
  obtain c' h' where w: "WithSpanCtx id_tracer [] ''1:2'' empty_heap = (Ret c', h')"
    by (simp add: WithSpanCtx_def ctx_Value_def new_map_def)
  show ?thesis using w span_round_trip [OF law w] by blast
qed

end
