(* ===== verification/Moa_Option_Props.thy ===== *)
theory Moa_Option_Props
  imports Moa_Option
begin

text \<open>
  The properties of the configuration: what loading fills in and within which bounds, what a failed
  read returns, which address the server binds, and what the client's part becomes.
\<close>

section \<open>Defaults\<close>

text \<open>A size that is not positive gets its default; a time is turned from seconds into nanoseconds.\<close>

definition or_default :: "i64 \<Rightarrow> i64 \<Rightarrow> i64" where
  "or_default d x = (if sint x \<le> 0 then d else x)"

lemma or_default_pos: "0 < sint d \<Longrightarrow> 0 < sint (or_default d x)"
  by (simp add: or_default_def)

lemma if_update:
  "(if b then c\<lparr>MaxDispatcherSize := d\<rparr> else c) = c\<lparr>MaxDispatcherSize := if b then d else MaxDispatcherSize c\<rparr>"
  "(if b then c\<lparr>ReadBufferSize := d\<rparr> else c) = c\<lparr>ReadBufferSize := if b then d else ReadBufferSize c\<rparr>"
  "(if b then c\<lparr>WriteBufferSize := d\<rparr> else c) = c\<lparr>WriteBufferSize := if b then d else WriteBufferSize c\<rparr>"
  "(if b then c\<lparr>WriteChannelSize := d\<rparr> else c) = c\<lparr>WriteChannelSize := if b then d else WriteChannelSize c\<rparr>"
  "(if b then c\<lparr>ReadChannelSize := d\<rparr> else c) = c\<lparr>ReadChannelSize := if b then d else ReadChannelSize c\<rparr>"
  "(if b then c\<lparr>IdleTimeout := d\<rparr> else c) = c\<lparr>IdleTimeout := if b then d else IdleTimeout c\<rparr>"
  "(if b then c\<lparr>ProcessTimeout := d\<rparr> else c) = c\<lparr>ProcessTimeout := if b then d else ProcessTimeout c\<rparr>"
  "(if b then c\<lparr>WorkerPoolSize := d\<rparr> else c) = c\<lparr>WorkerPoolSize := if b then d else WorkerPoolSize c\<rparr>"
  "(if b then c\<lparr>FutureSize := d\<rparr> else c) = c\<lparr>FutureSize := if b then d else FutureSize c\<rparr>"
  by simp_all

lemma cluster_defaults_fields:
  "cl_Registry (cluster_defaults c) = cl_Registry c"
  "MaxDispatcherSize (cluster_defaults c) = or_default 8000 (MaxDispatcherSize c)"
  "WorkerPoolSize (cluster_defaults c) = or_default (or_default 8000 (MaxDispatcherSize c)) (WorkerPoolSize c)"
  "ReadBufferSize (cluster_defaults c) = or_default 16384 (ReadBufferSize c)"
  "WriteBufferSize (cluster_defaults c) = or_default 16384 (WriteBufferSize c)"
  "WriteChannelSize (cluster_defaults c) = or_default 1000 (WriteChannelSize c)"
  "ReadChannelSize (cluster_defaults c) = or_default 1000 (ReadChannelSize c)"
  "FutureSize (cluster_defaults c) = (if sint (FutureSize c) \<le> 1000000 then 1000000 else FutureSize c)"
  "IdleTimeout (cluster_defaults c) = or_default 300 (IdleTimeout c) * 1000000000"
  "ProcessTimeout (cluster_defaults c) = or_default 5 (ProcessTimeout c) * 1000000000"
  unfolding cluster_defaults_def if_update by (simp_all add: or_default_def le0_def Let_def)

text \<open>
  The seconds of a timeout, and the nanoseconds they become: a \<^verbatim>\<open>time.Duration\<close> wraps around at 64 bits,
  which it does from \<open>max_seconds\<close> on.
\<close>

definition seconds_or :: "int \<Rightarrow> i64 \<Rightarrow> int" where
  "seconds_or d x = (if sint x \<le> 0 then d else sint x)"

definition max_seconds :: int where "max_seconds = 9223372036"

lemma sint_seconds: "sint (x * 1000000000 :: i64) = signed_take_bit 63 (1000000000 * sint x)"
  unfolding sint_word_ariths by (simp add: mult.commute)

lemma seconds_fit:
  assumes "0 < s" "s \<le> max_seconds"
  shows "signed_take_bit 63 (1000000000 * s) = 1000000000 * s"
proof -
  have "1000000000 * s \<le> 1000000000 * max_seconds" using assms(2) by simp
  then show ?thesis
    using assms(1) by (intro signed_take_bit_int_eq_self) (simp_all add: max_seconds_def)
qed

section \<open>Properties\<close>

text \<open>
  C34: What loading fills in. A configuration that was loaded names its clusters as the file does and
  keeps its server part; in each cluster every field is the file's where that is positive, and
  otherwise 8000 for the dispatcher, the dispatcher's size for the worker pool, 16384 bytes for the
  buffers, 1000 for the channels; the future size is at least a million. The timeouts are the file's
  seconds, 300 and 5 by default, in nanoseconds, modulo 64 bits: exactly so up to \<open>max_seconds\<close>. The
  slow log is on unless the file turns it off. (The comments on the fields promise 50 for the
  dispatcher and 100 for the pool.)
\<close>

theorem loaded_defaults:
  assumes load: "LoadConfiguration open_file read_all toml path = (op, None)"
    and raw: "open_file path = None" "read_all path = Inr buff" "toml buff = Inr file"
    and c: "map_of (op_Clusters file) name = Some c"
  shows "\<exists>d. map fst (op_Clusters op) = map fst (op_Clusters file) \<and> op_Server op = op_Server file
    \<and> map_of (op_Clusters op) name = Some d
    \<and> cl_Registry d = cl_Registry c
    \<and> MaxDispatcherSize d = or_default 8000 (MaxDispatcherSize c)
    \<and> WorkerPoolSize d = or_default (MaxDispatcherSize d) (WorkerPoolSize c)
    \<and> ReadBufferSize d = or_default 16384 (ReadBufferSize c) \<and> WriteBufferSize d = or_default 16384 (WriteBufferSize c)
    \<and> WriteChannelSize d = or_default 1000 (WriteChannelSize c) \<and> ReadChannelSize d = or_default 1000 (ReadChannelSize c)
    \<and> sint (FutureSize d) = max 1000000 (sint (FutureSize c))
    \<and> sint (IdleTimeout d) = signed_take_bit 63 (1000000000 * seconds_or 300 (IdleTimeout c))
    \<and> (sint (IdleTimeout c) \<le> max_seconds \<longrightarrow> sint (IdleTimeout d) = 1000000000 * seconds_or 300 (IdleTimeout c))
    \<and> sint (ProcessTimeout d) = signed_take_bit 63 (1000000000 * seconds_or 5 (ProcessTimeout c))
    \<and> (sint (ProcessTimeout c) \<le> max_seconds \<longrightarrow> sint (ProcessTimeout d) = 1000000000 * seconds_or 5 (ProcessTimeout c))
    \<and> co_SlowLog (op_Client op) = Some (co_SlowLog (op_Client file) \<noteq> Some False)"
proof -
  have op: "op = file\<lparr>op_Client := (op_Client file)\<lparr>co_SlowLog := Some (co_SlowLog (op_Client file) \<noteq> Some False)\<rparr>,
      op_Clusters := map (\<lambda>(name, cluster). (name, cluster_defaults cluster)) (op_Clusters file)\<rparr>"
    using load raw by (auto simp: LoadConfiguration_def Let_def split: option.splits)
  have m: "map_of (op_Clusters op) name = Some (cluster_defaults c)"
    using c map_of_map_snd [of "\<lambda>_. cluster_defaults" "op_Clusters file" name] by (simp add: op)
  have names: "map fst (op_Clusters op) = map fst (op_Clusters file)" by (simp add: op case_prod_beta o_def)
  have s: "sint (300 :: i64) = 300" "sint (5 :: i64) = 5" by simp_all
  have wrap: "sint (IdleTimeout (cluster_defaults c)) = signed_take_bit 63 (1000000000 * seconds_or 300 (IdleTimeout c))"
    "sint (ProcessTimeout (cluster_defaults c)) = signed_take_bit 63 (1000000000 * seconds_or 5 (ProcessTimeout c))"
    unfolding cluster_defaults_fields sint_seconds by (simp_all add: or_default_def seconds_or_def)
  have exact: "signed_take_bit 63 (1000000000 * seconds_or d x) = 1000000000 * seconds_or d x"
    if "0 < d" "d \<le> max_seconds" "sint x \<le> max_seconds" for d x
    using that by (intro seconds_fit) (simp_all add: seconds_or_def)
  have fits: "(300 :: int) \<le> max_seconds" "(5 :: int) \<le> max_seconds" by (simp_all add: max_seconds_def)
  have future: "sint (FutureSize (cluster_defaults c)) = max 1000000 (sint (FutureSize c))"
    by (simp add: cluster_defaults_fields)
  show ?thesis
    by (rule exI [of _ "cluster_defaults c"])
      (use m names wrap exact fits future in \<open>simp add: cluster_defaults_fields(1-7) op\<close>)
qed

definition demo_file :: Option where
  "demo_file = zero_Option\<lparr>op_Clusters := [(''dev'', \<lparr>cl_Registry = ''file:///conf/a.yaml'', ProcessTimeout = 3, IdleTimeout = 0,
     MaxDispatcherSize = 0, WorkerPoolSize = -1, ReadBufferSize = 0, WriteBufferSize = 0, WriteChannelSize = 0,
     ReadChannelSize = 7, FutureSize = 0\<rparr>)]\<rparr>"

theorem loaded_defaults_witness:
  "\<exists>op d. LoadConfiguration (\<lambda>_. None) (\<lambda>_. Inr ''x'') (\<lambda>_. Inr demo_file) ''a.toml'' = (op, None)
     \<and> map_of (op_Clusters op) ''dev'' = Some d \<and> sint (ProcessTimeout d) = 3000000000 \<and> sint (IdleTimeout d) = 300000000000
     \<and> MaxDispatcherSize d = 8000 \<and> WorkerPoolSize d = 8000 \<and> ReadBufferSize d = 16384 \<and> WriteChannelSize d = 1000
     \<and> ReadChannelSize d = 7"
proof -
  obtain op where l: "LoadConfiguration (\<lambda>_. None) (\<lambda>_. Inr ''x'') (\<lambda>_. Inr demo_file) ''a.toml'' = (op, None)"
    by (simp add: LoadConfiguration_def)
  obtain c where c: "map_of (op_Clusters demo_file) ''dev'' = Some c" "sint (IdleTimeout c) = 0" "sint (ProcessTimeout c) = 3"
    "MaxDispatcherSize c = 0" "WorkerPoolSize c = -1" "ReadBufferSize c = 0" "WriteChannelSize c = 0" "ReadChannelSize c = 7"
    by (simp add: demo_file_def)
  from loaded_defaults [OF l refl refl refl c(1)] obtain d where
    d: "map_of (op_Clusters op) ''dev'' = Some d" "MaxDispatcherSize d = or_default 8000 (MaxDispatcherSize c)"
    "WorkerPoolSize d = or_default (MaxDispatcherSize d) (WorkerPoolSize c)"
    "ReadBufferSize d = or_default 16384 (ReadBufferSize c)" "WriteChannelSize d = or_default 1000 (WriteChannelSize c)"
    "ReadChannelSize d = or_default 1000 (ReadChannelSize c)"
    "sint (IdleTimeout c) \<le> max_seconds \<longrightarrow> sint (IdleTimeout d) = 1000000000 * seconds_or 300 (IdleTimeout c)"
    "sint (ProcessTimeout c) \<le> max_seconds \<longrightarrow> sint (ProcessTimeout d) = 1000000000 * seconds_or 5 (ProcessTimeout c)"
    by blast
  show ?thesis
    by (intro exI [of _ op] exI [of _ d] conjI)
      (use l d c in \<open>simp_all add: or_default_def seconds_or_def max_seconds_def\<close>)
qed

text \<open>
  Errors of loading. A file that cannot be opened or parsed is an error; a file that was opened
  but cannot be read is not: the caller gets the empty configuration and no error.
\<close>

theorem loading_errors:
  "(snd (LoadConfiguration open_file read_all toml path) = None \<longleftrightarrow>
      open_file path = None \<and> (case read_all path of Inl e \<Rightarrow> True | Inr buff \<Rightarrow> \<not> isl (toml buff)))
   \<and> (open_file path = None \<and> isl (read_all path) \<longrightarrow>
        LoadConfiguration open_file read_all toml path = (zero_Option, None))"
  by (auto simp: LoadConfiguration_def Let_def split: option.split sum.split)

theorem loading_errors_witness:
  "LoadConfiguration (\<lambda>_. None) (\<lambda>_. Inl ''input/output error'') (\<lambda>_. Inl ''none'') ''a.toml'' = (zero_Option, None)"
  using loading_errors [of "\<lambda>_. None" "\<lambda>_. Inl ''input/output error''" "\<lambda>_. Inl ''none''" "''a.toml''"] by simp

section \<open>The bind address\<close>

lemma first_ip_Some: "first_ip P as = Some ip \<Longrightarrow> P ip \<and> IPNet False (Some ip) \<in> set as"
  by (induction as) (auto simp: usable_ip_def split: option.splits net_addr.splits bool.splits if_splits)

text \<open>The addresses a loop takes, one per interface that has one.\<close>

definition taken :: "(net_addr list \<Rightarrow> bool) \<Rightarrow> (string \<Rightarrow> bool) \<Rightarrow> net_addr list list \<Rightarrow> string list" where
  "taken use P inters = List.map_filter (first_ip P) (filter use inters)"

lemma taken_simps [simp]: "taken use P [] = []"
  "taken use P (a # as) = (if use a then (case first_ip P a of None \<Rightarrow> taken use P as | Some ip \<Rightarrow> ip # taken use P as) else taken use P as)"
  by (simp_all add: taken_def map_filter_simps split: option.split)

lemma bind_loop_taken:
  "bind_loop use P split inters st =
     (if taken use P inters = [] then Ret st
      else bind_go (split_at split 1) (\<lambda>port. Ret (last (taken use P inters) @ '':'' @ port, True)))"
proof (induction inters arbitrary: st)
  case (Cons a inters)
  then show ?case by (cases "split_at split 1") (auto split: option.split)
qed simp

lemma taken_ip: "ip \<in> set (taken use P inters) \<Longrightarrow>
  P ip \<and> (\<exists>addrs \<in> set inters. use addrs \<and> IPNet False (Some ip) \<in> set addrs)"
  by (induction inters) (auto dest: first_ip_Some split: option.splits if_splits)

text \<open>
  C35: The address a server binds. The port is the text after the first colon of the configured
  address (up to the next one); without a colon the server panics. Without an IP pattern the IP is
  \<^verbatim>\<open>0.0.0.0\<close>. Otherwise it is, of the last interface that has one, the first IPv4 address that is no
  loopback and matches the pattern; when none matches, of the last interface without a loopback, its
  first IPv4 address; else \<^verbatim>\<open>0.0.0.0\<close>. (The comment before that second search says that without a
  match \<^verbatim>\<open>0.0.0.0\<close> is bound at once.)
\<close>

theorem server_bind_address:
  assumes init: "InitServerOption (Inr inters) matches op = Ret op'"
    and split: "Split CHR '':'' (so_BindAddress (op_Server op)) = regx # rest"
  shows "\<exists>port rest'. rest = port # rest' \<and> so_BindAddress (op_Server op') =
    (let hits = taken (\<lambda>_. True) (matches regx) inters;
         others = taken (\<lambda>addrs. \<not> has_loopback addrs \<and> addrs \<noteq> []) (\<lambda>_. True) inters
     in if regx = [] then ''0.0.0.0'' else if hits \<noteq> [] then last hits else if others \<noteq> [] then last others else ''0.0.0.0'')
    @ '':'' @ port"
proof -
  obtain bind where b: "bind_address matches inters (so_BindAddress (op_Server op)) = Ret bind"
    and op': "so_BindAddress (op_Server op') = bind"
    using init by (auto simp: InitServerOption_def bind_go_Ret_iff Let_def split: option.splits if_splits)
  obtain port rest' where p: "rest = port # rest'"
  proof (cases rest)
    case Nil
    with b split show ?thesis by (auto simp: bind_address_def bind_loop_taken split_at_def Let_def split: if_splits)
  qed
  show ?thesis
    using b split unfolding op' p
    by (auto simp: bind_address_def bind_loop_taken split_at_def Let_def split: if_splits)
qed

definition two_nics :: "net_addr list list" where
  "two_nics = [[IPNet True (Some ''127.0.0.1'')], [OtherAddr, IPNet False (Some ''10.1.0.7'')], [IPNet False (Some ''192.168.0.2'')]]"

theorem server_bind_address_witness:
  "\<exists>op'. InitServerOption (Inr two_nics) (\<lambda>r ip. HasPrefix ip r) (demo_file\<lparr>op_Server := \<lparr>so_RunMode = ''dev'', so_BindAddress = ''10.:13000'', so_Compress = [], so_IsPre = False\<rparr>\<rparr>)
      = Ret op' \<and> so_BindAddress (op_Server op') = ''10.1.0.7:13000''"
proof -
  let ?op = "demo_file\<lparr>op_Server := \<lparr>so_RunMode = ''dev'', so_BindAddress = ''10.:13000'', so_Compress = [], so_IsPre = False\<rparr>\<rparr>"
  obtain op' where i: "InitServerOption (Inr two_nics) (\<lambda>r ip. HasPrefix ip r) ?op = Ret op'"
    by (simp add: InitServerOption_def bind_address_def bind_loop_taken two_nics_def split_at_def demo_file_def usable_ip_def)
  have s: "Split CHR '':'' (so_BindAddress (op_Server ?op)) = ''10.'' # [''13000'']" by simp
  show ?thesis
    using i server_bind_address [OF i s] by (simp add: two_nics_def usable_ip_def)
qed

text \<open>
  A server's and a client's options fail to initialise, by a panic, exactly when their run mode
  names no cluster (or, for the server, the interfaces cannot be listed or the address has no
  colon); otherwise the compression is \<^verbatim>\<open>snappy\<close> unless one is given, the client's strategy is one of
  three, and the clusters are unchanged.
\<close>

theorem option_initialisation:
  "(case InitClientOption op of
      Panic e \<Rightarrow> map_of (op_Clusters op) (co_RunMode (op_Client op)) = None
    | Ret op' \<Rightarrow> map_of (op_Clusters op) (co_RunMode (op_Client op)) \<noteq> None
        \<and> map_of (op_Clusters op') = map_of (op_Clusters op)
        \<and> co_Compress (op_Client op') = (if co_Compress (op_Client op) = [] then ''snappy'' else co_Compress (op_Client op))
        \<and> co_SelectorStrategy (op_Client op') \<in> {''random'', ''ketama'', ''priority_random''})
   \<and> (case InitServerOption interfaces matches op of
      Panic e \<Rightarrow> isl interfaces \<or> map_of (op_Clusters op) (so_RunMode (op_Server op)) = None
          \<or> CHR '':'' \<notin> set (so_BindAddress (op_Server op))
    | Ret op' \<Rightarrow> map_of (op_Clusters op) (so_RunMode (op_Server op)) \<noteq> None
        \<and> map_of (op_Clusters op') = map_of (op_Clusters op) \<and> op_Client op' = op_Client op
        \<and> so_Compress (op_Server op') = (if so_Compress (op_Server op) = [] then ''snappy'' else so_Compress (op_Server op)))"
proof
  show "case InitClientOption op of
      Panic e \<Rightarrow> map_of (op_Clusters op) (co_RunMode (op_Client op)) = None
    | Ret op' \<Rightarrow> map_of (op_Clusters op) (co_RunMode (op_Client op)) \<noteq> None
        \<and> map_of (op_Clusters op') = map_of (op_Clusters op)
        \<and> co_Compress (op_Client op') = (if co_Compress (op_Client op) = [] then ''snappy'' else co_Compress (op_Client op))
        \<and> co_SelectorStrategy (op_Client op') \<in> {''random'', ''ketama'', ''priority_random''}"
    by (auto simp: InitClientOption_def pick_strategy_def STRATEGY_RANDOM_def STRATEGY_KETAMA_def
        STRATEGY_PRIORITY_RANDOM_def Let_def map_simps fun_eq_iff split: option.split)
next
  have colon: "\<exists>x y r. Split CHR '':'' s = x # y # r" if "CHR '':'' \<in> set s" for s
  proof -
    from split_list_first [OF that] obtain x y where "s = x @ CHR '':'' # y" "CHR '':'' \<notin> set x" by blast
    then show ?thesis using Split_append [of "CHR '':''" x y] Split_not_Nil [of "CHR '':''" y] by (cases "Split CHR '':'' y") auto
  qed
  have ok: "\<exists>b. bind_address matches inters s = Ret b" if c: "CHR '':'' \<in> set s" for inters s
    using colon [OF c] by (auto simp: bind_address_def bind_loop_taken split_at_def Let_def)
  show "case InitServerOption interfaces matches op of
      Panic e \<Rightarrow> isl interfaces \<or> map_of (op_Clusters op) (so_RunMode (op_Server op)) = None
          \<or> CHR '':'' \<notin> set (so_BindAddress (op_Server op))
    | Ret op' \<Rightarrow> map_of (op_Clusters op) (so_RunMode (op_Server op)) \<noteq> None
        \<and> map_of (op_Clusters op') = map_of (op_Clusters op) \<and> op_Client op' = op_Client op
        \<and> so_Compress (op_Server op') = (if so_Compress (op_Server op) = [] then ''snappy'' else so_Compress (op_Server op))"
  proof (cases interfaces)
    case (Inr inters)
    show ?thesis
    proof (cases "bind_address matches inters (so_BindAddress (op_Server op))")
      case (Ret b)
      then show ?thesis by (auto simp: Inr InitServerOption_def Let_def map_simps fun_eq_iff split: option.split)
    next
      case (Panic e)
      with ok [of "so_BindAddress (op_Server op)" inters] show ?thesis by (auto simp: Inr InitServerOption_def)
    qed
  qed (simp add: InitServerOption_def)
qed

theorem option_initialisation_witness:
  "InitClientOption zero_Option = Panic ''Client RunMode Conf Not Found!''"
  using option_initialisation [of zero_Option "Inl ''none''" "\<lambda>_ _. False"]
  by (simp add: InitClientOption_def zero_Option_def)

end
