(* ===== verification/Moa_App_Props.thy ===== *)
theory Moa_App_Props
  imports Moa_Admin Moa_Config_Center_Props Moa_Codec_Props Moa_Proxy_Props Moa_Context_Props Moa_Option_Props
begin

text \<open>
  The properties of the application, most of them across components: what a started application is,
  what is published when starting fails, how each packet is answered, how a request's properties
  reach the service, what the timer forgets, how it stops, what the pages send.
\<close>

section \<open>Packets\<close>

text \<open>
  Every packet is answered as its kind demands and nothing else happens: a framing error is
  answered with code 300; a request that is still in time is queued once, with the connection's
  address and the cluster's timeout, and one that is too old is dropped without an answer; a ping is
  answered with a pong carrying its timestamp; an information request with the statistics of the
  last second; a request with a payload of another type, and any other command, with nothing.
\<close>

theorem packets_dispatched:
  fixes app :: "('v, 'w, 'z) Application"
  shows "dis now network app ctx =
    (let p = dc_Message ctx; timeout = ProcessTimeout (the_cluster (ap_options app)) in
     if dc_Err ctx \<noteq> None then
       [Write 2 (Opaque p) (RespPayload \<lparr>ErrCode = 300, Message = the (dc_Err ctx), rp_CreateTime = 0, Result = None\<rparr>)]
     else if CmdType p = 1 then
       (case PayLoad p of
          RawReqPayload req \<Rightarrow>
            if 0 < sint (rq_CreateTime req) \<and> sint timeout \<le> sint (now - rq_CreateTime req * 1000000) then []
            else [Queue (req\<lparr>rq_Source := dc_RemoteAddr ctx, rq_Timeout := timeout\<rparr>) (Opaque p)]
        | _ \<Rightarrow> [])
     else if CmdType p = 3 then
       (case PayLoad p of
          PiPoPayload x \<Rightarrow> [Pong (Opaque p) (Timestamp x), Write 4 (Opaque p) (PiPoPayload x)]
        | _ \<Rightarrow> [Write 4 (Opaque p) (PiPoPayload \<lparr>Timestamp = 0\<rparr>)])
     else if CmdType p = 5 then
       (case ap_invokeHandler app of
          None \<Rightarrow> []
        | Some h \<Rightarrow> [Write 5 (Opaque p) (OtherPayload (Inr (JObj [(''moa'', MoaInfo_json (preMoaInfo (moaStat h))), (''network'', network)])))])
     else [])"
  by (auto simp: dis_def dis_body_def is_expired_def i64_ge_def zero_resp_def cmd_defs code_defs GetMoaInfo_def Let_def
      split: option.split payload.split)

definition demo_app :: "(string, nat, (string, string) gomap) Application" where
  "demo_app = \<lparr>ap_ctx = [], ap_setup = setup_of 1024 zero_Option zero_Cluster, ap_options = demo_file\<lparr>op_Server := \<lparr>so_RunMode = ''dev'', so_BindAddress = [], so_Compress = [], so_IsPre = False\<rparr>\<rparr>,
     ap_configCenter = \<lparr>cc_registry = NilReg, cc_services = [], cc_hostport = []\<rparr>, ap_invokeHandler = Some demo_handler\<rparr>"

lemma run_request_Invoke:
  fixes app :: "('v, 'w, 'z) Application"
  assumes T: "Extract T [] = None" and h: "ap_invokeHandler app = Some h"
  obtains c hp out w' where "request_ctx (ap_ctx app) req (heap w) = (c, hp)"
    and "Invoke T cost h c req (w\<lparr>heap := hp\<rparr>) = (Ret out, w')"
    and "run_request T cost app req opaque w =
      (Ret (app\<lparr>ap_invokeHandler := Some (io_handler out)\<rparr>,
            case io_callback out of None \<Rightarrow> [] | Some resp \<Rightarrow> [Write RESP opaque (RespPayload resp)]), w')"
proof -
  obtain c hp where c: "request_ctx (ap_ctx app) req (heap w) = (c, hp)" by (cases "request_ctx (ap_ctx app) req (heap w)")
  obtain out w' where i: "Invoke T cost h c req (w\<lparr>heap := hp\<rparr>) = (Ret out, w')"
    using Invoke_total [OF T, of cost h c req "w\<lparr>heap := hp\<rparr>"] by blast
  show thesis by (rule that [OF c i]) (simp add: run_request_def c i h Let_def)
qed

text \<open>
  C16: A request that a worker runs is answered at most once, with a response under its own number:
  exactly once when the call took less than the timeout, and never when it took longer. The code is
  one of six, and the request is counted as received, whatever becomes of it.
\<close>

theorem requests_answered:
  fixes app :: "('v, 'w, 'z) Application"
  assumes T: "Extract T [] = None" and h: "ap_invokeHandler app = Some h"
  shows "\<exists>h' acts w'. run_request T cost app req opaque w = (Ret (app\<lparr>ap_invokeHandler := Some h'\<rparr>, acts), w')
    \<and> stat_flow (moaStat h') KRecv = stat_flow (moaStat h) KRecv @ [Incr 1]
    \<and> (if sint (rq_Timeout req) \<le> sint cost then acts = []
       else \<exists>resp. acts = [Write 2 opaque (RespPayload resp)] \<and> ErrCode resp \<in> {200, 302, 501, 502, 503, 3021})"
proof -
  obtain c hp out w' where i: "Invoke T cost h c req (w\<lparr>heap := hp\<rparr>) = (Ret out, w')"
    and r: "run_request T cost app req opaque w =
      (Ret (app\<lparr>ap_invokeHandler := Some (io_handler out)\<rparr>,
            case io_callback out of None \<Rightarrow> [] | Some resp \<Rightarrow> [Write RESP opaque (RespPayload resp)]), w')"
    by (rule run_request_Invoke [where T = T and cost = cost and req = req and opaque = opaque and w = w, OF T h])
  obtain resp where "io_callback out = (if sint (rq_Timeout req) \<le> sint cost then None else Some resp)"
    "ErrCode resp \<in> {200, 302, 501, 502, 503, 3021}" using Invoke_answer [OF i] by blast
  moreover have "stat_flow (moaStat (io_handler out)) KRecv = stat_flow (moaStat h) KRecv @ [Incr 1]"
    using Invoke_flows [OF i] by blast
  ultimately show ?thesis by (intro exI [of _ "io_handler out"]) (simp add: r cmd_defs)
qed

theorem requests_answered_witness:
  "\<exists>app' resp w'. run_request no_tracer 7 demo_app (demo_req ''echo'' [JStr ''hi'']) 42 demo_world
     = (Ret (app', [Write 2 42 (RespPayload resp)]), w')"
proof -
  have T: "Extract no_tracer [] = None" by (simp add: no_tracer_def)
  have h: "ap_invokeHandler demo_app = Some demo_handler" by (simp add: demo_app_def)
  have t: "\<not> sint (rq_Timeout (demo_req ''echo'' [JStr ''hi''])) \<le> sint (7 :: i64)" by (simp add: demo_req_def)
  show ?thesis
    using requests_answered [OF T h, of 7 "demo_req ''echo'' [JStr ''hi'']" 42 demo_world] t by auto
qed

section \<open>The properties of a request\<close>

lemma map_of_set_all: "map_of (set_all kvs m) = map_of m ++ map_of (rev kvs)"
  by (induction kvs arbitrary: m) (auto simp: set_all_def map_simps fun_eq_iff map_add_def split: option.split)

lemma decode_args_no_ctx: "decode_args as ts = Inr vs \<Longrightarrow> ArgCtx c \<notin> set vs"
  by (induction as ts arbitrary: vs rule: decode_args.induct) (auto split: sum.splits)

lemma dispatch_ctx: "dispatch c inst req = Call m (ArgCtx c0 # rest) \<Longrightarrow> c0 = c"
  by (auto simp: dispatch_def ctx_params_def dest: decode_args_no_ctx [of _ _ _ c0]
      split: option.splits sum.splits if_splits list.splits)

lemma recover_crash_world [simp]: "is_world (recover_crash crash st) = is_world st"
  by (simp add: recover_crash_def fail_with_def split: option.split)

lemma call_method_world: "is_world (fst (call_method m ps st)) = snd (Method m ps (is_world st))"
  by (auto simp: call_method_def invoke_def fail_with_def Let_def bind_go_def split: prod.splits go.splits option.splits list.splits bool.splits)

lemma run_body_world:
  "dispatch c (instances h) req = Call m ps \<Longrightarrow> is_world (run_body h c req w) = snd (Method m ps w)"
  using call_method_world [of m ps "\<lparr>is_instances = counted (instances h) req, is_stat = IncrRecv (moaStat h), is_resp = zero_resp, is_world = w\<rparr>"]
  by (simp add: run_body_def Invoke_body_dispatch split_beta)

text \<open>The properties a request carries, and what the tracing prologue writes over them.\<close>

definition carried :: "MoaRawReqPacket \<Rightarrow> (string, string) gomap" where
  "carried req = (case rq_Properties req of None \<Rightarrow> [] | Some m \<Rightarrow> m)"

definition injected :: "'sp tracer \<Rightarrow> MoaRawReqPacket \<Rightarrow> (string \<times> string) list" where
  "injected T req = (case Extract T (carried req) of None \<Rightarrow> []
     | Some parent \<Rightarrow> Inject T (StartSpan T (rq_Method req) parent))"

lemma traced_ctx:
  assumes rc: "request_ctx c req h = (c1, h1)" and ss: "start_span T c1 req h1 = (Ret (tracing, c', spans), h')"
  shows "tracing \<longleftrightarrow> Extract T (carried req) \<noteq> None"
    and "ctx_Value c' KEY_MOA_PROPERTIES = Some (MapRef (map_option (\<lambda>_. next_ref h) (rq_Properties req)))"
    and "maps h' = (if rq_Properties req = None then maps h else (maps h)(next_ref h := set_all (injected T req) (carried req)))"
proof -
  have "(tracing \<longleftrightarrow> Extract T (carried req) \<noteq> None)
    \<and> ctx_Value c' KEY_MOA_PROPERTIES = Some (MapRef (map_option (\<lambda>_. next_ref h) (rq_Properties req)))
    \<and> maps h' = (if rq_Properties req = None then maps h else (maps h)(next_ref h := set_all (injected T req) (carried req)))"
    using rc ss
    by (cases "rq_Properties req"; cases "Extract T (carried req)")
       (auto simp: request_ctx_def new_map_def start_span_def GetSpanCtx_def WithSpanCtx_def carried_def injected_def
          set_all_def ctx_Value_def WithValue_def Let_def split: if_splits)
  then show "tracing \<longleftrightarrow> Extract T (carried req) \<noteq> None"
    "ctx_Value c' KEY_MOA_PROPERTIES = Some (MapRef (map_option (\<lambda>_. next_ref h) (rq_Properties req)))"
    "maps h' = (if rq_Properties req = None then maps h else (maps h)(next_ref h := set_all (injected T req) (carried req)))"
    by blast+
qed

text \<open>
  C23: The properties a service reads. A method that takes a context is called once with the context
  left by the tracing prologue, and reads through it the properties its request carried; when the
  carried ones hold a span context, the keys the tracer injects for the child span are read with
  their injected values instead (the last of equal keys), and nothing else changes. The service can
  attach further properties exactly when the request carried a map: the context of a request without
  one holds the nil map, on which attaching panics. No context of an older map sees any of it.
\<close>

theorem request_properties:
  fixes app :: "('v, 'w, 'z) Application"
  assumes h: "ap_invokeHandler app = Some hdl"
    and rc: "request_ctx (ap_ctx app) req (heap w) = (c1, h1)"
    and ss: "start_span T c1 req h1 = (Ret (tracing, c', spans), h')"
    and disp: "dispatch c' (instances hdl) req = Call m (ArgCtx c0 # rest)"
  shows "snd (run_request T cost app req opaque w) = snd (Method m (ArgCtx c0 # rest) (w\<lparr>heap := h'\<rparr>))
    \<and> (tracing \<longleftrightarrow> Extract T (carried req) \<noteq> None)
    \<and> GetMoaProperty c0 k h' = (case (map_of (carried req) ++ map_of (rev (injected T req))) k of
           None \<Rightarrow> ([], False) | Some v \<Rightarrow> (v, True))
    \<and> (panics (fst (AttachMoaProperty c0 k v h')) \<longleftrightarrow> rq_Properties req = None)
    \<and> (case ctx_ref d of None \<Rightarrow> True
        | Some r \<Rightarrow> r < next_ref (heap w) \<longrightarrow> GetMoaProperty d k h' = GetMoaProperty d k (heap w))"
proof -
  note t = traced_ctx [OF rc ss]
  have c0: "c0 = c'" by (rule dispatch_ctx [OF disp])
  have world: "snd (run_request T cost app req opaque w) = snd (Method m (ArgCtx c0 # rest) (w\<lparr>heap := h'\<rparr>))"
    using run_body_world [OF disp, of "w\<lparr>heap := h'\<rparr>"] ss
    by (simp add: run_request_def rc h Let_def Invoke_Ret [of T c1 req "w\<lparr>heap := h1\<rparr>"])
  have ref: "ctx_ref c' = map_option (\<lambda>_. next_ref (heap w)) (rq_Properties req)"
    by (simp add: ctx_ref_def t(2))
  have inj: "injected T req = []" if "rq_Properties req = None"
    using ss rc that by (auto simp: request_ctx_def start_span_def GetSpanCtx_def WithSpanCtx_def carried_def injected_def
        ctx_Value_def WithValue_def Let_def split: option.splits if_splits)
  have look: "props_of c' h' k = (map_of (carried req) ++ map_of (rev (injected T req))) k"
    by (cases "rq_Properties req") (simp_all add: props_of_def ref t(3) map_of_set_all inj carried_def)
  have att: "panics (fst (AttachMoaProperty c' k v h')) \<longleftrightarrow> rq_Properties req = None"
    by (simp add: Attach_panics writable_def t(2))
  have other: "case ctx_ref d of None \<Rightarrow> True
      | Some r \<Rightarrow> r < next_ref (heap w) \<longrightarrow> GetMoaProperty d k h' = GetMoaProperty d k (heap w)"
    by (auto simp: GetMoaProperty_props props_of_def t(3) split: option.split)
  show ?thesis using world t(1) look att other by (simp add: c0 GetMoaProperty_props)
qed

definition child_tracer :: "string tracer" where
  "child_tracer = \<lparr>Extract = (\<lambda>m. map_of m ''uber-trace-id''), Inject = (\<lambda>sp. [(''uber-trace-id'', sp)]),
     StartSpan = (\<lambda>_ sp. sp @ '':child'')\<rparr>"

theorem request_properties_witness:
  "\<exists>req c0 h'. rq_Properties req = Some [(''uber-trace-id'', ''1''), (''env'', ''pre'')]
    \<and> snd (run_request child_tracer 7 demo_app req 42 demo_world)
        = snd (demo_method ''Echo'' [ArgCtx c0, ArgVal ''hi''] (demo_world\<lparr>heap := h'\<rparr>))
    \<and> GetMoaProperty c0 ''env'' h' = (''pre'', True) \<and> GetMoaProperty c0 ''uber-trace-id'' h' = (''1:child'', True)"
proof -
  let ?req = "(demo_req ''ECHO'' [JStr ''hi''])\<lparr>rq_Properties := Some [(''uber-trace-id'', ''1''), (''env'', ''pre'')]\<rparr>"
  have h: "ap_invokeHandler demo_app = Some demo_handler" by (simp add: demo_app_def)
  obtain c1 h1 where rc: "request_ctx (ap_ctx demo_app) ?req (heap demo_world) = (c1, h1)"
    by (cases "request_ctx (ap_ctx demo_app) ?req (heap demo_world)")
  obtain tr c' sp h' where ss: "start_span child_tracer c1 ?req h1 = (Ret (tr, c', sp), h')"
    using rc by (auto simp: request_ctx_def new_map_def start_span_def GetSpanCtx_def WithSpanCtx_def child_tracer_def
        ctx_Value_def WithValue_def Let_def)
  have d: "dispatch c' (instances demo_handler) ?req =
     Call \<lparr>Name = ''Echo'', Method = demo_method ''Echo'', ReturnType = [str_type, err_type], ParamTypes = [ctx_type, str_type]\<rparr>
       [ArgCtx c', ArgVal ''hi'']"
    by (simp add: dispatch_def demo_defs lower_eval value_params_def ctx_params_def args_of_def)
  have i: "carried ?req = [(''uber-trace-id'', ''1''), (''env'', ''pre'')]" "injected child_tracer ?req = [(''uber-trace-id'', ''1:child'')]"
    by (simp_all add: carried_def injected_def child_tracer_def)
  note p = request_properties [OF h rc ss d, of 7 42 _ "[]" "[]", unfolded i]
  have "GetMoaProperty c' ''env'' h' = (''pre'', True)" "GetMoaProperty c' ''uber-trace-id'' h' = (''1:child'', True)"
    using p [of "''env''"] p [of "''uber-trace-id''"] by simp_all
  moreover have "rq_Properties ?req = Some [(''uber-trace-id'', ''1''), (''env'', ''pre'')]" by simp
  moreover note p [THEN conjunct1, unfolded MethodMeta.select_convs]
  ultimately show ?thesis by blast
qed

section \<open>A call from end to end\<close>

text \<open>A response that is written and read again, seen as its code and its message.\<close>

definition reads_back :: "snappy \<Rightarrow> BinaryCodec \<Rightarrow> BinaryCodec \<Rightarrow> 'v MoaRespPacket \<Rightarrow> bool" where
  "reads_back S codec codec' resp \<longleftrightarrow>
     (\<forall>(a :: 'v packet) (b :: 'v packet) now. CmdType a = RESP \<and> PayLoad a = RespPayload resp \<and> CmdType b = RESP
        \<and> Extension b AND 1 \<noteq> 1 \<and> MarshalPayload codec a = Inr (Data b) \<longrightarrow>
        (\<exists>raw b'. UnmarshalPayload S now codec' b = Ret (Inr (RawRespPayload raw), b')
           \<and> rr_ErrCode raw = ErrCode resp \<and> rr_Message raw = Message resp))"

lemma reads_back_wf:
  assumes "MoaRespPacket_json resp = Inr j" "wf_json j" "in_int64 (ErrCode resp)"
  shows "reads_back S codec codec' resp"
  unfolding reads_back_def
proof (intro allI impI, elim conjE)
  fix a b :: "'a packet" and now
  assume "CmdType a = RESP" "PayLoad a = RespPayload resp" "CmdType b = RESP"
    "Extension b AND 1 \<noteq> 1" "MarshalPayload codec a = Inr (Data b)"
  from response_wire [OF this(1,2) assms this(3-5), of S now codec']
  show "\<exists>raw b'. UnmarshalPayload S now codec' b = Ret (Inr (RawRespPayload raw), b')
      \<and> rr_ErrCode raw = ErrCode resp \<and> rr_Message raw = Message resp"
    by (auto simp: Let_def)
qed

text \<open>
  C2: A call from end to end. The bytes a client writes for a request are read by the server, the
  packet is queued as one request with the same service, method, arguments and properties, and the
  connection's address; run within the timeout it is answered by exactly one response with the
  request's number and one of six codes; and when that response has a JSON form of valid text, the
  client reads from its bytes the same code and message.
\<close>

theorem call_end_to_end:
  fixes app :: "('v, 'w, 'z) Application" and p r :: "'v packet"
  assumes p: "CmdType p = REQ" "PayLoad p = ReqPayload q" and j: "MoaReqPacket_json q = Inr j" "wf_json j"
    and d: "case mq_Properties q of None \<Rightarrow> True | Some m \<Rightarrow> distinct (map fst m)"
    and now: "0 < sint (millis now)"
    and r: "CmdType r = REQ" "Extension r AND 1 \<noteq> 1" "MarshalPayload codec p = Inr (Data r)"
    and T: "Extract T [] = None" and h: "ap_invokeHandler app = Some h"
    and intime: "sint (now' - millis now * 1000000) < sint (ProcessTimeout (the_cluster (ap_options app)))"
    and quick: "sint cost < sint (ProcessTimeout (the_cluster (ap_options app)))"
  shows "\<exists>raw r' req app' resp w'. UnmarshalPayload S now codec' r = Ret (Inr (RawReqPayload raw), r')
    \<and> dis now' network app \<lparr>dc_Message = r', dc_Err = None, dc_RemoteAddr = addr\<rparr> = [Queue req (Opaque r)]
    \<and> rq_ServiceUri req = mq_ServiceUri q \<and> rq_Method req = mq_Method q \<and> rq_Source req = addr
    \<and> map_option all_args (mq_Args q) = map_option Inr (rq_Args req) \<and> same_props (mq_Properties q) (rq_Properties req)
    \<and> run_request T cost app req (Opaque r) w = (Ret (app', [Write RESP (Opaque r) (RespPayload resp)]), w')
    \<and> ErrCode resp \<in> {200, 302, 501, 502, 503, 3021}
    \<and> ((\<exists>j'. MoaRespPacket_json resp = Inr j' \<and> wf_json j') \<longrightarrow> reads_back S codec' codec resp)"
proof -
  let ?timeout = "ProcessTimeout (the_cluster (ap_options app))"
  obtain args props where ap: "map_option all_args (mq_Args q) = map_option Inr args" "same_props (mq_Properties q) props"
    and u: "UnmarshalPayload S now codec' r =
      (let raw = \<lparr>rq_ServiceUri = mq_ServiceUri q, rq_Method = mq_Method q, rq_Args = args, rq_Properties = props,
                  rq_CreateTime = millis now, rq_Timeout = 0, rq_Source = []\<rparr>
       in Ret (Inr (RawReqPayload raw), r\<lparr>PayLoad := RawReqPayload raw\<rparr>))"
    using request_wire [OF p j d now r, of S codec'] by blast
  let ?raw = "\<lparr>rq_ServiceUri = mq_ServiceUri q, rq_Method = mq_Method q, rq_Args = args, rq_Properties = props,
                  rq_CreateTime = millis now, rq_Timeout = 0, rq_Source = []\<rparr>"
  let ?req = "?raw\<lparr>rq_Source := addr, rq_Timeout := ?timeout\<rparr>"
  have dis: "dis now' network app \<lparr>dc_Message = r\<lparr>PayLoad := RawReqPayload ?raw\<rparr>, dc_Err = None, dc_RemoteAddr = addr\<rparr>
      = [Queue ?req (Opaque r)]"
    using intime by (simp add: dis_def dis_body_def is_expired_def i64_ge_def r(1) Let_def)
  obtain c hp out w' where i: "Invoke T cost h c ?req (w\<lparr>heap := hp\<rparr>) = (Ret out, w')"
    and rr: "run_request T cost app ?req (Opaque r) w =
      (Ret (app\<lparr>ap_invokeHandler := Some (io_handler out)\<rparr>,
            case io_callback out of None \<Rightarrow> [] | Some resp \<Rightarrow> [Write RESP (Opaque r) (RespPayload resp)]), w')"
    by (rule run_request_Invoke [where T = T and cost = cost and req = ?req and opaque = "Opaque r" and w = w, OF T h])
  obtain resp where resp: "io_callback out = Some resp" "ErrCode resp \<in> {200, 302, 501, 502, 503, 3021}"
    using Invoke_answer [OF i] quick by auto
  have "in_int64 (ErrCode resp)" using resp(2) by (auto simp: in_int64_def)
  then have "(\<exists>j'. MoaRespPacket_json resp = Inr j' \<and> wf_json j') \<longrightarrow> reads_back S codec' codec resp"
    using reads_back_wf by blast
  with u ap dis rr resp show ?thesis
    by (intro exI [of _ ?raw] exI [of _ "r\<lparr>PayLoad := RawReqPayload ?raw\<rparr>"] exI [of _ ?req]
        exI [of _ "app\<lparr>ap_invokeHandler := Some (io_handler out)\<rparr>"] exI [of _ resp] exI [of _ w']) (simp add: Let_def)
qed

definition call_packet :: "string packet" where
  "call_packet = \<lparr>CmdType = REQ, Extension = 0, Opaque = 42, Data = [],
     PayLoad = ReqPayload \<lparr>mq_ServiceUri = ''/service/lookup'', mq_Method = ''echo'', mq_Args = Some [Inr (JStr ''hi'')],
       mq_Properties = None, mq_CreateTime = 0, mq_Timeout = 0\<rparr>\<rparr>"

theorem call_end_to_end_witness:
  "\<exists>bytes raw r' req app' resp w'. MarshalPayload any_codec call_packet = Inr bytes
    \<and> UnmarshalPayload no_snappy 5000000 any_codec (call_packet\<lparr>Data := bytes\<rparr>) = Ret (Inr (RawReqPayload raw), r')
    \<and> dis 5000001 JNull demo_app \<lparr>dc_Message = r', dc_Err = None, dc_RemoteAddr = ''10.0.0.9:1''\<rparr> = [Queue req 42]
    \<and> run_request no_tracer 2 demo_app req 42 demo_world = (Ret (app', [Write RESP 42 (RespPayload resp)]), w')"
proof -
  let ?q = "\<lparr>mq_ServiceUri = ''/service/lookup'', mq_Method = ''echo'', mq_Args = Some [Inr (JStr ''hi'')],
       mq_Properties = None, mq_CreateTime = 0, mq_Timeout = 0\<rparr>"
  have p: "CmdType call_packet = REQ" "PayLoad call_packet = ReqPayload ?q" by (simp_all add: call_packet_def)
  obtain j where j: "MoaReqPacket_json ?q = Inr j" "wf_json j"
    by (simp add: MoaReqPacket_json_def args_json_def props_json_def less_char_def less_eq_char_def)
  have d: "case mq_Properties ?q of None \<Rightarrow> True | Some m \<Rightarrow> distinct (map fst m)" by simp
  have m: "millis 5000000 = 5" by (simp add: millis_def signed_divide_int_def)
  have now: "0 < sint (millis 5000000)" by (simp add: m)
  obtain bytes where b: "MarshalPayload any_codec call_packet = Inr bytes"
    by (simp add: MarshalPayload_def p payload_json_def j(1))
  let ?r = "call_packet\<lparr>Data := bytes\<rparr>"
  have r: "CmdType ?r = REQ" "Extension ?r AND 1 \<noteq> 1" "MarshalPayload any_codec call_packet = Inr (Data ?r)"
    using b by (simp_all add: call_packet_def)
  have T: "Extract no_tracer [] = None" by (simp add: no_tracer_def)
  have h: "ap_invokeHandler demo_app = Some demo_handler" by (simp add: demo_app_def)
  have t: "ProcessTimeout (the_cluster (ap_options demo_app)) = 3"
    by (simp add: demo_app_def the_cluster_def demo_file_def zero_Option_def)
  have intime: "sint (5000001 - millis 5000000 * 1000000) < sint (ProcessTimeout (the_cluster (ap_options demo_app)))"
    and quick: "sint (2 :: i64) < sint (ProcessTimeout (the_cluster (ap_options demo_app)))"
    by (simp_all add: t m)
  have o: "Opaque ?r = 42" by (simp add: call_packet_def)
  from call_end_to_end [OF p j d now r T h intime quick, of no_snappy any_codec JNull "''10.0.0.9:1''" demo_world] b
  show ?thesis unfolding o by blast
qed

section \<open>Starting\<close>

lemma NewConfigCenter_fields:
  "NewConfigCenter Z rf yaml addr hp ss z = (Ret c, z') \<Longrightarrow> cc_services c = ss \<and> cc_hostport c = hp"
  by (auto simp: NewConfigCenter_def RegisteAllServices_def Let_def split: prod.splits go.splits)

lemma RegisteAll_fields:
  "RegisteAllServices Z c = (r, c') \<Longrightarrow> cc_services c' = cc_services c \<and> cc_hostport c' = cc_hostport c"
  by (auto simp: RegisteAllServices_def split: prod.splits)

lemma service_defaults_fields [simp]:
  "ServiceUri (service_defaults pre s) = ServiceUri s" "IsPre (service_defaults pre s) = pre"
  "GroupId (service_defaults pre s) = (if GroupId s = [] then ''*'' else GroupId s)"
  "valid_service (service_defaults pre s) = valid_service s"
  by (simp_all add: service_defaults_def valid_service_def Let_def)

lemma service_loop_keys:
  "service_loop ss inst = Ret inst' \<Longrightarrow> fst ` set inst' = fst ` set inst \<union> ServiceUri ` set ss"
proof (induction ss arbitrary: inst)
  case (Cons s ss)
  from Cons.prems obtain s' where s': "reflect_service s = Ret s'"
    "service_loop ss (AList.update (ServiceUri s') s' inst) = Ret inst'"
    by (auto simp: bind_go_Ret_iff)
  have "ServiceUri s' = ServiceUri s" using s'(1) by (simp add: reflect_service_Ret)
  with Cons.IH [OF s'(2)] show ?case by (simp add: keys_update)
qed simp

lemma started_handler:
  assumes "NewInvocationHandler ss st = Ret h"
  shows "list_all valid_service ss" "wf_instances (instances h)" "fst ` set (instances h) = ServiceUri ` set ss" "moaStat h = st"
proof -
  have l: "service_loop ss [] = Ret (instances h)" by (rule NewInvocationHandler_loop [OF assms])
  then show "list_all valid_service ss" using service_loop_Ret [of ss "[]"] by blast
  show "wf_instances (instances h)" using service_loop_wf [OF l] by (simp add: wf_instances_def)
  show "fst ` set (instances h) = ServiceUri ` set ss" using service_loop_keys [OF l] by simp
  show "moaStat h = st" using assms by (auto simp: NewInvocationHandler_def bind_go_Ret_iff)
qed

lemma start_handler_Ret:
  assumes "start_handler Z c setup op bind (s0 # rest) center z = (Ret app, z')"
  obtains h0 c' where "NewInvocationHandler (s0 # rest) (fst (NewMoaStat bind (ServiceUri s0))) = Ret h0"
    and "RegisteAllServices Z center = (Ret (), c')"
    and "app = \<lparr>ap_ctx = c, ap_setup = setup, ap_options = op, ap_configCenter = c',
        ap_invokeHandler = Some (h0\<lparr>moaStat := fst (StartLog (moaStat h0))\<rparr>)\<rparr>"
proof (cases "NewInvocationHandler (s0 # rest) (fst (NewMoaStat bind (ServiceUri s0)))")
  case (Ret h0)
  obtain r c' where r: "RegisteAllServices Z center = (r, c')" by (cases "RegisteAllServices Z center")
  show thesis
    by (cases r) (use assms Ret r that [OF Ret, of c'] in \<open>simp_all add: start_handler_def\<close>)
next
  case (Panic e)
  then show thesis using assms by (simp add: start_handler_def)
qed

lemma new_stat_flows: "stat_flow (fst (StartLog (fst (NewMoaStat host uri)))) k = []"
  by (cases k) (simp_all add: StartLog_def NewMoaStat_def stat_flow.simps)

lemma initApplication_Ret:
  fixes services :: "('v, 'w) Service list"
  assumes init: "initApplication Z env c path services z = (Ret app, z')"
  obtains op serverOp center z1 s0 rest h0 c'
  where "LoadConfiguration (se_open env) (se_read env) (se_toml env) path = (op, None)"
    and "InitServerOption (se_interfaces env) (se_matches env) op = Ret serverOp"
    and "map (service_defaults (so_IsPre (op_Server serverOp))) services = s0 # rest"
    and "NewConfigCenter Z (se_file env) (se_yaml env) (cl_Registry (the_cluster serverOp)) (so_BindAddress (op_Server serverOp))
          (s0 # rest) z = (Ret center, z1)"
    and "NewInvocationHandler (s0 # rest) (fst (NewMoaStat (so_BindAddress (op_Server serverOp)) (ServiceUri s0))) = Ret h0"
    and "RegisteAllServices Z center = (Ret (), c')"
    and "app = \<lparr>ap_ctx = c, ap_setup = setup_of (se_max_packet env) serverOp (the_cluster serverOp), ap_options = op,
        ap_configCenter = c', ap_invokeHandler = Some (h0\<lparr>moaStat := fst (StartLog (moaStat h0))\<rparr>)\<rparr>"
proof -
  obtain op where op: "LoadConfiguration (se_open env) (se_read env) (se_toml env) path = (op, None)"
    using init by (auto simp: initApplication_def split: prod.splits option.splits)
  obtain serverOp where so: "InitServerOption (se_interfaces env) (se_matches env) op = Ret serverOp"
    using init by (auto simp: initApplication_def op split: go.splits)
  let ?ss = "map (service_defaults (so_IsPre (op_Server serverOp))) services"
  let ?cl = "the_cluster serverOp" and ?bind = "so_BindAddress (op_Server serverOp)"
  obtain center z1 where cc: "NewConfigCenter Z (se_file env) (se_yaml env) (cl_Registry ?cl) ?bind ?ss z = (Ret center, z1)"
    and sh: "start_handler Z c (setup_of (se_max_packet env) serverOp ?cl) op ?bind ?ss center z1 = (Ret app, z')"
    using init by (auto simp: initApplication_def op so Let_def split: go.splits prod.splits option.splits)
  obtain s0 rest where ss: "?ss = s0 # rest"
    using sh by (cases ?ss) (simp_all add: start_handler_def)
  have cc': "NewConfigCenter Z (se_file env) (se_yaml env) (cl_Registry ?cl) ?bind (s0 # rest) z = (Ret center, z1)"
    using cc unfolding ss .
  from sh [unfolded ss] show thesis
    by (rule start_handler_Ret) (rule that [OF op so ss cc'])
qed

text \<open>
  C15: What a started application is. Starting returns only with at least one service, every service
  valid; then every service is published under its group (\<^verbatim>\<open>*\<close> where none is given) and with the
  server's pre-release flag, at the bind address; the handler is well formed and serves exactly the
  services' URIs; no counter has moved and the ticker runs. Of a cluster's sizes, the write buffer,
  the worker pool and the future size are never used: the read buffer's size stands for the write
  buffer's too.
\<close>

theorem started_application:
  fixes services :: "('v, 'w) Service list"
  assumes init: "initApplication Z env c path services z = (Ret app, z')"
  shows "\<exists>h op serverOp cluster. LoadConfiguration (se_open env) (se_read env) (se_toml env) path = (op, None)
    \<and> InitServerOption (se_interfaces env) (se_matches env) op = Ret serverOp \<and> cluster = the_cluster serverOp
    \<and> services \<noteq> [] \<and> list_all valid_service services
    \<and> map ServiceUri (cc_services (ap_configCenter app)) = map ServiceUri services
    \<and> map GroupId (cc_services (ap_configCenter app)) = map (\<lambda>s. if GroupId s = [] then ''*'' else GroupId s) services
    \<and> list_all (\<lambda>s. IsPre s = so_IsPre (op_Server serverOp)) (cc_services (ap_configCenter app))
    \<and> cc_hostport (ap_configCenter app) = so_BindAddress (op_Server serverOp)
    \<and> ap_invokeHandler app = Some h \<and> wf_instances (instances h) \<and> fst ` set (instances h) = ServiceUri ` set services
    \<and> stat_flow (moaStat h) k = [] \<and> MoaTicker (moaStat h) = Some True
    \<and> ap_setup app = setup_of (se_max_packet env) serverOp (cluster\<lparr>WriteBufferSize := a, WorkerPoolSize := b, FutureSize := d\<rparr>)
    \<and> ss_sizes (ap_setup app) ! 2 = ReadBufferSize cluster"
proof -
  obtain op serverOp center z1 s0 rest h0 c' where op: "LoadConfiguration (se_open env) (se_read env) (se_toml env) path = (op, None)"
    and so: "InitServerOption (se_interfaces env) (se_matches env) op = Ret serverOp"
    and ss: "map (service_defaults (so_IsPre (op_Server serverOp))) services = s0 # rest"
    and cc: "NewConfigCenter Z (se_file env) (se_yaml env) (cl_Registry (the_cluster serverOp)) (so_BindAddress (op_Server serverOp))
          (s0 # rest) z = (Ret center, z1)"
    and h0: "NewInvocationHandler (s0 # rest) (fst (NewMoaStat (so_BindAddress (op_Server serverOp)) (ServiceUri s0))) = Ret h0"
    and ra: "RegisteAllServices Z center = (Ret (), c')"
    and app: "app = \<lparr>ap_ctx = c, ap_setup = setup_of (se_max_packet env) serverOp (the_cluster serverOp), ap_options = op,
        ap_configCenter = c', ap_invokeHandler = Some (h0\<lparr>moaStat := fst (StartLog (moaStat h0))\<rparr>)\<rparr>"
    by (rule initApplication_Ret [OF init])
  let ?ss = "map (service_defaults (so_IsPre (op_Server serverOp))) services"
  let ?cl = "the_cluster serverOp" and ?bind = "so_BindAddress (op_Server serverOp)"
  have c': "cc_services c' = ?ss" "cc_hostport c' = ?bind"
    using RegisteAll_fields [OF ra] NewConfigCenter_fields [OF cc] ss by simp_all
  have v: "list_all valid_service services" using started_handler(1) [OF h0] by (simp add: list_all_iff flip: ss)
  have t: "MoaTicker (fst (StartLog st)) = Some True" for st by (simp add: StartLog_def)
  have keys: "fst ` set (instances h0) = ServiceUri ` set services" using started_handler(3) [OF h0] by (simp add: image_image flip: ss)
  have ne: "services \<noteq> []" using ss by auto
  have wf: "wf_instances (instances h0)" and st: "moaStat h0 = fst (NewMoaStat ?bind (ServiceUri s0))"
    by (rule started_handler [OF h0])+
  have groups: "list_all (\<lambda>s. IsPre s = so_IsPre (op_Server serverOp)) ?ss" by (simp add: list_all_iff)
  have unused: "setup_of n serverOp (?cl\<lparr>WriteBufferSize := a, WorkerPoolSize := b, FutureSize := d\<rparr>) = setup_of n serverOp ?cl" for n
    by (simp add: setup_of_def)
  have sizes: "ss_sizes (setup_of n serverOp ?cl) ! 2 = ReadBufferSize ?cl" for n by (simp add: setup_of_def)
  have center: "ap_configCenter app = c'" and ap: "ap_setup app = setup_of (se_max_packet env) serverOp ?cl" by (simp_all add: app)
  show ?thesis
  proof (intro exI conjI)
    show "LoadConfiguration (se_open env) (se_read env) (se_toml env) path = (op, None)" by (rule op)
    show "InitServerOption (se_interfaces env) (se_matches env) op = Ret serverOp" by (rule so)
    show "?cl = ?cl" ..
    show "services \<noteq> []" by (rule ne)
    show "list_all valid_service services" by (rule v)
    show "map ServiceUri (cc_services (ap_configCenter app)) = map ServiceUri services"
      "map GroupId (cc_services (ap_configCenter app)) = map (\<lambda>s. if GroupId s = [] then ''*'' else GroupId s) services"
      by (simp_all add: center c'(1))
    show "list_all (\<lambda>s. IsPre s = so_IsPre (op_Server serverOp)) (cc_services (ap_configCenter app))"
      unfolding center c'(1) by (rule groups)
    show "cc_hostport (ap_configCenter app) = ?bind" by (simp add: center c'(2))
    show "ap_invokeHandler app = Some (h0\<lparr>moaStat := fst (StartLog (moaStat h0))\<rparr>)" by (simp add: app)
    show "wf_instances (instances (h0\<lparr>moaStat := fst (StartLog (moaStat h0))\<rparr>))" by (simp add: wf)
    show "fst ` set (instances (h0\<lparr>moaStat := fst (StartLog (moaStat h0))\<rparr>)) = ServiceUri ` set services" by (simp add: keys)
    show "stat_flow (moaStat (h0\<lparr>moaStat := fst (StartLog (moaStat h0))\<rparr>)) k = []" by (simp add: st new_stat_flows)
    show "MoaTicker (moaStat (h0\<lparr>moaStat := fst (StartLog (moaStat h0))\<rparr>)) = Some True" by (simp add: t)
    show "ap_setup app = setup_of (se_max_packet env) serverOp (?cl\<lparr>WriteBufferSize := a, WorkerPoolSize := b, FutureSize := d\<rparr>)"
      unfolding ap unused ..
    show "ss_sizes (ap_setup app) ! 2 = ReadBufferSize ?cl" unfolding ap by (rule sizes)
  qed
qed

definition demo_conf :: "string \<Rightarrow> Option" where
  "demo_conf addr = zero_Option\<lparr>op_Server := \<lparr>so_RunMode = ''dev'', so_BindAddress = ''10.0.0.1:13000'', so_Compress = [], so_IsPre = True\<rparr>,
     op_Clusters := [(''dev'', zero_Cluster\<lparr>cl_Registry := addr\<rparr>)]\<rparr>"

definition demo_env :: "string \<Rightarrow> string option \<Rightarrow> start_env" where
  "demo_env addr err = \<lparr>se_open = \<lambda>_. None, se_read = \<lambda>_. Inr ''x'', se_toml = \<lambda>_. Inr (demo_conf addr),
     se_interfaces = Inr [[IPNet False (Some ''10.0.0.1'')]], se_matches = \<lambda>r ip. HasPrefix ip r,
     se_file = \<lambda>_. Inl ''none'', se_yaml = \<lambda>_. Inl ''none'', se_max_packet = 4096, se_listen = err\<rparr>"

lemma demo_loads:
  "\<exists>op serverOp. LoadConfiguration (se_open (demo_env r e)) (se_read (demo_env r e)) (se_toml (demo_env r e)) p = (op, None)
    \<and> InitServerOption (se_interfaces (demo_env r e)) (se_matches (demo_env r e)) op = Ret serverOp
    \<and> so_BindAddress (op_Server serverOp) = ''10.0.0.1:13000'' \<and> so_IsPre (op_Server serverOp)
    \<and> cl_Registry (the_cluster serverOp) = r \<and> ProcessTimeout (the_cluster op) = 5000000000"
  by (simp add: demo_env_def zero_Cluster_def or_default_def demo_conf_def LoadConfiguration_def InitServerOption_def bind_address_def usable_ip_def
      split_at_def the_cluster_def cluster_defaults_fields Let_def)

lemma pub_defaults: "service_defaults True pub_service = pub_service"
  by (simp add: service_defaults_def pub_service_def)

lemma pub_handler: "NewInvocationHandler [pub_service] st = Ret \<lparr>instances = [(''/service/lookup'', pub_service)], moaStat = st\<rparr>"
  by (simp add: NewInvocationHandler_def reflect_service_def pub_service_def)

lemma pub_center:
  "\<exists>center. (\<forall>hp. NewConfigCenter Z rf yaml ''file:///conf/a.yaml'' hp [pub_service] z = (Ret (center hp), z))
     \<and> (\<forall>hp. RegisteAllServices Z (center hp) = (Ret (), center hp))"
  by (rule exI [of _ "\<lambda>hp. \<lparr>cc_registry = FileReg \<lparr>fr_service = [''/service/lookup#a''], fr_uri2Services = [], fr_serverModel = True\<rparr>,
        cc_services = [pub_service], cc_hostport = hp\<rparr>"])
     (simp add: NewConfigCenter_def new_registry_def NewFileRegistry_def RegisteAllServices_def center_RegisteService_def
        reg_RegisteService_def file_RegisteService_def SCHEME_ZK_def SCHEME_FILE_def pub_key [unfolded key_of_def] reg_conn_def Let_def)

lemma demo_started:
  "\<exists>app z'. initApplication mem_zk (demo_env ''file:///conf/a.yaml'' None) [] ''a.toml'' [pub_service] [] = (Ret app, z')
    \<and> ProcessTimeout (the_cluster (ap_options app)) = 5000000000"
proof -
  obtain op serverOp where l: "LoadConfiguration (se_open (demo_env ''file:///conf/a.yaml'' None)) (se_read (demo_env ''file:///conf/a.yaml'' None))
      (se_toml (demo_env ''file:///conf/a.yaml'' None)) ''a.toml'' = (op, None)"
    "InitServerOption (se_interfaces (demo_env ''file:///conf/a.yaml'' None)) (se_matches (demo_env ''file:///conf/a.yaml'' None)) op = Ret serverOp"
    "so_IsPre (op_Server serverOp)" "cl_Registry (the_cluster serverOp) = ''file:///conf/a.yaml''"
    and t: "ProcessTimeout (the_cluster op) = 5000000000"
    using demo_loads by blast
  have f: "se_listen (demo_env ''file:///conf/a.yaml'' None) = None" by (simp add: demo_env_def)
  have d: "map (service_defaults (so_IsPre (op_Server serverOp))) [pub_service] = [pub_service]" using l(3) by (simp add: pub_defaults)
  obtain center where cc: "\<And>hp. NewConfigCenter mem_zk (se_file (demo_env ''file:///conf/a.yaml'' None)) (se_yaml (demo_env ''file:///conf/a.yaml'' None))
      (cl_Registry (the_cluster serverOp)) hp [pub_service] [] = (Ret (center hp), [])"
    "\<And>hp. RegisteAllServices mem_zk (center hp) = (Ret (), center hp)"
    using pub_center [of mem_zk] unfolding l(4) by blast
  have "\<exists>app z'. initApplication mem_zk (demo_env ''file:///conf/a.yaml'' None) [] ''a.toml'' [pub_service] [] = (Ret app, z')
      \<and> ap_options app = op"
    unfolding initApplication_def
    by (simp only: l(1,2) prod.case option.case go.case Let_def d cc f start_handler_def list.case pub_handler InvocationHandler.simps) simp
  with t show ?thesis by blast
qed

theorem started_application_witness:
  "\<exists>app z' h. initApplication mem_zk (demo_env ''file:///conf/a.yaml'' None) [] ''a.toml'' [pub_service] [] = (Ret app, z')
    \<and> ap_invokeHandler app = Some h \<and> fst ` set (instances h) = {''/service/lookup''}"
proof -
  obtain app z' where i: "initApplication mem_zk (demo_env ''file:///conf/a.yaml'' None) [] ''a.toml'' [pub_service] [] = (Ret app, z')"
    using demo_started by blast
  have u: "ServiceUri ` set [pub_service] = {''/service/lookup''}" by (simp add: pub_service_def)
  obtain h where "ap_invokeHandler app = Some h" "fst ` set (instances h) = ServiceUri ` set [pub_service]"
    using started_application [OF i, of KRecv 0 0 0] by (elim exE conjE) (rule that)
  with i u show ?thesis by (intro exI conjI) simp_all
qed

text \<open>
  C31: The services are published before the server listens. When listening fails, starting panics,
  and by then every service's node is in zookeeper with the address of the server that never came up.
\<close>

theorem published_before_listening:
  fixes services :: "('v, 'w) Service list"
  assumes Z: "zk_healthy Z tree"
    and load: "LoadConfiguration (se_open env) (se_read env) (se_toml env) path = (op, None)"
    and server: "InitServerOption (se_interfaces env) (se_matches env) op = Ret serverOp"
    and addr: "HasPrefix (cl_Registry (the_cluster serverOp)) SCHEME_ZK"
    and host: "host_ok (tree z) (so_BindAddress (op_Server serverOp))"
    and ss: "published_as = map (service_defaults (so_IsPre (op_Server serverOp))) services"
      "\<forall>x \<in> set published_as. publishable (so_BindAddress (op_Server serverOp)) x" "distinct (map key_of published_as)"
    and fail: "se_listen env = Some err"
  shows "\<exists>z'. initApplication Z env c path services z = (Panic err, z')
    \<and> (\<forall>s \<in> set published_as. tree z' (addr_path (key_of s) (so_BindAddress (op_Server serverOp)))
          = Some (ServiceMeta_marshal (service_meta (so_BindAddress (op_Server serverOp)) s)))"
proof -
  obtain s where "NewConfigCenter Z (se_file env) (se_yaml env) (cl_Registry (the_cluster serverOp)) (so_BindAddress (op_Server serverOp))
      published_as z = (Ret \<lparr>cc_registry = ZkReg s, cc_services = published_as, cc_hostport = so_BindAddress (op_Server serverOp)\<rparr>, zs_conn s)"
    "\<forall>x \<in> set published_as. tree (zs_conn s) (service_path (key_of x)) \<noteq> None
       \<and> tree (zs_conn s) (addr_path (key_of x) (so_BindAddress (op_Server serverOp)))
           = Some (ServiceMeta_marshal (service_meta (so_BindAddress (op_Server serverOp)) x))"
    using new_center_healthy [OF Z addr host ss(2,3), of "se_file env" "se_yaml env"] by blast
  then show ?thesis by (simp add: initApplication_def load server fail Let_def flip: ss(1))
qed

theorem published_before_listening_witness:
  "\<exists>z'. initApplication mem_zk (demo_env ''zk://zk:2181'' (Some ''address already in use'')) [] ''a.toml'' [pub_service] []
      = (Panic ''address already in use'', z')
    \<and> map_of z' (addr_path (key_of pub_service) ''10.0.0.1:13000'') \<noteq> None"
proof -
  let ?env = "demo_env ''zk://zk:2181'' (Some ''address already in use'')"
  obtain op serverOp where l: "LoadConfiguration (se_open ?env) (se_read ?env) (se_toml ?env) ''a.toml'' = (op, None)"
    "InitServerOption (se_interfaces ?env) (se_matches ?env) op = Ret serverOp"
    and b: "so_BindAddress (op_Server serverOp) = ''10.0.0.1:13000''" "so_IsPre (op_Server serverOp)"
    and a: "cl_Registry (the_cluster serverOp) = ''zk://zk:2181''"
    using demo_loads by blast
  have a': "HasPrefix (cl_Registry (the_cluster serverOp)) SCHEME_ZK" by (simp add: a SCHEME_ZK_def)
  have host: "host_ok (map_of []) (so_BindAddress (op_Server serverOp))" unfolding b using pub_ok(2) .
  have ss: "[pub_service] = map (service_defaults (so_IsPre (op_Server serverOp))) [pub_service]"
    using b(2) by (simp add: pub_defaults)
  have p: "\<forall>x \<in> set [pub_service]. publishable (so_BindAddress (op_Server serverOp)) x" "distinct (map key_of [pub_service])"
    unfolding b using pub_ok(1) by simp_all
  have f: "se_listen ?env = Some ''address already in use''" by (simp add: demo_env_def)
  from published_before_listening [OF mem_zk_healthy, OF l a' host ss p f, of "[]"] show ?thesis unfolding b by auto
qed

end
