(* ===== verification/Moa_Admin_Props.thy ===== *)
theory Moa_Admin_Props
  imports Moa_App_Props
begin

text \<open>
  The properties of what the application does beside answering requests: which call tables its timer
  forgets, in which order and how long it shuts down, what its pages send.
\<close>

section \<open>Forgetting clients\<close>

lemma delete_all: "fold AList.delete ks m = filter (\<lambda>p. fst p \<notin> set ks) m"
proof (induction ks arbitrary: m)
  case (Cons k ks)
  have "fold AList.delete (k # ks) m = filter (\<lambda>p. fst p \<notin> set ks) (AList.delete k m)" by (simp add: Cons.IH)
  also have "\<dots> = filter (\<lambda>p. fst p \<notin> set (k # ks)) m"
    by (auto simp: AList.delete_eq split_def intro: filter_cong)
  finally show ?case .
qed simp

lemma purge_table_sorted: "purge_table (sort clients) m = filter (\<lambda>p. fst p \<in> set clients) m"
proof -
  have hit: "(SearchStrings (sort clients) c = length (sort clients) \<or> sort clients ! SearchStrings (sort clients) c \<noteq> c) \<longleftrightarrow> c \<notin> set clients" for c
    using SearchStrings_hit [of "sort clients" c] by auto
  have "purge_table (sort clients) m = filter (\<lambda>p. fst p \<notin> set (filter (\<lambda>c. c \<notin> set clients) (map fst m))) m"
    unfolding purge_table_def Let_def hit delete_all ..
  also have "\<dots> = filter (\<lambda>p. fst p \<in> set clients) m" by (rule filter_cong) auto
  finally show ?thesis .
qed

lemma purge_loop_Ret:
  "purge_loop (sort clients) inst = Ret inst' \<longleftrightarrow>
     (\<forall>(uri, s) \<in> set inst. InvokesPerClient s \<noteq> None)
     \<and> inst' = map (\<lambda>(uri, s). (uri, s\<lparr>InvokesPerClient := map_option (filter (\<lambda>p. fst p \<in> set clients)) (InvokesPerClient s)\<rparr>)) inst"
  by (induction inst arbitrary: inst') (auto simp: bind_go_Ret_iff purge_table_sorted split: option.splits)

text \<open>
  C25: What the timer forgets. On a handler whose services have their call tables it returns, and then
  a client's counters are as they were when the client is connected and gone when it is not; the
  services and their methods are untouched, so the same requests are dispatched. On a handler with a
  service that has no table it panics.
\<close>

theorem purge_forgets:
  fixes h :: "('v, 'w) InvocationHandler"
  shows "if \<forall>(uri, s) \<in> set (instances h). InvokesPerClient s \<noteq> None
    then \<exists>h'. purge clients h = Ret h' \<and> moaStat h' = moaStat h
      \<and> handler_flow (instances h') (uri, client, name)
          = (if client \<in> set clients then handler_flow (instances h) (uri, client, name) else [])
      \<and> dispatch c (instances h') req = dispatch c (instances h) req
      \<and> map fst (instances h') = map fst (instances h)
    else panics (purge clients h)"
proof (cases "\<forall>(uri, s) \<in> set (instances h). InvokesPerClient s \<noteq> None")
  case True
  let ?f = "\<lambda>s. s\<lparr>InvokesPerClient := map_option (filter (\<lambda>p. fst p \<in> set clients)) (InvokesPerClient s)\<rparr>"
  let ?inst = "map (\<lambda>(uri, s). (uri, ?f s)) (instances h)"
  have p: "purge clients h = Ret (h\<lparr>instances := ?inst\<rparr>)"
    using True purge_loop_Ret [of clients "instances h" ?inst] by (simp add: purge_def)
  have m: "map_of ?inst u = map_option ?f (map_of (instances h) u)" for u
    by (rule map_of_map_snd [of "\<lambda>k. ?f"])
  have f: "map_of (filter (\<lambda>p. fst p \<in> set clients) t) k = (if k \<in> set clients then map_of t k else None)" for t :: invokes and k
    using map_of_filter_key [of "\<lambda>k. k \<in> set clients" t k] by (simp add: split_def)
  have "handler_flow ?inst (uri, client, name) = (if client \<in> set clients then handler_flow (instances h) (uri, client, name) else [])"
    by (simp add: handler_flow_def counter_at_def m f split: option.split)
  moreover have "dispatch c ?inst req = dispatch c (instances h) req"
    by (simp add: dispatch_def m split: option.split)
  ultimately show ?thesis using True by (simp add: p split_def)
next
  case False
  have "\<nexists>inst'. purge_loop (sort clients) (instances h) = Ret inst'"
    using False purge_loop_Ret [of clients "instances h"] by blast
  then have "panics (purge clients h)"
    by (cases "purge_loop (sort clients) (instances h)") (simp_all add: purge_def)
  then show ?thesis unfolding if_not_P [OF False] .
qed

theorem purge_forgets_witness:
  "\<exists>h'. purge [''10.0.0.2:7''] demo_handler = Ret h' \<and> dispatch [] (instances h') (demo_req ''none'' []) = NoMethod"
proof -
  have "\<forall>(uri, s) \<in> set (instances demo_handler). InvokesPerClient s \<noteq> None" by (simp add: demo_handler_def)
  then obtain h' where "purge [''10.0.0.2:7''] demo_handler = Ret h'"
    "dispatch [] (instances h') (demo_req ''none'' []) = dispatch [] (instances demo_handler) (demo_req ''none'' [])"
    using purge_forgets [of demo_handler "[''10.0.0.2:7'']" "[]" "[]" "[]" "[]" "demo_req ''none'' []"] by auto
  then show ?thesis by (simp add: demo_dispatch)
qed

section \<open>Shutting down\<close>

lemma wait_loop_sleeps:
  "n \<le> 9 \<Longrightarrow> \<exists>k \<le> 9 - n. wait_loop conns n = replicate k (Sleep time_Second)
    \<and> (\<forall>i < k. conns (n + i) \<noteq> 0) \<and> (n + k < 9 \<longrightarrow> conns (n + k) = 0)"
proof (induction conns n rule: wait_loop.induct)
  case (1 conns n)
  show ?case
  proof (cases "n < 9 \<and> conns n \<noteq> 0")
    case True
    then obtain k where k: "k \<le> 9 - Suc n" "wait_loop conns (Suc n) = replicate k (Sleep time_Second)"
      "\<forall>i < k. conns (Suc n + i) \<noteq> 0" "Suc n + k < 9 \<longrightarrow> conns (Suc n + k) = 0"
      using 1 by auto
    have "conns (n + i) \<noteq> 0" if "i < Suc k" for i using that True k(3) by (cases i) auto
    with True k show ?thesis by (intro exI [of _ "Suc k"]) (auto simp: wait_loop.simps [of conns n])
  next
    case False
    then show ?thesis by (intro exI [of _ 0]) (auto simp: wait_loop.simps [of conns n])
  qed
qed

text \<open>
  C24: The order of a shutdown and its time. When withdrawing the services returns, they are withdrawn
  before anything else; then it sleeps whole seconds, as many as the number of checks before the
  first that sees no connection, and never more than nine; only then the context is cancelled, and
  after half a second the server is shut down and the collectors are unregistered. A panic of the
  registry ends it before any of this.
\<close>

theorem shutdown_order:
  fixes app :: "('v, 'w, 'z) Application"
  assumes h: "ap_invokeHandler app = Some h"
  shows "case center_Destroy Z (ap_configCenter app) of
      (Panic e, c) \<Rightarrow> DestroyApplication Z conns app = (Panic e, app\<lparr>ap_configCenter := c\<rparr>)
    | (Ret u, c) \<Rightarrow> \<exists>k app'. k \<le> 9 \<and> (\<forall>i < k. conns i \<noteq> 0) \<and> (k < 9 \<longrightarrow> conns k = 0) \<and> ap_configCenter app' = c
        \<and> DestroyApplication Z conns app =
           (Ret (Withdrawn # replicate k (Sleep 1000000000)
              @ [Stop, Sleep 500000000, Shutdown, StatDestroyed (map Unregister (cllectors (metrics (moaStat h))))]), app')"
proof (cases "center_Destroy Z (ap_configCenter app)")
  case (Pair r c)
  show ?thesis
  proof (cases r)
    case (Ret u)
    obtain k where "k \<le> 9" "wait_loop conns 0 = replicate k (Sleep time_Second)"
      "\<forall>i < k. conns i \<noteq> 0" "k < 9 \<longrightarrow> conns k = 0"
      using wait_loop_sleeps [of 0 conns] by auto
    then show ?thesis
      by (auto simp: Pair Ret DestroyApplication_def h StatDestroy_def Let_def intro!: exI [of _ k])
  qed (simp add: Pair DestroyApplication_def)
qed

theorem shutdown_order_witness:
  "\<exists>k app'. k \<le> 9 \<and> DestroyApplication mem_zk (\<lambda>i. if i < 2 then 1 else 0)
      (demo_app\<lparr>ap_configCenter := \<lparr>cc_registry = FileReg \<lparr>fr_service = [], fr_uri2Services = [], fr_serverModel = True\<rparr>,
         cc_services = [], cc_hostport = []\<rparr>\<rparr>)
     = (Ret (Withdrawn # replicate k (Sleep 1000000000)
          @ [Stop, Sleep 500000000, Shutdown, StatDestroyed (map Unregister collector_names)]), app')"
proof -
  let ?c = "\<lparr>cc_registry = FileReg \<lparr>fr_service = [], fr_uri2Services = [], fr_serverModel = True\<rparr>,
         cc_services = [], cc_hostport = []\<rparr> :: (string, nat, (string, string) gomap) ConfigCenter"
  have h: "ap_invokeHandler (demo_app\<lparr>ap_configCenter := ?c\<rparr>) = Some demo_handler" by (simp add: demo_app_def)
  have d: "center_Destroy mem_zk ?c = (Ret (), ?c)" by (simp add: center_Destroy_def reg_Destroy_def file_Destroy_def)
  have m: "cllectors (metrics (moaStat demo_handler)) = collector_names" by (simp add: demo_handler_def NewMoaStat_def)
  show ?thesis
    using shutdown_order [OF h, where Z = mem_zk and conns = "\<lambda>i. if i < 2 then 1 else 0"] by (auto simp: d m)
qed

section \<open>Pages\<close>

text \<open>
  What \<^verbatim>\<open>net/http\<close> sends: the first status wins, writing a body first sets 200, and headers set after
  that are not sent. The state is the headers set, the status and headers sent, and the body.
\<close>

record http_response =
  hr_status :: nat
  hr_headers :: "(string, string) gomap"
  hr_body :: string

fun http_step :: "http_call \<Rightarrow> (string, string) gomap \<times> http_response option
    \<Rightarrow> ((string, string) gomap \<times> http_response option) option" where
  "http_step (WriteHeader n) (hs, None) = Some (hs, Some \<lparr>hr_status = n, hr_headers = hs, hr_body = []\<rparr>)"
| "http_step (WriteHeader n) (hs, Some r) = Some (hs, Some r)"
| "http_step (SetHeader k v) (hs, r) = Some (AList.update k v hs, r)"
| "http_step (Body b) (hs, None) = Some (hs, Some \<lparr>hr_status = 200, hr_headers = hs, hr_body = b\<rparr>)"
| "http_step (Body b) (hs, Some r) = Some (hs, Some (r\<lparr>hr_body := hr_body r @ b\<rparr>))"
| "http_step Template st = None"
| "http_step (Delegate x) st = None"

fun http_run :: "http_call list \<Rightarrow> (string, string) gomap \<times> http_response option \<Rightarrow> http_response option" where
  "http_run [] (hs, r) = r"
| "http_run (c # cs) st = Option.bind (http_step c st) (http_run cs)"

text \<open>The JSON document of a page, by the request's URI; \<open>None\<close> for the URIs that have none.\<close>

definition page_json :: "(flow \<Rightarrow> int) \<Rightarrow> (string \<Rightarrow> string) \<Rightarrow> string list \<Rightarrow> ('v, 'w) InvocationHandler \<Rightarrow> string \<Rightarrow> json go option" where
  "page_json cnt form clients h path =
     (if HasPrefix path ''/stat'' then Some (Ret (MoaInfo_json (preMoaInfo (moaStat h))))
      else if HasPrefix path ''/list/clients'' then Some (Ret (JArr (map JStr clients)))
      else if HasPrefix path ''/list/services'' then Some (Ret (JArr (map (JStr \<circ> fst) (instances h))))
      else if HasPrefix path ''/list/methods'' then
        Some (if form ''service'' = [] then Ret (JObj [])
              else bind_go (ListInvokes cnt h (form ''service'')) (\<lambda>l. Ret (JArr (map InvokePerClient_json l))))
      else None)"

lemma json_page_sent: "http_run (json_page b) ([], None) = Some \<lparr>hr_status = 200, hr_headers = [], hr_body = b\<rparr>"
  by (simp add: json_page_def)

lemma debug_prefix:
  "HasPrefix (''/debug/moa'' @ path) ''/debug/moa''" "TrimPrefix (''/debug/moa'' @ path) ''/debug/moa'' = path"
  "HasPrefix (''/debug/moa'' @ path) (''/debug/moa'' @ q) = HasPrefix path q"
  using HasPrefix_append_same [of "''/debug/moa''"] TrimPrefix_append [of "''/debug/moa''"]
  by (simp_all add: HasPrefix_append)

text \<open>
  C40: What a page under \<^verbatim>\<open>/debug/moa/\<close> sends: the JSON document of its prefix with status 200, and 404
  without a body for any other path; the \<^verbatim>\<open>Content-Type\<close> the code sets is never sent, because it is
  set after the status. Only the page of call counts can panic, when the service has no call table.
\<close>

theorem pages_sent:
  fixes h :: "('v, 'w) InvocationHandler"
  assumes "path \<noteq> []"
  shows "case page_json cnt form clients h path of
      None \<Rightarrow> \<exists>calls. ServeHTTP cnt form fails clients h (''/debug/moa'' @ path) = Ret calls
        \<and> http_run calls ([], None) = Some \<lparr>hr_status = 404, hr_headers = [], hr_body = []\<rparr>
    | Some (Panic e) \<Rightarrow> ServeHTTP cnt form fails clients h (''/debug/moa'' @ path) = Panic e
        \<and> ListInvokes cnt h (form ''service'') = Panic e
    | Some (Ret j) \<Rightarrow> \<exists>calls. ServeHTTP cnt form fails clients h (''/debug/moa'' @ path) = Ret calls
        \<and> SetHeader ''Content-Type'' ''text/json'' \<in> set calls
        \<and> http_run calls ([], None) = Some \<lparr>hr_status = 200, hr_headers = [], hr_body = json_print j\<rparr>"
proof -
  let ?u = "''/debug/moa'' @ path"
  have p: "HasPrefix ?u ''/debug/moa/stat'' = HasPrefix path ''/stat''"
    "HasPrefix ?u ''/debug/moa/list/clients'' = HasPrefix path ''/list/clients''"
    "HasPrefix ?u ''/debug/moa/list/services'' = HasPrefix path ''/list/services''"
    "HasPrefix ?u ''/debug/moa/list/methods'' = HasPrefix path ''/list/methods''"
    using debug_prefix(3) [of path "''/stat''"] debug_prefix(3) [of path "''/list/clients''"]
      debug_prefix(3) [of path "''/list/services''"] debug_prefix(3) [of path "''/list/methods''"] by simp_all
  have c: "SetHeader ''Content-Type'' ''text/json'' \<in> set (json_page b)" for b by (simp add: json_page_def)
  have e: "json_print (JObj []) = ''{}''" by simp
  show ?thesis
    using assms
    by (cases "ListInvokes cnt h (form ''service'')")
       (auto simp: ServeHTTP_def page_json_def debug_prefix(2) [simplified] p json_page_sent c e GetMoaInfo_def Let_def simp del: json_print.simps)
qed

theorem pages_sent_witness:
  "\<exists>calls. ServeHTTP (\<lambda>_. 0) (\<lambda>_. []) False [] demo_handler (''/debug/moa'' @ ''/list/clients'') = Ret calls
    \<and> http_run calls ([], None) = Some \<lparr>hr_status = 200, hr_headers = [], hr_body = ''[]''\<rparr>"
proof -
  have p: "''/list/clients'' \<noteq> []" by simp
  have j: "page_json (\<lambda>_. 0) (\<lambda>_. []) [] demo_handler ''/list/clients'' = Some (Ret (JArr []))"
    by (simp add: page_json_def)
  show ?thesis using pages_sent [OF p, where cnt = "\<lambda>_. 0" and form = "\<lambda>_. []" and clients = "[]" and h = demo_handler and fails = False]
    unfolding j by auto
qed

text \<open>Every page the index lists is the index, the metrics, or a page with a document.\<close>

lemma profiles_served:
  "\<forall>p \<in> set profiles. Href p = ''/debug/moa'' \<or> Href p = ''/metrics''
     \<or> (\<exists>path. Href p = ''/debug/moa'' @ path \<and> page_json cnt form clients h path \<noteq> None)"
  by (simp add: profiles_def page_json_def)

end
