(* ===== verification/Moa_Stat_Props.thy ===== *)
theory Moa_Stat_Props
  imports Moa_Stat_Laws
begin

text \<open>
  The statistics over a run: increments from the invocations interleaved in any order with rounds of
  the ticker. Nothing is lost or reported twice, the prometheus counters agree with the flows, the
  log header comes every eleventh round, and destroying unregisters what was registered.
\<close>

section \<open>Runs\<close>

text \<open>
  An event is an increment made by an invocation or a tick. The goroutine of \<^verbatim>\<open>StartLog\<close> takes ticks
  until a round panics; increments go on. \<open>alive\<close> says whether the goroutine still runs.
\<close>

datatype stat_event = Count stat_key | Tick tick_env

fun run_stat :: "(flow \<Rightarrow> int) \<Rightarrow> stat_event list \<Rightarrow> bool \<Rightarrow> MoaStat \<Rightarrow> MoaStat \<times> tick_out list" where
  "run_stat changes [] alive s = (s, [])"
| "run_stat changes (Count k # es) alive s = run_stat changes es alive (stat_incr k s)"
| "run_stat changes (Tick e # es) alive s =
     (if alive then
        (case stat_tick changes e s of (s1, out) \<Rightarrow>
           (case run_stat changes es (\<not> tick_panics e) s1 of (s2, outs) \<Rightarrow> (s2, out # outs)))
      else run_stat changes es alive s)"

lemma run_stat_ticks: "run_stat changes (map Tick es) False s = (s, [])"
  by (induction es) simp_all

lemma run_ticks_stat: "run_stat changes (map Tick es) True s = run_ticks changes es s"
  by (induction es arbitrary: s) (auto simp: run_stat_ticks split: prod.split)

primrec info_count :: "stat_key \<Rightarrow> MoaInfo \<Rightarrow> int" where
  "info_count KRecv i = mi_Recv i"
| "info_count KProc i = mi_Proc i"
| "info_count KError i = mi_Error i"
| "info_count KTimeout i = mi_Timeout i"

definition reported_by :: "stat_key \<Rightarrow> tick_out \<Rightarrow> int" where
  "reported_by k out = (case to_monitor out of None \<Rightarrow> 0 | Some (uri, host, i) \<Rightarrow> info_count k i)"

text \<open>What a flow has gained since its last \<^verbatim>\<open>Changes()\<close>, which by its documentation is what that call returns.\<close>

fun since_changes :: "flow \<Rightarrow> int" where
  "since_changes [] = 0"
| "since_changes (Incr n # f) = (if Changes \<in> set f then since_changes f else n + since_changes f)"
| "since_changes (Changes # f) = since_changes f"

lemma since_changes_Incr: "since_changes (f @ [Incr n]) = since_changes f + n"
  by (induction f rule: since_changes.induct) auto

lemma since_changes_Changes: "since_changes (f @ [Changes]) = 0"
  by (induction f rule: since_changes.induct) auto

lemma stat_flow_simple:
  "currMoaInfo s' = currMoaInfo s \<Longrightarrow> stat_flow s' k = stat_flow s k"
  by (cases k) (simp_all add: stat_flow.simps)

lemma stat_flow_tick:
  "stat_flow (fst (stat_tick changes e s)) k =
     (if panics (te_network e) then stat_flow s k else stat_flow s k @ [Changes])"
  by (cases k; cases "te_network e")
     (simp_all add: stat_flow.simps stat_tick_def tick_recover_def StatDestroy_def upd_metrics_def take_changes_def Let_def split: prod.split go.split)

lemma reported_tick:
  "reported_by k (snd (stat_tick changes e s)) = (if panics (te_network e) then 0 else changes (stat_flow s k))"
  by (cases k; cases "te_network e")
     (simp_all add: stat_flow.simps reported_by_def stat_tick_def tick_recover_def StatDestroy_def Let_def split: prod.split go.split)

lemma run_stat_conserves:
  assumes law: "\<And>f. changes f = since_changes f"
  shows "run_stat changes es alive s = (s', outs) \<Longrightarrow>
    sum_list (map (reported_by k) outs) + since_changes (stat_flow s' k)
      = since_changes (stat_flow s k) + int (length (filter ((=) (Count k)) es))"
proof (induction es arbitrary: alive s outs)
  case Nil
  then show ?case by simp
next
  case (Cons e es)
  show ?case
  proof (cases e)
    case (Count k')
    with Cons.prems Cons.IH [of alive "stat_incr k' s"] show ?thesis
      using stat_counter.flow_at_bump [where s = s and k = k' and k' = k] by (auto simp: since_changes_Incr)
  next
    case (Tick x)
    obtain s1 out where t: "stat_tick changes x s = (s1, out)" by (cases "stat_tick changes x s")
    obtain s2 os where r: "run_stat changes es (\<not> tick_panics x) s1 = (s2, os)"
      by (cases "run_stat changes es (\<not> tick_panics x) s1")
    show ?thesis
    proof (cases alive)
      case True
      then have eqs: "s' = s2" "outs = out # os" using Cons.prems t r by (simp_all add: Tick)
      have "sum_list (map (reported_by k) os) + since_changes (stat_flow s2 k)
        = since_changes (stat_flow s1 k) + int (length (filter ((=) (Count k)) es))"
        using Cons.IH r eqs(1) by blast
      then show ?thesis
        using stat_flow_tick [of changes x s k] reported_tick [of k changes x s]
        by (simp add: Tick t eqs law since_changes_Changes split: if_splits)
    next
      case False
      with Cons show ?thesis by (simp add: Tick)
    qed
  qed
qed


section \<open>Collectors and prometheus counters\<close>

primrec prom_counter :: "stat_key \<Rightarrow> MoaStat \<Rightarrow> nat" where
  "prom_counter KRecv s = RpcReceiveTotalCounter (metrics s)"
| "prom_counter KProc s = RpcProcessTotalCounter (metrics s)"
| "prom_counter KError s = RpcErrorTotalCounter (metrics s)"
| "prom_counter KTimeout s = RpcTimeoutTotalCounter (metrics s)"

lemma prom_counter_incr: "prom_counter k (stat_incr k' s) = (if k = k' then Suc else id) (prom_counter k s)"
  by (cases k; cases k') (simp_all add: IncrRecv_def IncrProc_def IncrError_def IncrTimeout_def upd_metrics_def)

lemma cllectors_incr: "cllectors (metrics (stat_incr k s)) = cllectors (metrics s)"
  by (cases k) (simp_all add: IncrRecv_def IncrProc_def IncrError_def IncrTimeout_def upd_metrics_def)

text \<open>The line of a round, spelled out.\<close>

definition log_line :: "MoaInfo \<Rightarrow> int \<times> int \<Rightarrow> NetworkStat \<Rightarrow> string" where
  "log_line i pool n =
     dec_int (mi_Recv i) @ '' '' @ dec_int (mi_Proc i) @ '' '' @ dec_int (mi_Error i) @ '' '' @ dec_int (mi_Timeout i)
     @ '' '' @ dec_int (fst pool) @ ''/'' @ dec_int (snd pool)
     @ '' R:'' @ dec_int (ns_ReadBytes n sdiv 1024) @ ''KB/'' @ dec_int (ns_ReadCount n)
     @ '' W:'' @ dec_int (ns_WriteBytes n sdiv 1024) @ ''KB/'' @ dec_int (ns_WriteCount n)
     @ '' Go:'' @ dec_int (ns_DisPoolSize n) @ ''/'' @ dec_int (ns_DisPoolCap n)
     @ '' CONN:'' @ dec_int (ns_Connections n)"

lemma info_line_log: "info_line i a b (network_line n) = log_line i (a, b) n"
  by (simp add: info_line_def network_line_def log_line_def)

text \<open>What a round that does not fail reports and logs.\<close>

definition round_ok :: "string \<Rightarrow> string \<Rightarrow> bool \<Rightarrow> tick_env \<Rightarrow> tick_out \<Rightarrow> bool" where
  "round_ok uri host header e out \<longleftrightarrow>
     (\<exists>n info. te_network e = Ret n \<and> to_monitor out = Some (uri, host, info)
        \<and> mi_MoaInvokePool info = fst (te_pool e) \<and> mi_Connections info = ns_Connections n
        \<and> mi_TotalGoroutine info = te_goroutines e
        \<and> to_log out = (if header then [''REV PROC ERROR TIMEOUT Goroutine NetWork''] else []) @ [log_line info (te_pool e) n])"

lemma tick_ok:
  assumes "\<not> tick_panics e"
  shows "round_ok (serviceUri s) (hostname s) (RotateSize s = 10) e (snd (stat_tick changes e s))"
    and "RotateSize (fst (stat_tick changes e s)) = (if RotateSize s = 10 then 0 else RotateSize s + 1)"
    and "serviceUri (fst (stat_tick changes e s)) = serviceUri s" "hostname (fst (stat_tick changes e s)) = hostname s"
  using assms by (cases "te_network e"; cases "te_monitor e";
      simp add: tick_panics_def stat_tick_def round_ok_def info_line_log rotate_header_def upd_metrics_def Let_def MAX_ROTATE_SIZE_def split: prod.split)+

lemma tick_panic:
  assumes "tick_panics e"
  shows "MoaTicker (fst (stat_tick changes e s)) = map_option (\<lambda>_. False) (MoaTicker s)"
    and "to_monitor (snd (stat_tick changes e s)) = None \<longleftrightarrow> panics (te_network e)"
    and "to_prom (snd (stat_tick changes e s)) = map Unregister (cllectors (metrics s))"
  using assms by (cases "te_network e"; cases "te_monitor e";
      simp add: tick_panics_def stat_tick_def tick_recover_def StatDestroy_def upd_metrics_def Let_def split: prod.split)+

lemma metrics_tick:
  "cllectors (metrics (fst (stat_tick changes e s))) = cllectors (metrics s)"
  "prom_counter k (fst (stat_tick changes e s)) = prom_counter k s"
  by (cases "te_network e"; cases "te_monitor e"; cases k;
      simp add: stat_tick_def tick_recover_def upd_metrics_def StatDestroy_def Let_def split: prod.split)+

lemma run_stat_metrics:
  "run_stat changes es alive s = (s', outs) \<Longrightarrow> cllectors (metrics s') = cllectors (metrics s)
     \<and> prom_counter k s' = prom_counter k s + length (filter ((=) (Count k)) es)"
proof (induction es arbitrary: alive s outs)
  case Nil
  then show ?case by simp
next
  case (Cons e es)
  show ?case
  proof (cases e)
    case (Count k')
    with Cons.prems Cons.IH [of alive "stat_incr k' s"] show ?thesis
      by (simp add: prom_counter_incr cllectors_incr)
  next
    case (Tick x)
    then show ?thesis
      using Cons.prems Cons.IH metrics_tick [where changes = changes and e = x and s = s]
      by (fastforce split: if_splits prod.splits)
  qed
qed

section \<open>Properties\<close>

text \<open>
  C26: Nothing is lost or reported twice. From a new statistics object, however increments and
  ticks interleave and even when the ticker dies, each counter's total is the sum of what the rounds
  reported to the monitor and what the flow has gained since the last round, and the prometheus
  counter is that total.
\<close>

theorem stat_totals:
  assumes law: "\<And>f. changes f = since_changes f"
    and run: "run_stat changes es True (fst (NewMoaStat host uri)) = (s', outs)"
  shows "int (prom_counter k s') = sum_list (map (reported_by k) outs) + since_changes (stat_flow s' k)
    \<and> prom_counter k s' = length (filter ((=) (Count k)) es)"
proof -
  have "stat_flow (fst (NewMoaStat host uri)) k = []" "prom_counter k (fst (NewMoaStat host uri)) = 0"
    by (cases k; simp add: stat_flow.simps NewMoaStat_def)+
  with run_stat_conserves [OF law run, of k] run_stat_metrics [OF run, of k] show ?thesis by simp
qed

definition one_tick :: tick_env where
  "one_tick = \<lparr>te_network = Ret \<lparr>ns_ReadBytes = 2048, ns_ReadCount = 2, ns_WriteBytes = 0, ns_WriteCount = 0,
     ns_DisPoolSize = 1, ns_DisPoolCap = 8, ns_Connections = 3\<rparr>, te_pool = (1, 8), te_goroutines = 12, te_monitor = Ret ()\<rparr>"

theorem stat_totals_witness:
  "\<exists>s' outs. run_stat since_changes [Count KRecv, Tick one_tick, Count KRecv, Count KProc] True (fst (NewMoaStat ''h'' ''u'')) = (s', outs)
     \<and> sum_list (map (reported_by KRecv) outs) + since_changes (stat_flow s' KRecv) = 2"
proof -
  obtain s' outs where r: "run_stat since_changes [Count KRecv, Tick one_tick, Count KRecv, Count KProc] True (fst (NewMoaStat ''h'' ''u'')) = (s', outs)"
    by (metis surj_pair)
  show ?thesis using r stat_totals [OF refl r, of KRecv] by simp
qed

lemma rotate_step:
  assumes "RotateSize s = of_nat r" "r \<le> 10" "\<not> tick_panics e"
  shows "RotateSize (fst (stat_tick changes e s)) = of_nat (Suc r mod 11)"
    and "round_ok (serviceUri s) (hostname s) (r = 10) e (snd (stat_tick changes e s))"
proof -
  have "(of_nat r :: i32) = 10 \<longleftrightarrow> r = 10"
    using assms(2) by (auto simp: word_unat_eq_iff unat_of_nat take_bit_nat_eq_self)
  with tick_ok(1,2) [OF assms(3), where s = s and changes = changes] assms(1,2)
  show "RotateSize (fst (stat_tick changes e s)) = of_nat (Suc r mod 11)"
    and "round_ok (serviceUri s) (hostname s) (r = 10) e (snd (stat_tick changes e s))"
    by (auto simp: add.commute)
qed

lemma run_ticks_rotate:
  "RotateSize s = of_nat r \<Longrightarrow> r \<le> 10 \<Longrightarrow> \<forall>e \<in> set es. \<not> tick_panics e \<Longrightarrow>
   run_ticks changes es s = (s', outs) \<Longrightarrow>
   RotateSize s' = of_nat ((r + length es) mod 11) \<and> length outs = length es \<and>
   (\<forall>i < length es. round_ok (serviceUri s) (hostname s) ((r + i) mod 11 = 10) (es ! i) (outs ! i))"
proof (induction es arbitrary: s r outs)
  case Nil
  then show ?case by simp
next
  case (Cons e es)
  obtain s1 out where t: "stat_tick changes e s = (s1, out)" by (cases "stat_tick changes e s")
  obtain s2 os where rt: "run_ticks changes es s1 = (s2, os)" by (cases "run_ticks changes es s1")
  have e: "\<not> tick_panics e" using Cons.prems by simp
  have eqs: "s' = s2" "outs = out # os" using Cons.prems t rt e by simp_all
  have r1: "RotateSize s1 = of_nat (Suc r mod 11)" "round_ok (serviceUri s) (hostname s) (r mod 11 = 10) e out"
    using rotate_step [OF Cons.prems(1,2) e, of changes] Cons.prems(2) by (simp_all add: t)
  have names: "serviceUri s1 = serviceUri s" "hostname s1 = hostname s" using tick_ok(3,4) [OF e, where s = s and changes = changes] by (simp_all add: t)
  have m: "(Suc r mod 11 + i) mod 11 = (r + Suc i) mod 11" for i by (simp add: mod_add_left_eq)
  have "RotateSize s' = of_nat ((Suc r mod 11 + length es) mod 11) \<and> length os = length es \<and>
    (\<forall>i < length es. round_ok (serviceUri s) (hostname s) ((Suc r mod 11 + i) mod 11 = 10) (es ! i) (os ! i))"
    using Cons.IH [OF r1(1) _ _ rt [folded eqs(1)]] Cons.prems(3) by (simp add: names)
  then show ?case
    unfolding m using r1(2) by (simp add: eqs(2) All_less_Suc2)
qed

text \<open>
  C38: What the ticker logs. From a new statistics object, when no round fails, every round reports to
  the monitor the pool's size, the connections and the goroutines it read, and logs one line: the four
  counts it reports, the pool, the network's numbers. Before it, exactly in the rounds \<open>i\<close> (from 0) with
  \<open>i mod 11 = 10\<close>, it logs the header, and nothing else; after \<open>n\<close> rounds \<^verbatim>\<open>RotateSize\<close> is \<open>n mod 11\<close>, never
  above \<^verbatim>\<open>MAX_ROTATE_SIZE\<close>. (The header says \<^verbatim>\<open>REV\<close> where the first one, of \<^verbatim>\<open>StartLog\<close>, says \<^verbatim>\<open>RECV\<close>.)
\<close>

theorem header_every_eleventh:
  assumes "run_ticks changes es (fst (NewMoaStat host uri)) = (s', outs)"
    and "\<forall>e \<in> set es. \<not> tick_panics e"
  shows "RotateSize s' = of_nat (length es mod 11) \<and> length outs = length es
    \<and> (\<forall>i < length es. \<exists>n info. te_network (es ! i) = Ret n \<and> to_monitor (outs ! i) = Some (uri, host, info)
          \<and> mi_MoaInvokePool info = fst (te_pool (es ! i)) \<and> mi_Connections info = ns_Connections n
          \<and> mi_TotalGoroutine info = te_goroutines (es ! i)
          \<and> to_log (outs ! i) = (if i mod 11 = 10 then [''REV PROC ERROR TIMEOUT Goroutine NetWork''] else [])
                @ [log_line info (te_pool (es ! i)) n])"
  using run_ticks_rotate [of "fst (NewMoaStat host uri)" 0 es changes s' outs] assms
  by (simp add: NewMoaStat_def round_ok_def)

theorem header_every_eleventh_witness:
  "\<exists>s' outs. run_ticks since_changes (replicate 12 one_tick) (fst (NewMoaStat ''h'' ''u'')) = (s', outs)
     \<and> RotateSize s' = 1 \<and> (\<exists>info :: MoaInfo. to_log (outs ! 10) = [''REV PROC ERROR TIMEOUT Goroutine NetWork'',
         dec_int (mi_Recv info) @ '' '' @ dec_int (mi_Proc info) @ '' '' @ dec_int (mi_Error info) @ '' '' @ dec_int (mi_Timeout info)
         @ '' 1/8 R:2KB/2 W:0KB/0 Go:1/8 CONN:3''])"
proof -
  obtain s' outs where r: "run_ticks since_changes (replicate 12 one_tick) (fst (NewMoaStat ''h'' ''u'')) = (s', outs)"
    by (metis surj_pair)
  have "\<forall>e \<in> set (replicate 12 one_tick). \<not> tick_panics e" by (simp add: one_tick_def tick_panics_def)
  note h = header_every_eleventh [OF r this]
  have s': "RotateSize s' = 1" using h by simp
  have t: "replicate 12 one_tick ! 10 = one_tick" by (rule nth_replicate) simp
  obtain n info where n: "te_network one_tick = Ret n"
    "to_log (outs ! 10) = [''REV PROC ERROR TIMEOUT Goroutine NetWork'', log_line info (te_pool one_tick) n]"
    using h [THEN conjunct2, THEN conjunct2, rule_format, of 10, unfolded t] by auto
  have d: "dec_int 1 = ''1''" "dec_int 8 = ''8''" "dec_int 2 = ''2''" "dec_int 0 = ''0''" "dec_int 3 = ''3''" by code_simp+
  have "log_line info (te_pool one_tick) n = dec_int (mi_Recv info) @ '' '' @ dec_int (mi_Proc info) @ '' ''
      @ dec_int (mi_Error info) @ '' '' @ dec_int (mi_Timeout info) @ '' 1/8 R:2KB/2 W:0KB/0 Go:1/8 CONN:3''"
    using n(1) by (auto simp: one_tick_def log_line_def d signed_divide_int_def)
  with n(2) have "\<exists>info :: MoaInfo. to_log (outs ! 10) = [''REV PROC ERROR TIMEOUT Goroutine NetWork'',
      dec_int (mi_Recv info) @ '' '' @ dec_int (mi_Proc info) @ '' '' @ dec_int (mi_Error info) @ '' '' @ dec_int (mi_Timeout info)
      @ '' 1/8 R:2KB/2 W:0KB/0 Go:1/8 CONN:3'']" by (intro exI [of _ info]) simp
  with r s' show ?thesis by blast
qed

lemma run_ticks_append:
  "\<forall>e \<in> set es. \<not> tick_panics e \<Longrightarrow>
   run_ticks changes (es @ es') s =
     (case run_ticks changes es s of (s1, outs) \<Rightarrow> (case run_ticks changes es' s1 of (s2, outs') \<Rightarrow> (s2, outs @ outs')))"
  by (induction es arbitrary: s) (auto split: prod.split)

lemma run_ticks_length:
  "\<forall>e \<in> set es. \<not> tick_panics e \<Longrightarrow> length (snd (run_ticks changes es s)) = length es"
  by (induction es arbitrary: s) (auto simp: case_prod_beta)

text \<open>
  C39: A round that panics ends the ticker, whether it is the network statistics or the monitor that
  panics: in the first case it reports nothing, in both the ticker is stopped, every collector that was
  registered is unregistered (and nothing else), and no later round happens.
\<close>

theorem ticker_panic_destroys:
  assumes run: "run_ticks changes (es @ e # later) (fst (StartLog (fst (NewMoaStat host uri)))) = (s', outs)"
    and ok: "\<forall>x \<in> set es. \<not> tick_panics x" and p: "tick_panics e"
  shows "length outs = Suc (length es) \<and> (to_monitor (last outs) = None \<longleftrightarrow> panics (te_network e))
    \<and> MoaTicker s' \<noteq> Some True
    \<and> map Register (map (\<lambda>c. case c of Unregister n \<Rightarrow> n | Register n \<Rightarrow> n) (to_prom (last outs))) = snd (NewMoaStat host uri)
    \<and> to_prom (last outs) = map Unregister collector_names"
proof -
  let ?s = "fst (StartLog (fst (NewMoaStat host uri)))"
  obtain s1 os where r1: "run_ticks changes es ?s = (s1, os)" by (cases "run_ticks changes es ?s")
  have "run_stat changes (map Tick es) True ?s = (s1, os)" by (simp add: run_ticks_stat r1)
  from run_stat_metrics [OF this] have c: "cllectors (metrics s1) = collector_names"
    by (simp add: StartLog_def NewMoaStat_def)
  have l: "length os = length es" using run_ticks_length [OF ok, of changes ?s] by (simp add: r1)
  have "s' = fst (stat_tick changes e s1)" "outs = os @ [snd (stat_tick changes e s1)]"
    using run p by (auto simp: run_ticks_append [OF ok] r1 split: prod.splits)
  with tick_panic [OF p, of changes s1] c l show ?thesis
    by (simp add: NewMoaStat_def o_def)
qed

theorem ticker_panic_destroys_witness:
  "\<exists>s' outs. run_ticks since_changes ([one_tick] @ one_tick\<lparr>te_network := Panic ''closed''\<rparr> # [one_tick])
       (fst (StartLog (fst (NewMoaStat ''h'' ''u'')))) = (s', outs)
     \<and> length outs = 2 \<and> to_prom (last outs) = map Unregister collector_names"
proof -
  obtain s' outs where r: "run_ticks since_changes ([one_tick] @ one_tick\<lparr>te_network := Panic ''closed''\<rparr> # [one_tick])
       (fst (StartLog (fst (NewMoaStat ''h'' ''u'')))) = (s', outs)"
    by (metis surj_pair)
  have "\<forall>x \<in> set [one_tick]. \<not> tick_panics x" "tick_panics (one_tick\<lparr>te_network := Panic ''closed''\<rparr>)"
    by (simp_all add: one_tick_def tick_panics_def)
  from ticker_panic_destroys [OF r this] r show ?thesis by simp
qed

end
