(* ===== verification/Moa_System.thy ===== *)
theory Moa_System
  imports Moa_Admin_Props Moa_Stat_Props "HOL-Library.Multiset"
begin

text \<open>
  The running server as a step relation: packets arrive, workers run queued requests in any order, the
  pool may drop a request, the timer forgets clients, the statistics tick. The components' operations
  are the steps; what they do together, whatever the interleaving, is an invariant of the reachable
  states. An invocation is one step: the counters it touches are atomic or behind \<^verbatim>\<open>sync.Map\<close>, and what
  user code of two invocations does to a shared world in parallel is not modelled.
\<close>

section \<open>States\<close>

text \<open>
  \<open>sv_got\<close> (the packets so far) and \<open>sv_ran\<close> (how many requests were run) only record the past.
\<close>

record ('v, 'w, 'z) server =
  sv_app :: "('v, 'w, 'z) Application"
  sv_queue :: "(MoaRawReqPacket \<times> int) list"
  sv_world :: "'w world"
  sv_sent :: "'v dis_action list"
  sv_got :: "'v dis_ctx list"
  sv_ran :: nat

definition start_server :: "('v, 'w, 'z) Application \<Rightarrow> 'w world \<Rightarrow> ('v, 'w, 'z) server" where
  "start_server app w = \<lparr>sv_app = app, sv_queue = [], sv_world = w, sv_sent = [], sv_got = [], sv_ran = 0\<rparr>"

text \<open>The actions of a packet, split into what is queued and what is written.\<close>

fun queued :: "'v dis_action list \<Rightarrow> (MoaRawReqPacket \<times> int) list" where
  "queued [] = []"
| "queued (Queue req opaque # as) = (req, opaque) # queued as"
| "queued (a # as) = queued as"

fun written :: "'v dis_action list \<Rightarrow> 'v dis_action list" where
  "written [] = []"
| "written (Queue req opaque # as) = written as"
| "written (a # as) = a # written as"

definition receive :: "i64 \<Rightarrow> json \<Rightarrow> 'v dis_ctx \<Rightarrow> ('v, 'w, 'z) server \<Rightarrow> ('v, 'w, 'z) server" where
  "receive now network ctx s =
     (let actions = dis now network (sv_app s) ctx
      in s\<lparr>sv_queue := sv_queue s @ queued actions, sv_sent := sv_sent s @ written actions, sv_got := sv_got s @ [ctx]\<rparr>)"

abbreviation set_handler :: "('v, 'w) InvocationHandler \<Rightarrow> ('v, 'w, 'z) server \<Rightarrow> ('v, 'w, 'z) server" where
  "set_handler h s \<equiv> s\<lparr>sv_app := (sv_app s)\<lparr>ap_invokeHandler := Some h\<rparr>\<rparr>"

text \<open>
  A worker takes one of the queued requests, in any order, and runs it at some cost: a job is the
  request with its opaque number, and the time it takes.
\<close>

type_synonym job = "(MoaRawReqPacket \<times> int) \<times> i64"

inductive worker_step :: "'sp tracer \<Rightarrow> ('v, 'w, 'z) server \<Rightarrow> job \<Rightarrow> ('v, 'w, 'z) server \<Rightarrow> bool" for T where
  Job: "sv_queue s = xs @ (req, opaque) # ys \<Longrightarrow>
    run_request T cost (sv_app s) req opaque (sv_world s) = (Ret (app, actions), w) \<Longrightarrow>
    worker_step T s ((req, opaque), cost)
      (s\<lparr>sv_app := app, sv_queue := xs @ ys, sv_world := w, sv_sent := sv_sent s @ actions, sv_ran := Suc (sv_ran s)\<rparr>)"

inductive server_step :: "'sp tracer \<Rightarrow> (flow \<Rightarrow> int) \<Rightarrow> ('v, 'w, 'z) server \<Rightarrow> ('v, 'w, 'z) server \<Rightarrow> bool"
  for T changes where
  Receive: "server_step T changes s (receive now network ctx s)"
| Work: "worker_step T s j s' \<Longrightarrow> server_step T changes s s'"
| Crash: "sv_queue s = xs @ (req, opaque) # ys \<Longrightarrow>
    run_request T cost (sv_app s) req opaque (sv_world s) = (Panic e, w) \<Longrightarrow>
    server_step T changes s (s\<lparr>sv_queue := xs @ ys, sv_world := w\<rparr>)"
| Drop: "sv_queue s = xs @ (req, opaque) # ys \<Longrightarrow> server_step T changes s (s\<lparr>sv_queue := xs @ ys\<rparr>)"
| Forget: "ap_invokeHandler (sv_app s) = Some h \<Longrightarrow> purge clients h = Ret h' \<Longrightarrow>
    server_step T changes s (set_handler h' s)"
| Round: "ap_invokeHandler (sv_app s) = Some h \<Longrightarrow> MoaTicker (moaStat h) = Some True \<Longrightarrow>
    stat_tick changes env (moaStat h) = (st, out) \<Longrightarrow>
    server_step T changes s (set_handler (h\<lparr>moaStat := st\<rparr>) s)"

definition reachable :: "'sp tracer \<Rightarrow> (flow \<Rightarrow> int) \<Rightarrow> ('v, 'w, 'z) server \<Rightarrow> ('v, 'w, 'z) server \<Rightarrow> bool" where
  "reachable T changes = rtranclp (server_step T changes)"

text \<open>The workers alone at it: the jobs they do, in that order, while nothing else happens.\<close>

inductive worker_run :: "'sp tracer \<Rightarrow> ('v, 'w, 'z) server \<Rightarrow> job list \<Rightarrow> ('v, 'w, 'z) server \<Rightarrow> bool" for T where
  Idle: "worker_run T s [] s"
| Busy: "worker_step T s j s' \<Longrightarrow> worker_run T s' js s'' \<Longrightarrow> worker_run T s (j # js) s''"

inductive_cases worker_runE: "worker_run T s [] s'" "worker_run T s (j # js) s'"

lemma worker_run_reachable: "worker_run T s js s' \<Longrightarrow> reachable T changes s s'"
proof (induction rule: worker_run.induct)
  case (Idle s)
  show ?case by (simp add: reachable_def)
next
  case (Busy s j s' js s'')
  have "server_step T changes s s'" by (rule server_step.Work) (rule Busy(1))
  then show ?case using Busy(3) unfolding reachable_def by (rule converse_rtranclp_into_rtranclp)
qed

section \<open>What is counted\<close>

text \<open>The numbers of the responses sent, and of the packets that may be answered by one: requests and broken packets.\<close>

fun answers :: "'v dis_action list \<Rightarrow> int multiset" where
  "answers [] = {#}"
| "answers (Write cmd opaque p # as) = (if cmd = RESP then add_mset opaque (answers as) else answers as)"
| "answers (a # as) = answers as"

definition answerable :: "'v dis_ctx \<Rightarrow> bool" where
  "answerable ctx \<longleftrightarrow> dc_Err ctx \<noteq> None \<or> CmdType (dc_Message ctx) = REQ"

definition asked :: "'v dis_ctx list \<Rightarrow> int multiset" where
  "asked got = image_mset (\<lambda>ctx. Opaque (dc_Message ctx)) (mset (filter answerable got))"

definition waiting :: "(MoaRawReqPacket \<times> int) list \<Rightarrow> int multiset" where
  "waiting q = mset (map snd q)"

lemma answers_append [simp]: "answers (as @ bs) = answers as + answers bs"
  by (induction as rule: answers.induct) auto

lemma asked_simps [simp]: "asked [] = {#}" "asked (got @ [ctx]) = asked got + (if answerable ctx then {#Opaque (dc_Message ctx)#} else {#})"
  by (simp_all add: asked_def)

lemma waiting_simps [simp]: "waiting [] = {#}" "waiting (x # q) = add_mset (snd x) (waiting q)" "waiting (p @ q) = waiting p + waiting q"
  by (simp_all add: waiting_def)

lemma add_mset_le: "add_mset x A \<subseteq># B \<Longrightarrow> A \<subseteq># B"
  by (metis mset_subset_eq_insertD subset_mset.less_imp_le)

text \<open>All increments of a flow.\<close>

fun increments :: "flow \<Rightarrow> int" where
  "increments [] = 0"
| "increments (Incr n # f) = n + increments f"
| "increments (Changes # f) = increments f"

lemma increments_append [simp]: "increments (f @ g) = increments f + increments g"
  by (induction f rule: increments.induct) auto

lemma increments_replicate [simp]: "increments (replicate n (Incr 1)) = int n"
  by (induction n) auto

lemma increments_tick: "increments (stat_flow (fst (stat_tick changes e s)) k) = increments (stat_flow s k)"
  by (simp add: stat_flow_tick)

section \<open>Steps\<close>

lemma dis_numbers:
  "answers (written (dis now network app ctx)) + waiting (queued (dis now network app ctx))
     \<subseteq># (if answerable ctx then {#Opaque (dc_Message ctx)#} else {#})"
  by (auto simp: dis_def dis_body_def answerable_def cmd_defs Let_def
      split: option.split payload.split go.split)

lemma dis_timeouts:
  "\<forall>(req, opaque) \<in> set (queued (dis now network app ctx)). rq_Timeout req = ProcessTimeout (the_cluster (ap_options app))"
  by (auto simp: dis_def dis_body_def Let_def split: option.splits payload.splits go.splits if_splits)

lemma run_request_step:
  assumes "run_request T cost app req opaque w = (Ret (app', actions), w')"
  obtains h out c hp r where "ap_invokeHandler app = Some h" and "Invoke T cost h c req (w\<lparr>heap := hp\<rparr>) = (Ret out, w')"
    and "app' = app\<lparr>ap_invokeHandler := Some (io_handler out)\<rparr>"
    and "actions = (if sint (rq_Timeout req) \<le> sint cost then [] else [Write RESP opaque (RespPayload r)])"
    and "ErrCode r \<in> {200, 302, 501, 502, 503, 3021}"
proof -
  obtain c hp where c: "request_ctx (ap_ctx app) req (heap w) = (c, hp)" by (cases "request_ctx (ap_ctx app) req (heap w)")
  obtain h where h: "ap_invokeHandler app = Some h"
    using assms by (auto simp: run_request_def c Let_def split: option.splits)
  obtain out where i: "Invoke T cost h c req (w\<lparr>heap := hp\<rparr>) = (Ret out, w')"
    and a: "app' = app\<lparr>ap_invokeHandler := Some (io_handler out)\<rparr>"
      "actions = (case io_callback out of None \<Rightarrow> [] | Some resp \<Rightarrow> [Write RESP opaque (RespPayload resp)])"
    using assms by (auto simp: run_request_def c h Let_def split: prod.splits go.splits)
  obtain r where r: "io_callback out = (if sint (rq_Timeout req) \<le> sint cost then None else Some r)"
    "ErrCode r \<in> {200, 302, 501, 502, 503, 3021}"
    using Invoke_answer [OF i] by blast
  have "actions = (if sint (rq_Timeout req) \<le> sint cost then [] else [Write RESP opaque (RespPayload r)])"
    by (simp add: a(2) r(1))
  with h i a(1) show thesis using r(2) by (rule that)
qed

section \<open>The invariant\<close>

definition counted_by :: "('v, 'w) InvocationHandler \<Rightarrow> stat_key \<Rightarrow> int" where
  "counted_by h k = increments (stat_flow (moaStat h) k)"

definition handler_inv :: "('v, 'w) InvocationHandler \<Rightarrow> nat \<Rightarrow> bool" where
  "handler_inv h n \<longleftrightarrow> wf_instances (instances h)
     \<and> counted_by h KRecv = int n \<and> counted_by h KTimeout = 0
     \<and> counted_by h KProc \<le> int n \<and> counted_by h KError \<le> int n
     \<and> int n \<le> counted_by h KProc + counted_by h KError"

definition server_inv :: "Option \<Rightarrow> ('v, 'w, 'z) server \<Rightarrow> bool" where
  "server_inv options s \<longleftrightarrow> ap_options (sv_app s) = options
     \<and> (\<exists>h. ap_invokeHandler (sv_app s) = Some h \<and> handler_inv h (sv_ran s))
     \<and> answers (sv_sent s) + waiting (sv_queue s) \<subseteq># asked (sv_got s)
     \<and> (\<forall>(req, opaque) \<in> set (sv_queue s). rq_Timeout req = ProcessTimeout (the_cluster options))"

lemma handler_inv_Invoke:
  assumes "handler_inv h n" "Invoke T cost h c req w = (Ret out, w')"
  shows "handler_inv (io_handler out) (Suc n)"
proof -
  have "wf_instances (instances (io_handler out))"
    using assms Invoke_instances [OF assms(2)] by (simp add: handler_inv_def counted_wf)
  moreover obtain p e where "stat_flow (moaStat (io_handler out)) KRecv = stat_flow (moaStat h) KRecv @ [Incr 1]"
    "stat_flow (moaStat (io_handler out)) KTimeout = stat_flow (moaStat h) KTimeout"
    "stat_flow (moaStat (io_handler out)) KProc = stat_flow (moaStat h) KProc @ replicate p (Incr 1)"
    "stat_flow (moaStat (io_handler out)) KError = stat_flow (moaStat h) KError @ replicate e (Incr 1)"
    "p + e = 1 \<or> p = 1 \<and> e = 1"
    using Invoke_flows [OF assms(2)] by blast
  ultimately show ?thesis using assms(1) by (auto simp: handler_inv_def counted_by_def)
qed

lemma handler_inv_purge:
  assumes "handler_inv h n" "purge clients h = Ret h'"
  shows "handler_inv h' n"
proof -
  let ?f = "\<lambda>s. s\<lparr>InvokesPerClient := map_option (filter (\<lambda>p. fst p \<in> set clients)) (InvokesPerClient s)\<rparr>"
  have h': "h' = h\<lparr>instances := map (\<lambda>(uri, s). (uri, ?f s)) (instances h)\<rparr>"
    using assms(2) by (auto simp: purge_def bind_go_Ret_iff purge_loop_Ret)
  have m: "map_of (instances h') u = map_option ?f (map_of (instances h) u)" for u
    unfolding h' by simp (rule map_of_map_snd [of "\<lambda>k. ?f"])
  have "wf_service (?f s) = wf_service s" for s by (simp add: wf_service_def)
  then have "wf_instances (instances h')" using assms(1) by (auto simp: handler_inv_def wf_instances_def m)
  with assms(1) show ?thesis by (simp add: handler_inv_def counted_by_def h')
qed

lemma handler_inv_tick:
  "handler_inv h n \<Longrightarrow> stat_tick changes env (moaStat h) = (st, out) \<Longrightarrow> handler_inv (h\<lparr>moaStat := st\<rparr>) n"
  using increments_tick [of changes env "moaStat h"] by (simp add: handler_inv_def counted_by_def)

text \<open>What a worker does with its job: the only request it takes, the only answer it writes.\<close>

lemma worker_step_effect:
  assumes "worker_step T s (q, cost) s'" "server_inv options s"
  shows "sv_got s' = sv_got s \<and> sv_ran s' = Suc (sv_ran s) \<and> add_mset q (mset (sv_queue s')) = mset (sv_queue s)
    \<and> (\<exists>r. sv_sent s' = sv_sent s @ (if sint (ProcessTimeout (the_cluster options)) \<le> sint cost then []
          else [Write RESP (snd q) (RespPayload r)])
        \<and> ErrCode r \<in> {200, 302, 501, 502, 503, 3021})"
  using assms(1)
proof cases
  case (Job xs req opaque ys app actions w)
  obtain r where r: "actions = (if sint (rq_Timeout req) \<le> sint cost then [] else [Write RESP opaque (RespPayload r)])"
    "ErrCode r \<in> {200, 302, 501, 502, 503, 3021}"
    using run_request_step [OF Job(4)] by metis
  have "rq_Timeout req = ProcessTimeout (the_cluster options)"
    using assms(2) Job(3) by (auto simp: server_inv_def)
  with r show ?thesis by (intro conjI exI [of _ r]) (simp_all add: Job)
qed

lemma worker_inv_step:
  assumes "worker_step T s j s'" "server_inv options s"
  shows "server_inv options s'"
proof -
  obtain q cost where j: "j = (q, cost)" by (cases j)
  have step: "worker_step T s (q, cost) s'" using assms(1) j by simp
  obtain r where e: "sv_got s' = sv_got s" "sv_ran s' = Suc (sv_ran s)" "add_mset q (mset (sv_queue s')) = mset (sv_queue s)"
    "sv_sent s' = sv_sent s @ (if sint (ProcessTimeout (the_cluster options)) \<le> sint cost then []
       else [Write RESP (snd q) (RespPayload r)])"
    using worker_step_effect [OF step assms(2)] by blast
  have w: "add_mset (snd q) (waiting (sv_queue s')) = waiting (sv_queue s)"
    using arg_cong [OF e(3), of "image_mset snd"] by (simp add: waiting_def)
  have sub: "set (sv_queue s') \<subseteq> set (sv_queue s)"
    using arg_cong [OF e(3), of set_mset] by auto
  have "answers (sv_sent s') + waiting (sv_queue s') \<subseteq># asked (sv_got s')"
    using assms(2) by (auto simp: server_inv_def e(1,4) simp flip: w dest: add_mset_le)
  moreover from step have "ap_options (sv_app s') = options
      \<and> (\<exists>h. ap_invokeHandler (sv_app s') = Some h \<and> handler_inv h (sv_ran s'))"
  proof cases
    case (Job xs req opaque ys app actions w)
    obtain h out c hp where h: "ap_invokeHandler (sv_app s) = Some h"
      and i: "Invoke T cost h c req ((sv_world s)\<lparr>heap := hp\<rparr>) = (Ret out, w)"
      and a: "app = (sv_app s)\<lparr>ap_invokeHandler := Some (io_handler out)\<rparr>"
      using run_request_step [OF Job(4)] by metis
    have "handler_inv (io_handler out) (Suc (sv_ran s))"
      using handler_inv_Invoke [OF _ i] assms(2) h by (simp add: server_inv_def)
    then show ?thesis using assms(2) by (simp add: server_inv_def Job(2) a)
  qed
  ultimately show ?thesis using assms(2) sub by (auto simp: server_inv_def)
qed

lemma server_inv_step:
  assumes step: "server_step T changes s s'" and inv: "server_inv options s"
  shows "server_inv options s'"
  using step
proof cases
  case (Receive now network ctx)
  let ?a = "dis now network (sv_app s) ctx"
  have "answers (sv_sent s) + waiting (sv_queue s) + (answers (written ?a) + waiting (queued ?a))
      \<subseteq># asked (sv_got s) + (if answerable ctx then {#Opaque (dc_Message ctx)#} else {#})"
    using inv dis_numbers [of now network "sv_app s" ctx] by (intro subset_mset.add_mono) (simp_all add: server_inv_def)
  then show ?thesis
    using inv dis_timeouts [of now network "sv_app s" ctx]
    by (auto simp: server_inv_def Receive receive_def Let_def ac_simps)
next
  case (Work j)
  then show ?thesis using worker_inv_step inv by blast
next
  case (Crash xs req opaque ys cost e w)
  then show ?thesis using inv by (auto simp: server_inv_def dest: add_mset_le)
next
  case (Drop xs req opaque ys)
  then show ?thesis using inv by (auto simp: server_inv_def dest: add_mset_le)
next
  case (Forget h clients h')
  then show ?thesis using inv handler_inv_purge by (auto simp: server_inv_def)
next
  case (Round h env st out)
  then show ?thesis using inv handler_inv_tick by (auto simp: server_inv_def)
qed

end
