(* ===== verification/Moa_System_Props.thy ===== *)
theory Moa_System_Props
  imports Moa_System
begin

text \<open>
  What holds of a running server in every state it can reach, however packets, workers, the pool, the
  timer and the ticker interleave, from the state in which it was started.
\<close>

lemma reachable_inv:
  assumes "reachable T changes s s'" "server_inv options s"
  shows "server_inv options s'"
  using assms unfolding reachable_def
  by (induction rule: rtranclp_induct) (auto dest: server_inv_step)

lemma started_inv:
  assumes "initApplication Z env c path services z = (Ret app, z')"
  shows "server_inv (ap_options app) (start_server app w)"
proof -
  obtain op serverOp s0 rest h0 c' where h0: "NewInvocationHandler (s0 # rest)
      (fst (NewMoaStat (so_BindAddress (op_Server serverOp)) (ServiceUri s0))) = Ret h0"
    and app: "app = \<lparr>ap_ctx = c, ap_setup = setup_of (se_max_packet env) serverOp (the_cluster serverOp), ap_options = op,
        ap_configCenter = c', ap_invokeHandler = Some (h0\<lparr>moaStat := fst (StartLog (moaStat h0))\<rparr>)\<rparr>"
    by (rule initApplication_Ret [OF assms])
  show ?thesis
    using started_handler(2,4) [OF h0] by (simp add: server_inv_def start_server_def app handler_inv_def counted_by_def new_stat_flows)
qed

text \<open>
  C3: No request is answered twice, and none is answered that was not asked: in every reachable state,
  for every number, the responses sent and the requests still queued under it are together no more
  than the requests and broken packets received under it.
\<close>

theorem no_answer_twice:
  assumes start: "initApplication Z env c path services z = (Ret app, z')"
    and run: "reachable T changes (start_server app w) s"
  shows "count (answers (sv_sent s)) n + count (waiting (sv_queue s)) n \<le> count (asked (sv_got s)) n"
proof -
  have "answers (sv_sent s) + waiting (sv_queue s) \<subseteq># asked (sv_got s)"
    using reachable_inv [OF run started_inv [OF start]] by (simp add: server_inv_def)
  then show ?thesis by (metis count_union mset_subset_eq_count)
qed

definition broken_packet :: "string dis_ctx" where
  "broken_packet = \<lparr>dc_Message = \<lparr>CmdType = 1, Extension = 0, Opaque = 7, Data = [], PayLoad = NilPayload\<rparr>,
     dc_Err = Some ''bad frame'', dc_RemoteAddr = ''10.0.0.9:1''\<rparr>"

lemma demo_running:
  "\<exists>app z' s. initApplication mem_zk (demo_env ''file:///conf/a.yaml'' None) [] ''a.toml'' [pub_service] [] = (Ret app, z')
    \<and> 0 < sint (ProcessTimeout (the_cluster (ap_options app)))
    \<and> reachable no_tracer since_changes (start_server app demo_world) s
    \<and> asked (sv_got s) = {#7#} \<and> answers (sv_sent s) = {#7#}"
proof -
  obtain app z' where a: "initApplication mem_zk (demo_env ''file:///conf/a.yaml'' None) [] ''a.toml'' [pub_service] [] = (Ret app, z')"
    "ProcessTimeout (the_cluster (ap_options app)) = 5000000000" using demo_started by blast
  let ?s = "receive 0 JNull broken_packet (start_server app demo_world)"
  have "reachable no_tracer since_changes (start_server app demo_world) ?s"
    unfolding reachable_def by (rule r_into_rtranclp) (rule server_step.Receive)
  moreover have "asked (sv_got ?s) = {#7#}"
    by (simp add: asked_def start_server_def receive_def Let_def broken_packet_def answerable_def)
  moreover have "answers (sv_sent ?s) = {#7#}"
    by (simp add: start_server_def receive_def Let_def broken_packet_def dis_def dis_body_def)
  ultimately show ?thesis using a by (intro exI [of _ app] exI [of _ z'] exI [of _ ?s]) simp
qed

theorem no_answer_twice_witness:
  "\<exists>s :: (string, nat, (string, string) gomap) server. answers (sv_sent s) = {#7#}
     \<and> count (answers (sv_sent s)) 7 + count (waiting (sv_queue s)) 7 \<le> count (asked (sv_got s)) 7"
proof -
  obtain app z' s where a: "initApplication mem_zk (demo_env ''file:///conf/a.yaml'' None) [] ''a.toml'' [pub_service] [] = (Ret app, z')"
    and r: "reachable no_tracer since_changes (start_server app demo_world) s" and n: "answers (sv_sent s) = {#7#}"
    using demo_running by blast
  from no_answer_twice [OF a r, of 7] n show ?thesis by blast
qed

text \<open>
  C11: The statistics of a running server agree with what it did: in every reachable state its handler
  is there and well formed, the received counter has moved once for each request that was run, the
  processed and the failed one at most once for each and together at least once, and the timeout
  counter not at all.
\<close>

theorem server_counters:
  assumes start: "initApplication Z env c path services z = (Ret app, z')"
    and run: "reachable T changes (start_server app w) s"
  shows "\<exists>h. ap_invokeHandler (sv_app s) = Some h \<and> wf_instances (instances h)
    \<and> counted_by h KRecv = int (sv_ran s) \<and> counted_by h KTimeout = 0
    \<and> counted_by h KProc \<le> int (sv_ran s) \<and> counted_by h KError \<le> int (sv_ran s)
    \<and> int (sv_ran s) \<le> counted_by h KProc + counted_by h KError"
  using reachable_inv [OF run started_inv [OF start]] by (auto simp: server_inv_def handler_inv_def)

theorem server_counters_witness:
  "\<exists>(s :: (string, nat, (string, string) gomap) server) h. answers (sv_sent s) = {#7#} \<and> ap_invokeHandler (sv_app s) = Some h
     \<and> wf_instances (instances h) \<and> counted_by h KTimeout = 0"
proof -
  obtain app z' s where a: "initApplication mem_zk (demo_env ''file:///conf/a.yaml'' None) [] ''a.toml'' [pub_service] [] = (Ret app, z')"
    and r: "reachable no_tracer since_changes (start_server app demo_world) s" and n: "answers (sv_sent s) = {#7#}"
    using demo_running by blast
  from server_counters [OF a r] n show ?thesis by blast
qed

lemma worker_enabled:
  assumes "server_inv options s" "q \<in> set (sv_queue s)" "Extract T [] = None"
  shows "\<exists>s'. worker_step T s (q, cost) s'"
proof -
  obtain h where h: "ap_invokeHandler (sv_app s) = Some h" using assms(1) by (auto simp: server_inv_def)
  obtain xs ys where q: "sv_queue s = xs @ (fst q, snd q) # ys" using split_list [OF assms(2)] by auto
  obtain app actions w where "run_request T cost (sv_app s) (fst q) (snd q) (sv_world s) = (Ret (app, actions), w)"
    by (rule run_request_Invoke [where T = T and cost = cost and req = "fst q" and opaque = "snd q" and w = "sv_world s",
          OF assms(3) h])
  from worker_step.Job [OF q this] show ?thesis by (intro exI) simp
qed

text \<open>The jobs that are answered: those done in less than the timeout.\<close>

definition in_time :: "i64 \<Rightarrow> job list \<Rightarrow> job list" where
  "in_time limit js = filter (\<lambda>j. sint (snd j) < sint limit) js"

definition answer_of :: "job \<Rightarrow> 'v dis_action \<Rightarrow> bool" where
  "answer_of j a \<longleftrightarrow> (\<exists>r. a = Write RESP (snd (fst j)) (RespPayload r) \<and> ErrCode r \<in> {200, 302, 501, 502, 503, 3021})"

lemma worker_run_inv: "worker_run T s js s' \<Longrightarrow> server_inv options s \<Longrightarrow> server_inv options s'"
  by (induction rule: worker_run.induct) (auto dest: worker_inv_step)

lemma worker_run_effect:
  assumes "worker_run T s js s'" "server_inv options s"
  shows "sv_got s' = sv_got s \<and> sv_ran s' = sv_ran s + length js \<and> mset (map fst js) + mset (sv_queue s') = mset (sv_queue s)
    \<and> (\<exists>as. sv_sent s' = sv_sent s @ as \<and> list_all2 answer_of (in_time (ProcessTimeout (the_cluster options)) js) as)"
  using assms
proof (induction rule: worker_run.induct)
  case (Idle s)
  show ?case by (simp add: in_time_def)
next
  case (Busy s j s' js s'')
  obtain q cost where j: "j = (q, cost)" by (cases j)
  obtain r where e: "sv_got s' = sv_got s" "sv_ran s' = Suc (sv_ran s)" "add_mset q (mset (sv_queue s')) = mset (sv_queue s)"
    "sv_sent s' = sv_sent s @ (if sint (ProcessTimeout (the_cluster options)) \<le> sint cost then []
       else [Write RESP (snd q) (RespPayload r)])" "ErrCode r \<in> {200, 302, 501, 502, 503, 3021}"
    using worker_step_effect [OF Busy(1) [unfolded j] Busy(4)] by blast
  obtain as where as: "sv_got s'' = sv_got s'" "sv_ran s'' = sv_ran s' + length js"
    "mset (map fst js) + mset (sv_queue s'') = mset (sv_queue s')" "sv_sent s'' = sv_sent s' @ as"
    "list_all2 answer_of (in_time (ProcessTimeout (the_cluster options)) js) as"
    using Busy(3) [OF worker_inv_step [OF Busy(1,4)]] by blast
  have a: "answer_of (q, cost) (Write RESP (snd q) (RespPayload r))" using e(5) by (auto simp: answer_of_def)
  show ?case using as(5) by (simp add: as(1,2,4) e(1,2,4) j in_time_def a flip: as(3) e(3))
qed

lemma worker_run_exists:
  assumes "Extract T [] = None"
  shows "server_inv options s \<Longrightarrow> mset (map fst js) = mset (sv_queue s) \<Longrightarrow> \<exists>s'. worker_run T s js s'"
proof (induction js arbitrary: s)
  case Nil
  show ?case using worker_run.Idle by blast
next
  case (Cons j js)
  have "fst j \<in># mset (sv_queue s)" by (simp flip: Cons.prems(2))
  then obtain s1 where step: "worker_step T s j s1"
    using worker_enabled [OF Cons.prems(1) _ assms, of "fst j" "snd j"] by auto
  have "add_mset (fst j) (mset (sv_queue s1)) = mset (sv_queue s)"
    using worker_step_effect [of T s "fst j" "snd j" s1 options] step Cons.prems(1) by simp
  then have "mset (map fst js) = mset (sv_queue s1)" using Cons.prems(2) by (simp flip: add_mset_add_single) (metis add_mset_add_mset_same_iff)
  from Cons.IH [OF worker_inv_step [OF step Cons.prems(1)] this] worker_run.Busy [OF step] show ?case by blast
qed

text \<open>
  C6: The workers of a running server serve whatever it queued, in any order and whatever each request
  costs. From every reachable state: (1) while the workers alone run, receiving nothing, each job takes
  one waiting request out of the queue, and what they write is one answer for each job done within the
  cluster's timeout, in the order of the jobs and under their numbers, and nothing else; as long as a
  request waits, a worker can run it, at any cost; (2) for every order of the waiting requests and all
  costs there is such a run, and it empties the queue. (The tracer finds no span context in an empty
  carrier.)
\<close>

theorem server_drains:
  fixes s :: "('v, 'w, 'z) server"
  assumes start: "initApplication Z env c path services z = (Ret app, z')"
    and run: "reachable T changes (start_server app w) s"
    and T: "Extract T [] = None"
  shows "(\<forall>js s'. worker_run T s js s' \<longrightarrow>
      reachable T changes s s' \<and> sv_got s' = sv_got s \<and> sv_ran s' = sv_ran s + length js
      \<and> mset (map fst js) + mset (sv_queue s') = mset (sv_queue s)
      \<and> (\<exists>as. sv_sent s' = sv_sent s @ as
          \<and> list_all2 answer_of (in_time (ProcessTimeout (the_cluster (ap_options app))) js) as)
      \<and> (\<forall>q \<in> set (sv_queue s'). \<forall>cost. \<exists>s''. worker_step T s' (q, cost) s''))
    \<and> (\<forall>js. mset (map fst js) = mset (sv_queue s) \<longrightarrow> (\<exists>s'. worker_run T s js s' \<and> sv_queue s' = []))"
proof (intro conjI allI impI)
  have inv: "server_inv (ap_options app) s" by (rule reachable_inv [OF run started_inv [OF start]])
  {
    fix js s' assume r: "worker_run T s js s'"
    show "reachable T changes s s'" by (rule worker_run_reachable [OF r])
    show "sv_got s' = sv_got s" "sv_ran s' = sv_ran s + length js" "mset (map fst js) + mset (sv_queue s') = mset (sv_queue s)"
      "\<exists>as. sv_sent s' = sv_sent s @ as \<and> list_all2 answer_of (in_time (ProcessTimeout (the_cluster (ap_options app))) js) as"
      using worker_run_effect [OF r inv] by blast+
    show "\<forall>q \<in> set (sv_queue s'). \<forall>cost. \<exists>s''. worker_step T s' (q, cost) s''"
      using worker_enabled [OF worker_run_inv [OF r inv] _ T] by blast
  next
    fix js :: "job list" assume m: "mset (map fst js) = mset (sv_queue s)"
    from worker_run_exists [OF T inv m] obtain s' where "worker_run T s js s'" by blast
    then show "\<exists>s'. worker_run T s js s' \<and> sv_queue s' = []" using worker_run_effect [OF _ inv] m by force
  }
qed

text \<open>Two requests wait; the second is run first, in time, the first one later and too slowly.\<close>

definition demo_packet :: "int \<Rightarrow> string dis_ctx" where
  "demo_packet n = \<lparr>dc_Message = \<lparr>CmdType = 1, Extension = 0, Opaque = n, Data = [],
       PayLoad = RawReqPayload (demo_req ''echo'' [JStr ''hi''])\<rparr>, dc_Err = None, dc_RemoteAddr = ''10.0.0.9:1''\<rparr>"

theorem server_drains_witness:
  "\<exists>(s :: (string, nat, (string, string) gomap) server) s' req1 req2 resp.
     sv_queue s = [(req1, 42), (req2, 43)] \<and> sv_sent s = []
     \<and> worker_run no_tracer s [((req2, 43), 7), ((req1, 42), 5000000000)] s'
     \<and> sv_queue s' = [] \<and> sv_got s' = sv_got s \<and> sv_sent s' = [Write RESP 43 (RespPayload resp)]"
proof -
  obtain app z' where a: "initApplication mem_zk (demo_env ''file:///conf/a.yaml'' None) [] ''a.toml'' [pub_service] [] = (Ret app, z')"
    "ProcessTimeout (the_cluster (ap_options app)) = 5000000000" using demo_started by blast
  let ?start = "start_server app demo_world :: (string, nat, (string, string) gomap) server"
  let ?s = "receive 0 JNull (demo_packet 43) (receive 0 JNull (demo_packet 42) ?start)"
  let ?req = "(demo_req ''echo'' [JStr ''hi''])\<lparr>rq_Source := ''10.0.0.9:1'', rq_Timeout := 5000000000\<rparr>"
  have q: "sv_queue ?s = [(?req, 42), (?req, 43)]" "sv_sent ?s = []"
    by (simp_all add: start_server_def receive_def Let_def demo_packet_def dis_def dis_body_def is_expired_def demo_req_def zero_raw_req_def a(2) cmd_defs)
  let ?step = "server_step no_tracer since_changes"
  have s1: "?step ?start (receive 0 JNull (demo_packet 42) ?start)" by (rule server_step.Receive)
  have s2: "?step (receive 0 JNull (demo_packet 42) ?start) ?s" by (rule server_step.Receive)
  have r: "reachable no_tracer since_changes ?start ?s"
    unfolding reachable_def using s1 s2 by (simp add: rtranclp.rtrancl_into_rtrancl)
  have T: "Extract no_tracer [] = None" by (simp add: no_tracer_def)
  let ?js = "[((?req, 43), 7), ((?req, 42), 5000000000)]"
  note d = server_drains [OF a(1) r T]
  have "mset (map fst ?js) = mset (sv_queue ?s)" by (simp add: q)
  then obtain s' where s': "worker_run no_tracer ?s ?js s'" "sv_queue s' = []"
    using d [THEN conjunct2, rule_format, of ?js] by blast
  obtain as where got: "sv_got s' = sv_got ?s" and sent: "sv_sent s' = as"
    and as: "list_all2 answer_of (in_time 5000000000 ?js) as"
    using d [THEN conjunct1, rule_format, OF s'(1)] q(2) a(2) by auto
  from as obtain resp where "as = [Write RESP 43 (RespPayload resp)]"
    by (auto simp: in_time_def answer_of_def list_all2_Cons1)
  with s' got sent q show ?thesis
    by (intro exI [of _ ?s] exI [of _ s'] exI [of _ ?req] exI [of _ resp]) simp
qed

end
