(* ===== verification/Moa_Count.thy ===== *)
theory Moa_Count
  imports Moa_Proxy_Laws
begin

text \<open>
  Counting a call, at the granularity of its atomic operations. \<open>count_invoke\<close> of \<open>Moa_Proxy\<close> takes the
  counting code of \<^verbatim>\<open>Invoke\<close> as one step; in the program any number of workers run it at once, and what is
  atomic is a \<^verbatim>\<open>Load\<close>, a \<^verbatim>\<open>LoadOrStore\<close> and an \<^verbatim>\<open>Incr\<close>. Here the call table is a heap of maps and flows,
  a worker is a program counter, and a run takes the workers' steps in any order. Every run ends, and
  then the table holds what running \<open>count_invoke\<close> once per worker leaves: no increment is lost, also
  when several workers find no map or no flow and each makes one.
\<close>

section \<open>The heap and the steps\<close>

text \<open>The table of a service maps clients to maps, these map methods to flows, both by reference.\<close>

record count_heap =
  ch_table :: "(string, nat) gomap"
  ch_maps :: "nat \<Rightarrow> (string, nat) gomap"
  ch_flows :: "nat \<Rightarrow> flow"
  ch_next_map :: nat
  ch_next_flow :: nat

text \<open>
  Where a worker is: before the first \<^verbatim>\<open>Load\<close>, after it missed, with the client's map, after the second
  \<^verbatim>\<open>Load\<close> missed, with the flow, done. What \<^verbatim>\<open>LoadOrStore\<close> is given is allocated when it is stored.
\<close>

datatype count_pc = LoadMap | StoreMap | LoadFlow nat | StoreFlow nat | IncrFlow nat | Counted

definition count_thread :: "string \<times> string \<Rightarrow> count_pc \<Rightarrow> count_heap \<Rightarrow> count_pc \<times> count_heap" where
  "count_thread k pc h =
     (case pc of
        LoadMap \<Rightarrow> (case map_of (ch_table h) (fst k) of Some m \<Rightarrow> (LoadFlow m, h) | None \<Rightarrow> (StoreMap, h))
      | StoreMap \<Rightarrow>
          (case load_or_store (fst k) (ch_next_map h) (ch_table h) of
             ((m, loaded), table) \<Rightarrow>
               (LoadFlow m, if loaded then h
                  else h\<lparr>ch_table := table, ch_maps := (ch_maps h)(m := []), ch_next_map := Suc m\<rparr>))
      | LoadFlow m \<Rightarrow> (case map_of (ch_maps h m) (snd k) of Some f \<Rightarrow> (IncrFlow f, h) | None \<Rightarrow> (StoreFlow m, h))
      | StoreFlow m \<Rightarrow>
          (case load_or_store (snd k) (ch_next_flow h) (ch_maps h m) of
             ((f, loaded), flow) \<Rightarrow>
               (IncrFlow f, if loaded then h
                  else h\<lparr>ch_maps := (ch_maps h)(m := flow), ch_flows := (ch_flows h)(f := []), ch_next_flow := Suc f\<rparr>))
      | IncrFlow f \<Rightarrow> (Counted, h\<lparr>ch_flows := (ch_flows h)(f := ch_flows h f @ [Incr 1])\<rparr>)
      | Counted \<Rightarrow> (Counted, h))"

text \<open>One worker of those with the keys \<open>ks\<close> takes a step.\<close>

inductive count_step :: "(string \<times> string) list \<Rightarrow> count_heap \<times> count_pc list \<Rightarrow> count_heap \<times> count_pc list \<Rightarrow> bool"
  for ks where
  "i < length pcs \<Longrightarrow> pcs ! i \<noteq> Counted \<Longrightarrow> count_thread (ks ! i) (pcs ! i) h = (pc, h') \<Longrightarrow>
   count_step ks (h, pcs) (h', pcs[i := pc])"

inductive_cases count_stepE: "count_step ks (h, pcs) s'"

section \<open>The table a heap stands for\<close>

definition heap_table :: "count_heap \<Rightarrow> invokes" where
  "heap_table h = map (\<lambda>(src, m). (src, map (\<lambda>(name, f). (name, ch_flows h f)) (ch_maps h m))) (ch_table h)"

definition flow_ref :: "count_heap \<Rightarrow> string \<times> string \<Rightarrow> nat option" where
  "flow_ref h k = Option.bind (map_of (ch_table h) (fst k)) (\<lambda>m. map_of (ch_maps h m) (snd k))"

lemma counter_at_heap: "counter_at (heap_table h) k = (case flow_ref h k of None \<Rightarrow> [] | Some f \<Rightarrow> ch_flows h f)"
proof -
  have m: "map_of (heap_table h) s = map_option (\<lambda>m. map (\<lambda>(name, f). (name, ch_flows h f)) (ch_maps h m)) (map_of (ch_table h) s)" for s
    unfolding heap_table_def by (rule map_of_map_snd [of "\<lambda>_ m. map (\<lambda>(name, f). (name, ch_flows h f)) (ch_maps h m)"])
  have f: "map_of (map (\<lambda>(name, f). (name, ch_flows h f)) t) n = map_option (ch_flows h) (map_of t n)" for t n
    by (rule map_of_map_snd [of "\<lambda>_. ch_flows h"])
  show ?thesis
    unfolding counter_at_def flow_ref_def m
    by (cases "map_of (ch_table h) (fst k)") (simp_all only: option.map option.case f bind.simps, simp split: option.split)
qed

text \<open>No two places share a map or a flow, and what is not allocated yet is nowhere.\<close>

definition heap_ok :: "count_heap \<Rightarrow> bool" where
  "heap_ok h \<longleftrightarrow>
     (\<forall>src m. map_of (ch_table h) src = Some m \<longrightarrow> m < ch_next_map h)
     \<and> (\<forall>src src' m. map_of (ch_table h) src = Some m \<longrightarrow> map_of (ch_table h) src' = Some m \<longrightarrow> src = src')
     \<and> (\<forall>k f. flow_ref h k = Some f \<longrightarrow> f < ch_next_flow h)
     \<and> (\<forall>k k' f. flow_ref h k = Some f \<longrightarrow> flow_ref h k' = Some f \<longrightarrow> k = k')"

text \<open>What a worker knows.\<close>

fun pc_ok :: "count_heap \<Rightarrow> string \<times> string \<Rightarrow> count_pc \<Rightarrow> bool" where
  "pc_ok h k (LoadFlow m) = (map_of (ch_table h) (fst k) = Some m)"
| "pc_ok h k (StoreFlow m) = (map_of (ch_table h) (fst k) = Some m)"
| "pc_ok h k (IncrFlow f) = (flow_ref h k = Some f)"
| "pc_ok h k pc = True"

text \<open>What a step of a worker keeps and does: the references only grow, and only an increment changes a count.\<close>

definition grows :: "count_heap \<Rightarrow> count_heap \<Rightarrow> bool" where
  "grows h h' \<longleftrightarrow> (\<forall>src m. map_of (ch_table h) src = Some m \<longrightarrow> map_of (ch_table h') src = Some m)
     \<and> (\<forall>k f. flow_ref h k = Some f \<longrightarrow> flow_ref h' k = Some f)"

lemma pc_ok_grows: "grows h h' \<Longrightarrow> pc_ok h k pc \<Longrightarrow> pc_ok h' k pc"
  by (cases pc) (auto simp: grows_def simp del: split_paired_All)

text \<open>The steps a worker still has to take.\<close>

primrec steps_left :: "count_pc \<Rightarrow> nat" where
  "steps_left LoadMap = 5"
| "steps_left StoreMap = 4"
| "steps_left (LoadFlow m) = 3"
| "steps_left (StoreFlow m) = 2"
| "steps_left (IncrFlow f) = 1"
| "steps_left Counted = 0"

abbreviation heap_counter :: "count_heap \<Rightarrow> string \<times> string \<Rightarrow> flow" where
  "heap_counter h k \<equiv> counter_at (heap_table h) k"

definition good_step :: "string \<times> string \<Rightarrow> count_heap \<Rightarrow> count_pc \<Rightarrow> count_heap \<Rightarrow> bool" where
  "good_step k h pc' h' \<longleftrightarrow> heap_ok h' \<and> grows h h' \<and> pc_ok h' k pc'
     \<and> (\<forall>k'. heap_counter h' k' = heap_counter h k' @ (if pc' = Counted \<and> k' = k then [Incr 1] else []))"

lemma good_stepI:
  assumes "heap_ok h'" "grows h h'" "pc_ok h' k pc'"
    and "\<And>k'. heap_counter h' k' = heap_counter h k' @ (if pc' = Counted \<and> k' = k then [Incr 1] else [])"
  shows "good_step k h pc' h'"
  using assms unfolding good_step_def by blast

lemma store_map_good:
  assumes ok: "heap_ok h" and none: "map_of (ch_table h) src = None"
  shows "good_step (src, name) h (LoadFlow (ch_next_map h))
    (h\<lparr>ch_table := AList.update src (ch_next_map h) (ch_table h), ch_maps := (ch_maps h)(ch_next_map h := []), ch_next_map := Suc (ch_next_map h)\<rparr>)"
    (is "good_step _ _ _ ?h")
proof -
  have new: "map_of (ch_table h) s \<noteq> Some (ch_next_map h)" for s using ok by (auto simp: heap_ok_def)
  have f: "flow_ref ?h k = flow_ref h k" for k
    using none new [of "fst k"] by (auto simp: flow_ref_def map_simps split: Option.bind_splits)
  show ?thesis
  proof (rule good_stepI)
    show "heap_ok ?h" using ok none new unfolding heap_ok_def f by (auto simp: map_simps less_Suc_eq simp del: split_paired_All)
    show "grows h ?h" using none unfolding grows_def f by (simp add: map_simps)
  qed (simp_all add: map_simps counter_at_heap f split: option.split)
qed

lemma store_flow_good:
  assumes ok: "heap_ok h" and m: "map_of (ch_table h) src = Some m" and none: "map_of (ch_maps h m) name = None"
  shows "good_step (src, name) h (IncrFlow (ch_next_flow h))
    (h\<lparr>ch_maps := (ch_maps h)(m := AList.update name (ch_next_flow h) (ch_maps h m)),
       ch_flows := (ch_flows h)(ch_next_flow h := []), ch_next_flow := Suc (ch_next_flow h)\<rparr>)"
    (is "good_step _ _ _ ?h")
proof -
  have inj: "map_of (ch_table h) s = Some m \<longleftrightarrow> s = src" for s using ok m by (auto simp: heap_ok_def)
  have f: "flow_ref ?h k = (if k = (src, name) then Some (ch_next_flow h) else flow_ref h k)" for k
    using m inj [of "fst k"] by (cases k) (auto simp: flow_ref_def map_simps split: Option.bind_splits)
  have old: "flow_ref h (src, name) = None" using m none by (simp add: flow_ref_def)
  have new: "flow_ref h k \<noteq> Some (ch_next_flow h)" for k using ok by (auto simp: heap_ok_def simp del: split_paired_All)
  have c: "heap_counter ?h k = heap_counter h k" for k
    using new [of k] old by (auto simp: counter_at_heap f split: option.split)
  show ?thesis
  proof (rule good_stepI)
    show "heap_ok ?h" using ok new unfolding heap_ok_def f by (simp add: less_Suc_eq del: split_paired_All) metis
    show "grows h ?h" using old unfolding grows_def f by simp
  qed (simp_all add: c f)
qed

lemma incr_good:
  assumes ok: "heap_ok h" and f: "flow_ref h k = Some f"
  shows "good_step k h Counted (h\<lparr>ch_flows := (ch_flows h)(f := ch_flows h f @ [Incr 1])\<rparr>)" (is "good_step _ _ _ ?h")
proof -
  have r: "flow_ref ?h k' = flow_ref h k'" for k' by (simp add: flow_ref_def)
  have only: "flow_ref h k' = Some f \<longleftrightarrow> k' = k" for k' using ok f unfolding heap_ok_def by blast
  show ?thesis
  proof (rule good_stepI)
    show "heap_ok ?h" using ok unfolding heap_ok_def r by simp
    show "grows h ?h" unfolding grows_def r by simp
    show "heap_counter ?h k' = heap_counter h k' @ (if Counted = Counted \<and> k' = k then [Incr 1] else [])" for k'
      using only [of k'] by (cases "flow_ref h k'") (use f in \<open>auto simp: counter_at_heap r\<close>)
  qed simp
qed

lemma count_thread_good:
  assumes ok: "heap_ok h" "pc_ok h k pc" and run: "pc \<noteq> Counted" "count_thread k pc h = (pc', h')"
  shows "good_step k h pc' h' \<and> steps_left pc' < steps_left pc"
proof -
  have same: "good_step k h p h" if "pc_ok h k p" "p \<noteq> Counted" for p
    using ok that by (simp add: good_step_def grows_def)
  show ?thesis
  proof (cases pc)
    case StoreMap
    then show ?thesis
      using run ok same store_map_good [OF ok(1), of "fst k" "snd k"]
      by (cases "map_of (ch_table h) (fst k)") (auto simp: count_thread_def load_or_store_def)
  next
    case (StoreFlow m)
    then show ?thesis
      using run ok same store_flow_good [OF ok(1), of "fst k" m "snd k"]
      by (cases "map_of (ch_maps h m) (snd k)") (auto simp: count_thread_def load_or_store_def flow_ref_def)
  next
    case (IncrFlow f)
    then show ?thesis using run ok incr_good [OF ok(1), of k f] by (simp add: count_thread_def)
  qed (use run ok same in \<open>auto simp: count_thread_def flow_ref_def split: option.splits\<close>)
qed

section \<open>Runs\<close>

definition counted_for :: "(string \<times> string) list \<Rightarrow> count_pc list \<Rightarrow> string \<times> string \<Rightarrow> nat" where
  "counted_for ks pcs k = card {i. i < length ks \<and> ks ! i = k \<and> pcs ! i = Counted}"

definition run_ok :: "(string \<times> string) list \<Rightarrow> count_heap \<Rightarrow> count_heap \<times> count_pc list \<Rightarrow> bool" where
  "run_ok ks h0 s \<longleftrightarrow> (case s of (h, pcs) \<Rightarrow> length pcs = length ks \<and> heap_ok h
     \<and> (\<forall>i < length ks. pc_ok h (ks ! i) (pcs ! i))
     \<and> (\<forall>k. heap_counter h k = heap_counter h0 k @ replicate (counted_for ks pcs k) (Incr 1)))"

definition work_left :: "count_heap \<times> count_pc list \<Rightarrow> nat" where
  "work_left s = sum_list (map steps_left (snd s))"

lemma counted_for_step:
  assumes "i < length ks" "length pcs = length ks" "pcs ! i \<noteq> Counted"
  shows "counted_for ks (pcs[i := pc]) k = counted_for ks pcs k + (if pc = Counted \<and> ks ! i = k then 1 else 0)"
proof -
  let ?S = "\<lambda>pcs. {j. j < length ks \<and> ks ! j = k \<and> pcs ! j = Counted}"
  have "?S (pcs[i := pc]) = (if pc = Counted \<and> ks ! i = k then insert i (?S pcs) else ?S pcs)"
    using assms by (auto simp: nth_list_update)
  moreover have "i \<notin> ?S pcs" "finite (?S pcs)" using assms(3) by simp_all
  ultimately show ?thesis by (simp add: counted_for_def)
qed

lemma count_step_ok:
  assumes step: "count_step ks s s'" and ok: "run_ok ks h0 s"
  shows "run_ok ks h0 s' \<and> work_left s' < work_left s"
  using step
proof cases
  case (1 i pcs h pc h')
  have i: "i < length ks" "length pcs = length ks" "heap_ok h" "pc_ok h (ks ! i) (pcs ! i)"
    using ok 1(1,3) by (simp_all add: run_ok_def)
  have g: "good_step (ks ! i) h pc h'" "steps_left pc < steps_left (pcs ! i)"
    using count_thread_good [OF i(3,4) 1(4,5)] by simp_all
  have "pc_ok h' (ks ! j) (pcs[i := pc] ! j)" if "j < length ks" for j
    using that g(1) ok i(1,2) pc_ok_grows [of h h'] by (cases "j = i") (simp_all add: run_ok_def 1(1) good_step_def)
  moreover have "heap_counter h' k = heap_counter h0 k @ replicate (counted_for ks (pcs[i := pc]) k) (Incr 1)" for k
  proof -
    have "heap_counter h' k = heap_counter h k @ (if pc = Counted \<and> k = ks ! i then [Incr 1] else [])"
      using g(1) unfolding good_step_def by blast
    moreover have "heap_counter h k = heap_counter h0 k @ replicate (counted_for ks pcs k) (Incr 1)"
      using ok unfolding run_ok_def 1(1) prod.case by blast
    ultimately show ?thesis
      unfolding counted_for_step [OF i(1,2) 1(4)] by (auto simp: replicate_append_same)
  qed
  ultimately have "run_ok ks h0 s'" using g(1) i(2) by (simp add: run_ok_def 1(2) good_step_def)
  moreover have "work_left s' < work_left s"
    using g(2) 1(3) member_le_sum_list [of "steps_left (pcs ! i)" "map steps_left pcs"]
    by (simp add: work_left_def 1(1,2) map_update sum_list_update)
  ultimately show ?thesis ..
qed

lemma count_run_ok:
  "(count_step ks ^^ n) s s' \<Longrightarrow> run_ok ks h0 s \<Longrightarrow> run_ok ks h0 s' \<and> n + work_left s' \<le> work_left s"
proof (induction n arbitrary: s')
  case (Suc n)
  from Suc.prems(1) obtain s1 where s1: "(count_step ks ^^ n) s s1" "count_step ks s1 s'" by auto
  from count_step_ok [OF s1(2)] Suc.IH [OF s1(1) Suc.prems(2)] show ?case by fastforce
qed simp

lemma run_ok_start: "heap_ok h \<Longrightarrow> run_ok ks h (h, replicate (length ks) LoadMap)"
  by (simp add: run_ok_def counted_for_def)

lemma stuck_counted:
  assumes "\<nexists>s. count_step ks (h, pcs) s" "i < length pcs"
  shows "pcs ! i = Counted"
proof (rule ccontr)
  assume "pcs ! i \<noteq> Counted"
  moreover obtain pc h' where "count_thread (ks ! i) (pcs ! i) h = (pc, h')" by (cases "count_thread (ks ! i) (pcs ! i) h")
  ultimately show False using assms count_step.intros [of i pcs ks h pc h'] by blast
qed

text \<open>
  C7: Concurrent calls are counted as if they came one after the other. Any number of workers that
  count at once, in any order of their atomic operations, take at most five steps each; and when no
  step is left, every flow of the table holds what counting the same calls one after the other
  leaves in it, so that no increment was lost to two workers storing a map or a flow at once.
\<close>

theorem concurrent_counts:
  assumes ok: "heap_ok h0" and run: "(count_step ks ^^ n) (h0, replicate (length ks) LoadMap) (h, pcs)"
  shows "n \<le> 5 * length ks
    \<and> ((\<nexists>s. count_step ks (h, pcs) s) \<longrightarrow>
        counter_at (heap_table h) k = counter_at (fold (\<lambda>(src, name). count_invoke src name) ks (heap_table h0)) k)"
proof -
  have r: "run_ok ks h0 (h, pcs)" "n + work_left (h, pcs) \<le> 5 * length ks"
    using count_run_ok [OF run run_ok_start [OF ok]] by (simp_all add: work_left_def sum_list_replicate)
  have "counted_for ks pcs k = count_list ks k" if "\<nexists>s. count_step ks (h, pcs) s"
  proof -
    have "pcs ! i = Counted" if "i < length ks" for i
      using stuck_counted [OF \<open>\<nexists>s. count_step ks (h, pcs) s\<close>] that r(1) by (simp add: run_ok_def)
    then have "counted_for ks pcs k = length (filter ((=) k) ks)"
      by (auto simp: counted_for_def length_filter_conv_card intro: arg_cong [where f = card])
    then show ?thesis by (simp add: count_list_eq_length_filter)
  qed
  moreover have "heap_counter h k = heap_counter h0 k @ replicate (counted_for ks pcs k) (Incr 1)"
    using r(1) unfolding run_ok_def prod.case by blast
  ultimately show ?thesis
    using r(2) invoke_counter.flow_at_fold [of ks "heap_table h0" k] by auto
qed

text \<open>A run along a schedule, the list of the workers that take a step.\<close>

fun schedule :: "(string \<times> string) list \<Rightarrow> nat list \<Rightarrow> count_heap \<times> count_pc list \<Rightarrow> (count_heap \<times> count_pc list) option" where
  "schedule ks [] s = Some s"
| "schedule ks (i # is) (h, pcs) =
     (if i < length pcs \<and> pcs ! i \<noteq> Counted then
        (case count_thread (ks ! i) (pcs ! i) h of (pc, h') \<Rightarrow> schedule ks is (h', pcs[i := pc]))
      else None)"

lemma schedule_run: "schedule ks is s = Some s' \<Longrightarrow> (count_step ks ^^ length is) s s'"
proof (induction ks "is" s rule: schedule.induct)
  case (2 ks i "is" h pcs)
  obtain pc h' where t: "count_thread (ks ! i) (pcs ! i) h = (pc, h')" by (cases "count_thread (ks ! i) (pcs ! i) h")
  with 2 have "i < length pcs" "pcs ! i \<noteq> Counted" "(count_step ks ^^ length is) (h', pcs[i := pc]) s'"
    by (auto split: if_splits)
  moreover from this(1,2) t have "count_step ks (h, pcs) (h', pcs[i := pc])" by (rule count_step.intros)
  ultimately show ?case using relpowp_Suc_I2 [of "count_step ks" "(h, pcs)" "(h', pcs[i := pc])"] by simp
qed simp

definition no_calls :: count_heap where
  "no_calls = \<lparr>ch_table = [], ch_maps = (\<lambda>_. []), ch_flows = (\<lambda>_. []), ch_next_map = 0, ch_next_flow = 0\<rparr>"

theorem concurrent_counts_witness:
  "\<exists>h. schedule [(''10.0.0.1:9'', ''Echo''), (''10.0.0.1:9'', ''Echo'')] [0, 1, 0, 1, 0, 1, 0, 1, 0, 1] (no_calls, [LoadMap, LoadMap])
       = Some (h, [Counted, Counted])
    \<and> counter_at (heap_table h) (''10.0.0.1:9'', ''Echo'') = [Incr 1, Incr 1]"
proof -
  let ?k = "(''10.0.0.1:9'', ''Echo'')"
  obtain h where s: "schedule [?k, ?k] [0, 1, 0, 1, 0, 1, 0, 1, 0, 1] (no_calls, [LoadMap, LoadMap]) = Some (h, [Counted, Counted])"
    by (simp add: no_calls_def count_thread_def load_or_store_def)
  have ok: "heap_ok no_calls" by (simp add: heap_ok_def no_calls_def flow_ref_def)
  have start: "replicate (length [?k, ?k]) LoadMap = [LoadMap, LoadMap]" by simp
  have run: "(count_step [?k, ?k] ^^ length [0, 1, 0, 1, 0, 1, 0, 1, 0, 1 :: nat]) (no_calls, replicate (length [?k, ?k]) LoadMap) (h, [Counted, Counted])"
    unfolding start by (rule schedule_run [OF s])
  have "\<nexists>s'. count_step [?k, ?k] (h, [Counted, Counted]) s'" by (auto elim!: count_stepE simp: less_Suc_eq)
  then have "counter_at (heap_table h) ?k = counter_at (fold (\<lambda>(src, name). count_invoke src name) [?k, ?k] (heap_table no_calls)) ?k"
    using concurrent_counts [OF ok run, of ?k] by blast
  also have "\<dots> = [Incr 1, Incr 1]"
    by (simp add: counter_at_count_invoke) (simp add: counter_at_def heap_table_def no_calls_def)
  finally show ?thesis using s by blast
qed

end
