(* ===== verification/Spec2Isabelle.thy ===== *)
theory Spec2Isabelle
  imports Moa_System_Props Moa_Count Moa_Admin_Props Moa_App_Props Moa_Proxy_Props Moa_Context_Props Moa_Stat_Props
    Moa_File_Registry Moa_Zk_Registry_Props Moa_Config_Center_Props Moa_Option_Props Moa_Codec_Props
begin

text \<open>
  A verification development of \<^verbatim>\<open>go-moa\<close>, the server side of a remote procedure call framework: a process
  registers Go services by reflection, publishes their addresses in a registry, and answers framed
  requests that name a service and a method and carry JSON arguments.

  \<^bold>\<open>The program\<close> (the package \<^verbatim>\<open>core\<close>, all of its files) \<^bold>\<open>and the theories.\<close> Each component has a theory
  with its state and operations, and a theory with its properties.

  \<^item> \<open>Moa_Prelude\<close>: Go values: outcomes that may panic (\<open>'a go\<close>), errors (\<open>string + 'a\<close>), 64-bit
    integers, maps as association lists. \<open>Moa_Strings\<close>: what is used of \<^verbatim>\<open>strings\<close>, \<^verbatim>\<open>fmt\<close> and \<^verbatim>\<open>sort\<close>.
    \<open>Moa_Json\<close>, \<open>Moa_Json_Laws\<close>: JSON text, its printer and parser, and decoding into structures as
    \<^verbatim>\<open>encoding/json\<close> does; what is printed is parsed back. \<open>Moa_Table\<close>: the contract of a finite map
    (locale \<open>table\<close>), fulfilled by Go maps.
  \<^item> \<open>Moa_Codes\<close>: \<^verbatim>\<open>code_enum.go\<close> and the constants of the other files.
  \<^item> \<open>Moa_Packets\<close>: the packets of \<^verbatim>\<open>moa_codec.go\<close> and \<^verbatim>\<open>ServiceMeta\<close> of \<^verbatim>\<open>proxy.go\<close> with their JSON form.
    \<open>Moa_Codec\<close>, \<open>Moa_Codec_Props\<close>: compression, \<^verbatim>\<open>UnmarshalPayload\<close>, \<^verbatim>\<open>MarshalPayload\<close>; requests and
    responses survive the wire.
  \<^item> \<open>Moa_Context\<close>, \<open>Moa_Context_Props\<close>: the property map carried by a context (\<^verbatim>\<open>AttachMoaProperty\<close> and
    the others) over a heap of shared maps; it refines a finite map, and who sees a write.
  \<^item> \<open>Moa_Stat\<close>, \<open>Moa_Stat_Laws\<close>, \<open>Moa_Stat_Props\<close>: \<^verbatim>\<open>stat.go\<close>: counters, the ticker's rounds, the
    collectors; nothing is lost or reported twice. The locale \<open>call_counter\<close> is the contract of a store
    of counters, fulfilled by the statistics and by the handler's call tables.
  \<^item> \<open>Moa_Proxy\<close>, \<open>Moa_Proxy_Laws\<close>, \<open>Moa_Proxy_Props\<close>: \<^verbatim>\<open>proxy.go\<close>: building the handler by reflection,
    \<^verbatim>\<open>Invoke\<close> with tracing, recovery and accounting, \<^verbatim>\<open>ListInvokes\<close>. \<open>dispatch\<close> is the specification of
    which exit a request takes; the properties say what is called, what is answered, what is counted.
    \<open>Moa_Count\<close>: the counting of calls at the granularity of its atomic operations, by any number of
    workers in any order; it refines the single step \<open>count_invoke\<close>.
  \<^item> \<open>Moa_Registry\<close>: service URIs and the interface \<^verbatim>\<open>IRegistry\<close> as the locale \<open>registry\<close>, interpreted by
    the file registry, the zookeeper registry and the interface value. \<open>Moa_File_Registry\<close>:
    \<^verbatim>\<open>registry_file.go\<close>. \<open>Moa_Zk\<close>, \<open>Moa_Zk_Laws\<close>: \<^verbatim>\<open>zk.go\<close> over a record of client operations, and the laws
    of a healthy zookeeper, which an explicit tree fulfils. \<open>Moa_Zk_Registry\<close>, its laws and properties:
    \<^verbatim>\<open>registry_zk.go\<close>: what a server publishes a client finds, what it withdraws is gone, when a client
    that is told of a change follows it and when it does not. \<open>Moa_Config_Center\<close> and its properties:
    \<^verbatim>\<open>registry.go\<close>.
  \<^item> \<open>Moa_Option\<close>, \<open>Moa_Option_Props\<close>: \<^verbatim>\<open>option.go\<close>: loading, defaults, the bind address.
  \<^item> \<open>Moa_App\<close>, \<open>Moa_App_Props\<close>: \<^verbatim>\<open>application.go\<close>: starting, dispatching a packet, running a request; a
    call from the client's bytes to the bytes it reads back. \<open>Moa_Admin\<close>, \<open>Moa_Admin_Props\<close>: forgetting
    clients, shutting down, the HTTP pages.
  \<^item> \<open>Moa_System\<close>, \<open>Moa_System_Props\<close>: the running server as a step relation over these operations, its
    reachable states, the invariant they keep, and what the workers alone make of the queue, in any
    order and at any cost (\<open>worker_run\<close>).

  \<^bold>\<open>Parameters.\<close> Code outside the repository is an argument: the services' methods (functions on a world
  that may return any values or panic) and their JSON decoders, the tracer, snappy, the zookeeper
  client, YAML and TOML, files, network interfaces, the regular expression match, the clock and the
  cost of a call. \<^verbatim>\<open>turbo\<close>'s server, worker pool and timer appear as the actions asked of them and as the
  steps of \<open>server_step\<close>, in which a pool may run the queue in any order or drop a request;
  a round of the ticker meets callbacks that may panic (\<open>tick_env\<close>);
  \<^verbatim>\<open>turbo.Flow\<close> and the prometheus objects are the histories of the calls made on them. Laws assumed
  of them are named hypotheses (\<open>tracer_law\<close>, \<open>snappy_law\<close>, \<open>zk_healthy\<close>, and that a tracer finds no span
  context in an empty carrier), each with a concrete function that fulfils it.

  \<^bold>\<open>Bounds and fuel.\<close> The JSON parser runs with fuel equal to the length of its input, which is enough:
  more changes nothing (\<open>json_parse_fuel\<close>). The loops of \<^verbatim>\<open>sort.Search\<close> and of \<^verbatim>\<open>DestroyApplication\<close> have
  termination proofs. Durations, times and sizes are 64-bit words where the code compares or
  multiplies them; counters and lengths are unbounded.

  \<^bold>\<open>Not modelled.\<close> Logging, but for the statistics' log; the lock of the zookeeper registry (its operations are single steps) and
  parallel execution inside one invocation; the cancellation of contexts; serving HTTP itself, the
  template of the index page, \<^verbatim>\<open>promhttp\<close> and \<^verbatim>\<open>pprof\<close>; framing and the network (in \<^verbatim>\<open>turbo\<close>). Go's order
  of iteration over maps is the order of the association list, which is arbitrary. Of panics, those
  without a value (\<^verbatim>\<open>panic(nil)\<close>, which \<^verbatim>\<open>recover\<close> reports as nil, and \<^verbatim>\<open>runtime.Goexit\<close>), those of a
  user's \<^verbatim>\<open>UnmarshalJSON\<close>, and those of \<^verbatim>\<open>reflect\<close> on a service whose interface is no pointer or whose
  instance is nil. \<open>ToLower\<close> and \<open>ToUpper\<close> map the ASCII letters only, where Go maps Unicode. The timer
  that forgets clients is a step that can always be taken, its end with the context is not modelled.
  A zookeeper node has no version and the laws let any node have children: the program deletes version
  0, writes no node twice and creates nothing under its ephemeral nodes.
\<close>

end
